(* ===== verification/Philo_Prelude.thy ===== *)
theory Philo_Prelude
  imports Main "HOL-Library.Word" "HOL-Library.AList" "HOL-Library.List_Lexorder"
begin

text \<open>
  The shared vocabulary of the development: Rust's machine integers, strings, results and
  hash maps, and the generic lemmas the component theories use.

  \<^item> A Rust \<^verbatim>\<open>String\<close> is the list of its Unicode scalar values (\<open>rstring\<close>), so that
    \<^verbatim>\<open>chars().count()\<close>, \<^verbatim>\<open>trim\<close> and \<^verbatim>\<open>split_whitespace\<close> count what the program counts.
    The order of two strings (\<^verbatim>\<open>str::cmp\<close>, bytewise on UTF-8) is the lexicographic order
    of their scalar values. A newtype over \<^verbatim>\<open>String\<close> (the identifiers) is its string.
  \<^item> A Rust \<^verbatim>\<open>Result\<close> is an \<open>rres\<close>; the third constructor is a panic (a failed
    \<^verbatim>\<open>expect\<close>, a slice out of range), so that the absence of panics is a theorem.
  \<^item> A \<^verbatim>\<open>HashMap\<close> is an association list with one pair per key, whose order is the
    (unspecified) iteration order.
  \<^item> \<^verbatim>\<open>u32\<close> and \<^verbatim>\<open>u64\<close> are words; addition wraps, as in a release build. Lengths and
    indices of in-memory vectors (\<^verbatim>\<open>usize\<close>) are natural numbers.
\<close>

named_theorems rres_simps \<open>case analysis of results\<close>

section \<open>Machine integers and strings\<close>

type_synonym u8 = "8 word"
type_synonym u32 = "32 word"
type_synonym u64 = "64 word"
type_synonym rstring = "nat list"

lemma unat_u32_less: "unat (x :: u32) < 2 ^ 32"
  using unsigned_less [of x] by simp

definition lit :: "string \<Rightarrow> rstring" where
  "lit s = map of_char s"

lemma lit_append [simp]: "lit (s @ t) = lit s @ lit t"
  by (simp add: lit_def)

lemma length_lit [simp]: "length (lit s) = length s"
  by (simp add: lit_def)

lemma lit_eq_iff [simp]: "lit s = lit t \<longleftrightarrow> s = t"
proof
  assume "lit s = lit t"
  then show "s = t"
    unfolding lit_def by (rule map_injective) (auto intro: injI)
qed simp

subsection \<open>Decimal numerals (\<^verbatim>\<open>Display\<close> of an unsigned integer)\<close>

fun dec :: "nat \<Rightarrow> rstring" where
  "dec n = (if n < 10 then [48 + n] else dec (n div 10) @ [48 + n mod 10])"

declare dec.simps [simp del]

definition undec :: "rstring \<Rightarrow> nat" where
  "undec ds = foldl (\<lambda>acc d. acc * 10 + (d - 48)) 0 ds"

lemma undec_snoc: "undec (ds @ [d]) = undec ds * 10 + (d - 48)"
  by (simp add: undec_def)

lemma undec_dec [simp]: "undec (dec n) = n"
proof (induction n rule: dec.induct)
  case (1 n)
  show ?case
  proof (cases "n < 10")
    case True
    then show ?thesis by (simp add: dec.simps [of n] undec_def)
  next
    case False
    with "1.IH" have "undec (dec (n div 10)) = n div 10" by simp
    with False show ?thesis
      by (simp add: dec.simps [of n] undec_snoc)
  qed
qed

lemma dec_inject [simp]: "dec m = dec n \<longleftrightarrow> m = n"
  by (metis undec_dec)

lemma dec_nonempty [simp]: "dec n \<noteq> []"
  by (subst dec.simps) simp

lemma lit_eval: "lit [] = []" "lit (c # cs) = of_char c # lit cs"
  by (simp_all add: lit_def)

lemma dec_digit: "n < 10 \<Longrightarrow> dec n = [48 + n]"
  by (simp add: dec.simps)

subsection \<open>Byte lengths\<close>

text \<open>The bytes of a character, and of a string (\<^verbatim>\<open>str::len\<close>), in UTF-8.\<close>

definition utf8_len :: "nat \<Rightarrow> nat" where
  "utf8_len c = (if c < 128 then 1 else if c < 2048 then 2 else if c < 65536 then 3 else 4)"

definition utf8_bytes :: "rstring \<Rightarrow> nat" where
  "utf8_bytes s = sum_list (map utf8_len s)"

lemma utf8_len_bounds: "0 < utf8_len c" "utf8_len c \<le> 4"
  by (simp_all add: utf8_len_def)

lemma utf8_bytes_simps [simp]:
  "utf8_bytes [] = 0" "utf8_bytes (c # s) = utf8_len c + utf8_bytes s"
  "utf8_bytes (s @ t) = utf8_bytes s + utf8_bytes t"
  by (simp_all add: utf8_bytes_def)

text \<open>\<^verbatim>\<open>String::truncate\<close>: the first bytes of a string; it panics when the cut is inside a
  character.\<close>

fun take_bytes :: "nat \<Rightarrow> rstring \<Rightarrow> rstring option" where
  "take_bytes 0 s = Some []"
| "take_bytes (Suc n) [] = Some []"
| "take_bytes (Suc n) (c # s) =
     (if utf8_len c \<le> Suc n then map_option (Cons c) (take_bytes (Suc n - utf8_len c) s) else None)"

lemma take_bytes_Some: "take_bytes n s = Some t \<Longrightarrow> utf8_bytes t \<le> n \<and> (\<exists>u. s = t @ u)"
proof (induction n s arbitrary: t rule: take_bytes.induct)
  case (3 n c s)
  then obtain t' where t': "take_bytes (Suc n - utf8_len c) s = Some t'" "t = c # t'" "utf8_len c \<le> Suc n"
    by (auto split: if_split_asm)
  with 3(1) show ?case by fastforce
qed simp_all

lemma take_bytes_exact: "take_bytes (utf8_bytes t) (t @ u) = Some t"
proof (induction t)
  case (Cons c t)
  have "0 < utf8_len c" by (rule utf8_len_bounds)
  then obtain m where m: "utf8_bytes (c # t) = Suc m" by (cases "utf8_bytes (c # t)") simp_all
  then have "Suc m - utf8_len c = utf8_bytes t" "utf8_len c \<le> Suc m" by simp_all
  with Cons m show ?case by simp
qed simp

lemma take_bytes_reaches: "take_bytes n s = Some t \<Longrightarrow> n \<le> utf8_bytes s \<Longrightarrow> utf8_bytes t = n"
proof (induction n s arbitrary: t rule: take_bytes.induct)
  case (3 n c s)
  then obtain t' where t': "take_bytes (Suc n - utf8_len c) s = Some t'" "t = c # t'" "utf8_len c \<le> Suc n"
    by (auto split: if_split_asm)
  with 3(1) [OF t'(3,1)] 3(3) show ?case by simp
qed simp_all

lemma take_bytes_None_iff:
  "n < utf8_bytes s \<and> take_bytes n s = None \<longleftrightarrow> n < utf8_bytes s \<and> (\<nexists>t u. s = t @ u \<and> utf8_bytes t = n)"
proof (cases "take_bytes n s")
  case None
  then show ?thesis using take_bytes_exact by fastforce
next
  case (Some t)
  then show ?thesis using take_bytes_Some [OF Some] take_bytes_reaches [OF Some] by auto
qed

lemma take_bytes_ascii: "list_all (\<lambda>c. c < 128) s \<Longrightarrow> take_bytes n s = Some (take n s)"
  by (induction n s rule: take_bytes.induct) (simp_all add: utf8_len_def)

subsection \<open>Whitespace and control characters\<close>

text \<open>The Unicode property \<^verbatim>\<open>White_Space\<close> (\<^verbatim>\<open>char::is_whitespace\<close>) and the category
  \<^verbatim>\<open>Cc\<close> (\<^verbatim>\<open>char::is_control\<close>).\<close>

definition is_whitespace :: "nat \<Rightarrow> bool" where
  "is_whitespace c \<longleftrightarrow>
     (9 \<le> c \<and> c \<le> 13) \<or> c = 32 \<or> c = 133 \<or> c = 160 \<or> c = 5760 \<or>
     (8192 \<le> c \<and> c \<le> 8202) \<or> c = 8232 \<or> c = 8233 \<or> c = 8239 \<or> c = 8287 \<or> c = 12288"

definition is_control :: "nat \<Rightarrow> bool" where
  "is_control c \<longleftrightarrow> c < 32 \<or> (127 \<le> c \<and> c < 160)"

definition trim :: "rstring \<Rightarrow> rstring" where
  "trim s = rev (dropWhile is_whitespace (rev (dropWhile is_whitespace s)))"

text \<open>The words of \<^verbatim>\<open>str::split_whitespace\<close>: the maximal runs without whitespace.\<close>

function split_whitespace :: "rstring \<Rightarrow> rstring list" where
  "split_whitespace [] = []"
| "split_whitespace (c # cs) =
     (if is_whitespace c then split_whitespace cs
      else (c # takeWhile (\<lambda>d. \<not> is_whitespace d) cs)
             # split_whitespace (dropWhile (\<lambda>d. \<not> is_whitespace d) cs))"
  by pat_completeness auto
termination
  by (relation "measure length") (auto simp: le_imp_less_Suc length_dropWhile_le)

fun join :: "rstring \<Rightarrow> rstring list \<Rightarrow> rstring" where
  "join sep [] = []"
| "join sep [w] = w"
| "join sep (w # ws) = w @ sep @ join sep ws"

lemma set_trim: "set (trim s) \<subseteq> set s"
proof -
  have "set (dropWhile is_whitespace xs) \<subseteq> set xs" for xs
    by (auto dest: set_dropWhileD)
  from this [of "rev (dropWhile is_whitespace s)"] this [of s] show ?thesis
    unfolding trim_def by simp
qed

lemma trim_eq_Nil_iff: "trim s = [] \<longleftrightarrow> (\<forall>c \<in> set s. is_whitespace c)"
proof -
  have "trim s = [] \<longleftrightarrow> (\<forall>c \<in> set (dropWhile is_whitespace s). is_whitespace c)"
    by (simp add: trim_def dropWhile_eq_Nil_conv)
  also have "\<dots> \<longleftrightarrow> (\<forall>c \<in> set s. is_whitespace c)"
    by (induction s) auto
  finally show ?thesis .
qed

lemma trim_fixpoint:
  assumes "s \<noteq> [] \<Longrightarrow> \<not> is_whitespace (hd s) \<and> \<not> is_whitespace (last s)"
  shows "trim s = s"
proof (cases s)
  case Nil
  then show ?thesis by (simp add: trim_def)
next
  case (Cons c cs)
  with assms have "dropWhile is_whitespace s = s" by simp
  moreover from Cons assms have "dropWhile is_whitespace (rev s) = rev s"
    by (auto simp: dropWhile_eq_self_iff hd_append hd_rev split: if_splits)
  ultimately show ?thesis by (simp add: trim_def)
qed

lemma hd_dropWhile_not: "dropWhile P xs \<noteq> [] \<Longrightarrow> \<not> P (hd (dropWhile P xs))"
  by (rule hd_dropWhile)

lemma trim_idem [simp]: "trim (trim s) = trim s"
proof (rule trim_fixpoint)
  assume ne: "trim s \<noteq> []"
  let ?d = "dropWhile is_whitespace s"
  let ?r = "dropWhile is_whitespace (rev ?d)"
  have r: "?r \<noteq> []" using ne by (simp add: trim_def)
  have "\<not> is_whitespace (last (trim s))"
    using hd_dropWhile_not [OF r] r by (simp add: trim_def last_rev)
  moreover have "\<not> is_whitespace (hd (trim s))"
  proof -
    obtain p where p: "rev ?d = p @ ?r"
      by (metis takeWhile_dropWhile_id)
    then have "?d = trim s @ rev p"
      by (metis rev_append rev_rev_ident trim_def)
    with ne have "hd (trim s) = hd ?d" and "?d \<noteq> []" by auto
    then show ?thesis using hd_dropWhile_not [of is_whitespace s] by simp
  qed
  ultimately show "\<not> is_whitespace (hd (trim s)) \<and> \<not> is_whitespace (last (trim s))" by simp
qed

section \<open>Results and panics\<close>

datatype ('a, 'e) rres = is_Ok: Ok (the_ok: 'a) | Err 'e | Panic

fun rbind :: "('a, 'e) rres \<Rightarrow> ('a \<Rightarrow> ('b, 'e) rres) \<Rightarrow> ('b, 'e) rres" where
  "rbind (Ok x) f = f x"
| "rbind (Err e) f = Err e"
| "rbind Panic f = Panic"

lemma rbind_eq_Ok [rres_simps]: "rbind r f = Ok y \<longleftrightarrow> (\<exists>x. r = Ok x \<and> f x = Ok y)"
  by (cases r) auto

lemma rbind_eq_Panic [rres_simps]:
  "rbind r f = Panic \<longleftrightarrow> r = Panic \<or> (\<exists>x. r = Ok x \<and> f x = Panic)"
  by (cases r) auto

lemma rbind_eq_Err [rres_simps]:
  "rbind r f = Err e \<longleftrightarrow> r = Err e \<or> (\<exists>x. r = Ok x \<and> f x = Err e)"
  by (cases r) auto

lemma rbind_assoc: "rbind (rbind r f) g = rbind r (\<lambda>x. rbind (f x) g)"
  by (cases r) auto

text \<open>A loop whose body may return early with an error (\<^verbatim>\<open>for ... { ...? }\<close>).\<close>

fun rfold :: "('x \<Rightarrow> 's \<Rightarrow> ('s, 'e) rres) \<Rightarrow> 'x list \<Rightarrow> 's \<Rightarrow> ('s, 'e) rres" where
  "rfold f [] s = Ok s"
| "rfold f (x # xs) s = rbind (f x s) (rfold f xs)"

lemma rfold_append: "rfold f (xs @ ys) s = rbind (rfold f xs s) (rfold f ys)"
proof (induction xs arbitrary: s)
  case (Cons x xs)
  then have "rfold f (xs @ ys) = (\<lambda>s. rbind (rfold f xs s) (rfold f ys))"
    by blast
  then show ?case by (simp add: rbind_assoc)
qed simp

lemma rfold_invariant:
  assumes "rfold f xs s = Ok t" and "I s"
    and "\<And>x s t. x \<in> set xs \<Longrightarrow> I s \<Longrightarrow> f x s = Ok t \<Longrightarrow> I t"
  shows "I t"
  using assms by (induction xs arbitrary: s) (auto simp: rres_simps)

lemma rfold_no_panic:
  assumes "I s"
    and "\<And>x s t. x \<in> set xs \<Longrightarrow> I s \<Longrightarrow> f x s = Ok t \<Longrightarrow> I t"
    and "\<And>x s. x \<in> set xs \<Longrightarrow> I s \<Longrightarrow> f x s \<noteq> Panic"
  shows "rfold f xs s \<noteq> Panic"
  using assms by (induction xs arbitrary: s) (auto simp: rres_simps)

text \<open>\<^verbatim>\<open>xs.iter().map(f).collect::<Result<Vec<_>, _>>()\<close>: the first error wins.\<close>

fun rmap :: "('x \<Rightarrow> ('y, 'e) rres) \<Rightarrow> 'x list \<Rightarrow> ('y list, 'e) rres" where
  "rmap f [] = Ok []"
| "rmap f (x # xs) = rbind (f x) (\<lambda>y. rbind (rmap f xs) (\<lambda>ys. Ok (y # ys)))"

lemma rmap_Ok_all:
  "(\<And>x. x \<in> set xs \<Longrightarrow> f x = Ok (g x)) \<Longrightarrow> rmap f xs = Ok (map g xs)"
  by (induction xs) auto

lemma rmap_Ok_ex:
  assumes "\<And>x. x \<in> set xs \<Longrightarrow> \<exists>y. f x = Ok y \<and> P x y"
  shows "\<exists>ys. rmap f xs = Ok ys \<and> list_all2 P xs ys"
  using assms
proof (induction xs)
  case (Cons x xs)
  then obtain y ys where "f x = Ok y" "P x y" "rmap f xs = Ok ys" "list_all2 P xs ys"
    by (metis list.set_intros)
  then show ?case by simp
qed simp

text \<open>A slice \<^verbatim>\<open>&xs[n..]\<close>, which panics when \<open>n\<close> is past the end.\<close>

definition slice_from :: "'a list \<Rightarrow> nat \<Rightarrow> ('a list, 'e) rres" where
  "slice_from xs n = (if n \<le> length xs then Ok (drop n xs) else Panic)"

lemma slice_from_Ok [simp]: "n \<le> length xs \<Longrightarrow> slice_from xs n = Ok (drop n xs)"
  by (simp add: slice_from_def)

lemma slice_from_eq_Ok [rres_simps]:
  "slice_from xs n = Ok ys \<longleftrightarrow> n \<le> length xs \<and> ys = drop n xs"
  by (auto simp: slice_from_def)

lemma slice_from_not_Err [simp]: "slice_from xs n \<noteq> Err e"
  by (simp add: slice_from_def)

text \<open>\<^verbatim>\<open>xs[i]\<close> and \<^verbatim>\<open>Option::expect\<close>, which panic, and \<^verbatim>\<open>slice::last\<close>.\<close>

definition index_at :: "'a list \<Rightarrow> nat \<Rightarrow> ('a, 'e) rres" where
  "index_at xs i = (if i < length xs then Ok (xs ! i) else Panic)"

definition expect :: "'a option \<Rightarrow> ('a, 'e) rres" where
  "expect x = (case x of Some y \<Rightarrow> Ok y | None \<Rightarrow> Panic)"

definition last_opt :: "'a list \<Rightarrow> 'a option" where
  "last_opt xs = (if xs = [] then None else Some (last xs))"

lemma index_at_Ok [simp]: "i < length xs \<Longrightarrow> index_at xs i = Ok (xs ! i)"
  by (simp add: index_at_def)

lemma expect_simps [simp]: "expect (Some x) = Ok x" "expect None = Panic"
  by (simp_all add: expect_def)

lemma last_opt_Some [simp]: "xs \<noteq> [] \<Longrightarrow> last_opt xs = Some (last xs)"
  by (simp add: last_opt_def)

section \<open>Iterators\<close>

fun find_map :: "('a \<Rightarrow> 'b option) \<Rightarrow> 'a list \<Rightarrow> 'b option" where
  "find_map f [] = None"
| "find_map f (x # xs) = (case f x of Some y \<Rightarrow> Some y | None \<Rightarrow> find_map f xs)"

lemma find_map_None_iff: "find_map f xs = None \<longleftrightarrow> (\<forall>x \<in> set xs. f x = None)"
  by (induction xs) (auto split: option.splits)

lemma find_map_Some_D: "find_map f xs = Some y \<Longrightarrow> \<exists>x \<in> set xs. f x = Some y"
  by (induction xs) (auto split: option.splits)

lemma map_filter_Nil_iff: "List.map_filter f xs = [] \<longleftrightarrow> (\<forall>x \<in> set xs. f x = None)"
  by (induction xs) (auto simp: List.map_filter_simps split: option.splits)

lemma map_filter_append: "List.map_filter f (xs @ ys) = List.map_filter f xs @ List.map_filter f ys"
  by (simp add: List.map_filter_def)

lemma set_map_filter: "set (List.map_filter f xs) = {y. \<exists>x \<in> set xs. f x = Some y}"
  by (force simp: List.map_filter_def)

definition position :: "('a \<Rightarrow> bool) \<Rightarrow> 'a list \<Rightarrow> nat option" where
  "position P xs =
     (let n = length (takeWhile (\<lambda>x. \<not> P x) xs) in if n < length xs then Some n else None)"

lemma position_None_iff: "position P xs = None \<longleftrightarrow> (\<forall>x \<in> set xs. \<not> P x)"
proof -
  have "length (takeWhile (\<lambda>x. \<not> P x) xs) < length xs \<longleftrightarrow> (\<exists>x \<in> set xs. P x)"
    by (induction xs) auto
  then show ?thesis by (auto simp: position_def Let_def)
qed

lemma position_nth:
  assumes "position P xs = Some n"
  shows "n < length xs" and "P (xs ! n)"
  using assms nth_length_takeWhile [of "\<lambda>x. \<not> P x" xs]
  by (auto simp: position_def Let_def split: if_splits)

lemma position_Some_drop:
  assumes "position P xs = Some n"
  shows "drop n xs = dropWhile (\<lambda>x. \<not> P x) xs" and "n < length xs"
  using assms
  by (auto simp: position_def Let_def dropWhile_eq_drop split: if_splits)

section \<open>Hash maps\<close>

type_synonym ('k, 'v) hashmap = "('k \<times> 'v) list"

definition hm_get :: "('k, 'v) hashmap \<Rightarrow> 'k \<Rightarrow> 'v option" where
  "hm_get m k = map_of m k"

definition hm_insert :: "'k \<Rightarrow> 'v \<Rightarrow> ('k, 'v) hashmap \<Rightarrow> ('k, 'v) hashmap" where
  "hm_insert k v m = AList.update k v m"

definition hm_keys :: "('k, 'v) hashmap \<Rightarrow> 'k list" where
  "hm_keys m = map fst m"

definition hm_remove :: "'k \<Rightarrow> ('k, 'v) hashmap \<Rightarrow> ('k, 'v) hashmap" where
  "hm_remove k m = filter (\<lambda>p. fst p \<noteq> k) m"

definition hm_wf :: "('k, 'v) hashmap \<Rightarrow> bool" where
  "hm_wf m \<longleftrightarrow> distinct (map fst m)"

lemma hm_get_Nil [simp]: "hm_get [] k = None"
  by (simp add: hm_get_def)

lemma hm_get_insert [simp]: "hm_get (hm_insert k v m) k' = (if k' = k then Some v else hm_get m k')"
  by (simp add: hm_get_def hm_insert_def update_conv')

lemma hm_get_insert_fun: "hm_get (hm_insert k v m) = (hm_get m)(k \<mapsto> v)"
  by (rule ext) simp

lemma hm_wf_Nil [simp]: "hm_wf []"
  by (simp add: hm_wf_def)

lemma hm_wf_insert [simp]: "hm_wf m \<Longrightarrow> hm_wf (hm_insert k v m)"
  by (simp add: hm_wf_def hm_insert_def distinct_update)

lemma hm_get_remove [simp]: "hm_get (hm_remove k m) k' = (if k' = k then None else hm_get m k')"
  by (induction m) (auto simp: hm_get_def hm_remove_def)

lemma hm_wf_remove [simp]: "hm_wf m \<Longrightarrow> hm_wf (hm_remove k m)"
  by (simp add: hm_wf_def hm_remove_def distinct_map_filter)

lemma length_hm_remove: "hm_wf m \<Longrightarrow> k \<in> set (hm_keys m) \<Longrightarrow> length (hm_remove k m) = length m - 1"
proof (induction m)
  case (Cons p m)
  then show ?case
  proof (cases "fst p = k")
    case True
    then have "filter (\<lambda>q. fst q \<noteq> k) m = m"
      using Cons.prems(1) by (auto simp: hm_wf_def filter_id_conv image_iff)
    with True show ?thesis by (simp add: hm_remove_def)
  next
    case False
    with Cons show ?thesis by (cases m) (auto simp: hm_remove_def hm_wf_def hm_keys_def)
  qed
qed (simp add: hm_keys_def)

lemma length_hm_insert: "length (hm_insert k v m) = (if hm_get m k = None then Suc (length m) else length m)"
  by (induction m) (auto simp: hm_get_def hm_insert_def)

lemma hm_get_Some_iff: "hm_wf m \<Longrightarrow> hm_get m k = Some v \<longleftrightarrow> (k, v) \<in> set m"
  by (simp add: hm_get_def hm_wf_def map_of_eq_Some_iff)

lemma set_hm_keys: "set (hm_keys m) = {k. hm_get m k \<noteq> None}"
  by (auto simp: hm_keys_def hm_get_def map_of_eq_None_iff)

lemma hm_insert_fresh: "hm_get m k = None \<Longrightarrow> hm_insert k v m = m @ [(k, v)]"
  by (induction m) (auto simp: hm_get_def hm_insert_def split: if_splits)

end
