(* ===== verification/Kernel_Protocol.thy ===== *)
theory Kernel_Protocol
  imports Philo_Prelude
begin

text \<open>
  The vocabulary of the turn kernel (\<^verbatim>\<open>philo-agent-kernel/src/protocol.rs\<close>, \<^verbatim>\<open>state.rs\<close> and
  \<^verbatim>\<open>tool_loop.rs\<close>): user messages, tool calls and results, assistant output, the kernel's
  inputs, effects, observations and rejections, its state and the view of its phase.
  Constructors that clash with another crate's carry the prefix \<open>K\<close>.
\<close>

section \<open>Messages\<close>

datatype user_part = KText rstring | KImage rstring "u8 list"

datatype invalid_user_message = EmptyParts | EmptyTextPart

record user_message =
  um_parts :: "user_part list"

definition user_text_empty :: "user_part \<Rightarrow> bool" where
  "user_text_empty p = (case p of KText t \<Rightarrow> t = [] | KImage _ _ \<Rightarrow> False)"

definition user_message_from_parts ::
    "user_part list \<Rightarrow> (user_message, invalid_user_message) rres" where
  "user_message_from_parts parts =
     (if parts = [] then Err EmptyParts
      else if list_ex user_text_empty parts then Err EmptyTextPart
      else Ok \<lparr>um_parts = parts\<rparr>)"

text \<open>The plain-text constructor panics on an empty text.\<close>

definition user_message_new :: "rstring \<Rightarrow> (user_message, 'e) rres" where
  "user_message_new t =
     (case user_message_from_parts [KText t] of Ok m \<Rightarrow> Ok m | Err _ \<Rightarrow> Panic | Panic \<Rightarrow> Panic)"

record kernel_tool_call =
  kcall_id :: rstring
  kcall_name :: rstring
  kcall_arguments :: rstring

datatype kernel_tool_result_outcome = KSuccess rstring | KError rstring rstring

record kernel_tool_result =
  kresult_call_id :: rstring
  kresult_outcome :: kernel_tool_result_outcome

definition kernel_result_success :: "rstring \<Rightarrow> rstring \<Rightarrow> kernel_tool_result" where
  "kernel_result_success call_id content =
     \<lparr>kresult_call_id = call_id, kresult_outcome = KSuccess content\<rparr>"

definition kernel_result_error :: "rstring \<Rightarrow> rstring \<Rightarrow> rstring \<Rightarrow> kernel_tool_result" where
  "kernel_result_error call_id code message =
     \<lparr>kresult_call_id = call_id, kresult_outcome = KError code message\<rparr>"

section \<open>Assistant output\<close>

datatype assistant_block = KTextBlock rstring | KToolCall kernel_tool_call

datatype invalid_assistant_output = EmptyTextBlock

record assistant_output =
  ao_blocks :: "assistant_block list"
  ao_unsupported :: bool

definition empty_text_block :: "assistant_block \<Rightarrow> bool" where
  "empty_text_block b = (case b of KTextBlock t \<Rightarrow> t = [] | KToolCall _ \<Rightarrow> False)"

definition assistant_from_blocks ::
    "assistant_block list \<Rightarrow> (assistant_output, invalid_assistant_output) rres" where
  "assistant_from_blocks blocks =
     (if list_ex empty_text_block blocks then Err EmptyTextBlock
      else Ok \<lparr>ao_blocks = blocks, ao_unsupported = False\<rparr>)"

definition expect_output :: "(assistant_output, invalid_assistant_output) rres \<Rightarrow>
    (assistant_output, 'e) rres" where
  "expect_output r = (case r of Ok out \<Rightarrow> Ok out | Err _ \<Rightarrow> Panic | Panic \<Rightarrow> Panic)"

definition assistant_final_text :: "rstring \<Rightarrow> (assistant_output, 'e) rres" where
  "assistant_final_text t =
     expect_output (assistant_from_blocks (if t = [] then [] else [KTextBlock t]))"

definition assistant_tool_calls :: "kernel_tool_call list \<Rightarrow> (assistant_output, 'e) rres" where
  "assistant_tool_calls calls = expect_output (assistant_from_blocks (map KToolCall calls))"

definition assistant_with_unsupported_tool_call :: "rstring \<Rightarrow> (assistant_output, 'e) rres" where
  "assistant_with_unsupported_tool_call t =
     rbind (assistant_final_text t) (\<lambda>out. Ok (out\<lparr>ao_unsupported := True\<rparr>))"

definition block_text :: "assistant_block \<Rightarrow> rstring option" where
  "block_text b = (case b of KTextBlock t \<Rightarrow> Some t | KToolCall _ \<Rightarrow> None)"

definition block_call :: "assistant_block \<Rightarrow> kernel_tool_call option" where
  "block_call b = (case b of KToolCall c \<Rightarrow> Some c | KTextBlock _ \<Rightarrow> None)"

lemma block_call_simps [simp]:
  "block_call (KToolCall c) = Some c" "block_call (KTextBlock t) = None"
  by (simp_all add: block_call_def)

lemma block_call_Some_iff: "block_call b = Some c \<longleftrightarrow> b = KToolCall c"
  by (cases b) auto

definition assistant_text :: "assistant_output \<Rightarrow> rstring" where
  "assistant_text out = concat (List.map_filter block_text (ao_blocks out))"

definition tool_call_batch :: "assistant_output \<Rightarrow> kernel_tool_call list option" where
  "tool_call_batch out =
     (let calls = List.map_filter block_call (ao_blocks out)
      in if calls = [] then None else Some calls)"

definition is_tool_call :: "assistant_block \<Rightarrow> bool" where
  "is_tool_call b = (case b of KToolCall _ \<Rightarrow> True | KTextBlock _ \<Rightarrow> False)"

definition contains_tool_call :: "assistant_output \<Rightarrow> bool" where
  "contains_tool_call out = list_ex is_tool_call (ao_blocks out)"

lemma contains_tool_call_iff_batch:
  "contains_tool_call out \<longleftrightarrow> (\<exists>calls. tool_call_batch out = Some calls)"
proof -
  have "list_ex is_tool_call bs \<longleftrightarrow> List.map_filter block_call bs \<noteq> []" for bs
    by (induction bs) (auto simp: is_tool_call_def List.map_filter_simps
        split: assistant_block.splits)
  then show ?thesis
    by (simp add: contains_tool_call_def tool_call_batch_def Let_def)
qed

lemma tool_call_batch_nonempty: "tool_call_batch out = Some calls \<Longrightarrow> calls \<noteq> []"
  by (auto simp: tool_call_batch_def Let_def split: if_splits)

section \<open>Inputs, effects, observations\<close>

datatype turn_message =
    TmUser user_message
  | TmAssistant assistant_output
  | TmAssistantToolCalls rstring "assistant_block list"
  | TmToolResult kernel_tool_result

datatype kernel_turn_failure =
    ModelCallFailed rstring
  | InvalidModelOutput rstring
  | ToolExecutionFailed rstring
  | PersistenceFailed rstring
  | RuntimeDriverFailed rstring

datatype kernel_turn_outcome = KSucceeded | KFailed | KCancelled

datatype kernel_phase_view =
    PvExpectingTurnStart
  | PvExpectingModelCompletion (pv_effect_id: rstring) (pv_model_call_id: rstring)
  | PvExpectingToolBatchCompletion (pv_effect_id: rstring) (pv_tool_batch_id: rstring)
  | PvTerminated kernel_turn_outcome

datatype kernel_input =
    BeginTurn rstring user_message u32
  | ModelCallCompleted rstring assistant_output
  | ToolBatchCompleted rstring "kernel_tool_result list"
  | TerminationRequested rstring kernel_turn_failure
  | CancelRequested rstring

datatype kernel_effect =
    RequestModel (eff_id: rstring) (eff_model_call_id: rstring) (eff_turn_messages: "turn_message list")
      (eff_tools_allowed: bool)
  | ExecuteToolBatch (eff_id: rstring) (eff_tool_batch_id: rstring) (eff_calls: "kernel_tool_call list")

datatype kernel_observation =
    ObTurnBegan rstring user_message
  | ObModelCallRequested rstring rstring
  | ObAssistantOutputAccepted rstring assistant_output
  | ObAssistantToolCallsAccepted rstring rstring "assistant_block list" "kernel_tool_call list"
  | ObToolBatchRequested rstring rstring
  | ObToolResultsAccepted rstring "kernel_tool_result list"
  | ObTurnFailureAccepted rstring kernel_turn_failure
  | ObTurnTerminated kernel_turn_outcome

datatype durability_requirement = BeforeNextEffect | BeforeSettlement

datatype kernel_input_rejection_reason =
    InputNotAccepted
  | EffectIdMismatch rstring rstring
  | EffectAlreadyCompleted rstring
  | UnsupportedAssistantOutput
  | InvalidToolCalls
  | ToolResultsMismatch
  | KernelTerminated

record kernel_input_rejection =
  rej_phase :: kernel_phase_view
  rej_reason :: kernel_input_rejection_reason

section \<open>State\<close>

datatype kernel_state =
    ExpectingTurnStart
  | ExpectingModelCompletion (ks_effect_id: rstring) (ks_model_call_id: rstring) (ks_used_rounds: u32)
      (ks_max_tool_rounds: u32) (ks_turn_id: rstring) (ks_transcript: "turn_message list")
  | ExpectingToolBatchCompletion (ks_effect_id: rstring) (ks_tool_batch_id: rstring) (ks_round: u32)
      (ks_max_tool_rounds: u32) (ks_turn_id: rstring) (ks_transcript: "turn_message list")
      (ks_calls: "kernel_tool_call list")
  | Terminated (ks_outcome: kernel_turn_outcome) (ks_completed_effect_id: rstring)

record kernel_transition =
  next_state :: kernel_state
  tr_phase :: kernel_phase_view
  observations :: "kernel_observation list"
  durability :: durability_requirement
  effect :: "kernel_effect option"

definition initial_state :: kernel_state where
  "initial_state = ExpectingTurnStart"

fun phase :: "kernel_state \<Rightarrow> kernel_phase_view" where
  "phase ExpectingTurnStart = PvExpectingTurnStart"
| "phase (ExpectingModelCompletion e m _ _ _ _) = PvExpectingModelCompletion e m"
| "phase (ExpectingToolBatchCompletion e b _ _ _ _ _) = PvExpectingToolBatchCompletion e b"
| "phase (Terminated oc _) = PvTerminated oc"

section \<open>Tool-loop checks\<close>

definition valid_calls :: "kernel_tool_call list \<Rightarrow> bool" where
  "valid_calls calls \<longleftrightarrow>
     calls \<noteq> []
     \<and> list_all (\<lambda>c. kcall_id c \<noteq> [] \<and> trim (kcall_name c) \<noteq> []) calls
     \<and> card (set (map kcall_id calls)) = length calls"

definition matching_results ::
    "kernel_tool_call list \<Rightarrow> kernel_tool_result list \<Rightarrow> bool" where
  "matching_results calls results \<longleftrightarrow>
     length calls = length results
     \<and> list_all (\<lambda>(c, r). kcall_id c = kresult_call_id r) (zip calls results)"

text \<open>The cardinality test of \<open>valid_calls\<close> is distinctness of the call identifiers, and
  matching results carry exactly the identifiers of the calls, in order.\<close>

lemma valid_calls_distinct: "valid_calls calls \<Longrightarrow> distinct (map kcall_id calls)"
  by (metis card_distinct length_map valid_calls_def)

lemma valid_calls_nonempty: "valid_calls calls \<Longrightarrow> calls \<noteq> []"
  by (simp add: valid_calls_def)

lemma matching_results_iff:
  "matching_results calls results \<longleftrightarrow> map kcall_id calls = map kresult_call_id results"
proof
  assume m: "matching_results calls results"
  then have len: "length calls = length results" by (simp add: matching_results_def)
  from len m show "map kcall_id calls = map kresult_call_id results"
    by (induction calls results rule: list_induct2) (auto simp: matching_results_def)
next
  assume eq: "map kcall_id calls = map kresult_call_id results"
  then have len: "length calls = length results" by (metis length_map)
  from len eq show "matching_results calls results"
    by (induction calls results rule: list_induct2) (auto simp: matching_results_def)
qed

end
