(* ===== verification/Kernel_Transition.thy ===== *)
theory Kernel_Transition
  imports Kernel_Protocol
begin

text \<open>
  The turn kernel's decision function (\<^verbatim>\<open>philo-agent-kernel/src/transition.rs\<close>): one definition
  per Rust function, in source order. A rejected input leaves the kernel state as it was, so a
  run of the kernel is a sequence of accepted inputs (\<open>kernel_run\<close>). The lemmas give the
  kernel invariant, the tool-round budget, the freshness of effect identifiers, and the pairing
  of tool calls and results in every model request.
\<close>

section \<open>Definitions\<close>

definition model_call_ids :: "rstring \<Rightarrow> u32 \<Rightarrow> rstring \<times> rstring" where
  "model_call_ids turn_id call_number =
     (turn_id @ lit '':model-call:'' @ dec (unat call_number),
      turn_id @ lit '':effect:'' @ dec (unat (2 * call_number - 1)))"

definition tool_batch_ids :: "rstring \<Rightarrow> u32 \<Rightarrow> rstring \<times> rstring" where
  "tool_batch_ids turn_id rnd =
     (turn_id @ lit '':tool-batch:'' @ dec (unat rnd),
      turn_id @ lit '':effect:'' @ dec (unat (2 * rnd)))"

definition kernel_begin :: "rstring \<Rightarrow> user_message \<Rightarrow> u32 \<Rightarrow> kernel_transition" where
  "kernel_begin turn_id user max_tool_rounds =
     (let (model_id, effect_id) = model_call_ids turn_id 1;
          transcript = [TmUser user];
          next = ExpectingModelCompletion effect_id model_id 0 max_tool_rounds turn_id transcript
      in \<lparr>next_state = next,
          tr_phase = phase next,
          observations = [ObTurnBegan turn_id user, ObModelCallRequested model_id effect_id],
          durability = BeforeNextEffect,
          effect = Some (RequestModel effect_id model_id transcript (0 < max_tool_rounds))\<rparr>)"

definition mismatch ::
    "kernel_phase_view \<Rightarrow> rstring \<Rightarrow> rstring \<Rightarrow> ('t, kernel_input_rejection) rres" where
  "mismatch ph expected received =
     Err \<lparr>rej_phase = ph, rej_reason = EffectIdMismatch expected received\<rparr>"

definition reject ::
    "kernel_state \<Rightarrow> kernel_input_rejection_reason \<Rightarrow> ('t, kernel_input_rejection) rres" where
  "reject state reason = Err \<lparr>rej_phase = phase state, rej_reason = reason\<rparr>"

definition complete_model ::
    "rstring \<Rightarrow> rstring \<Rightarrow> u32 \<Rightarrow> u32 \<Rightarrow> rstring \<Rightarrow> turn_message list \<Rightarrow> rstring \<Rightarrow> assistant_output
      \<Rightarrow> (kernel_transition, kernel_input_rejection) rres" where
  "complete_model expected model_id used_rounds max_tool_rounds turn_id transcript received output =
     (let current = PvExpectingModelCompletion expected model_id in
      if received \<noteq> expected then mismatch current expected received
      else if ao_unsupported output then
        Err \<lparr>rej_phase = current, rej_reason = UnsupportedAssistantOutput\<rparr>
      else if contains_tool_call output then
        (if \<not> used_rounds < max_tool_rounds then
           Err \<lparr>rej_phase = current, rej_reason = UnsupportedAssistantOutput\<rparr>
         else case tool_call_batch output of
             None \<Rightarrow> Panic
           | Some calls \<Rightarrow>
               if \<not> valid_calls calls then
                 Err \<lparr>rej_phase = current, rej_reason = InvalidToolCalls\<rparr>
               else
                 (let rnd = used_rounds + 1;
                      (batch_id, tool_effect) = tool_batch_ids turn_id rnd;
                      blocks = ao_blocks output;
                      next_transcript = transcript @ [TmAssistantToolCalls batch_id blocks];
                      next = ExpectingToolBatchCompletion tool_effect batch_id rnd max_tool_rounds
                               turn_id next_transcript calls
                  in Ok \<lparr>next_state = next,
                         tr_phase = phase next,
                         observations =
                           [ObAssistantToolCallsAccepted model_id batch_id blocks calls,
                            ObToolBatchRequested batch_id tool_effect],
                         durability = BeforeNextEffect,
                         effect = Some (ExecuteToolBatch tool_effect batch_id calls)\<rparr>))
      else
        (let next = Terminated KSucceeded expected
         in Ok \<lparr>next_state = next,
                tr_phase = phase next,
                observations =
                  [ObAssistantOutputAccepted model_id output, ObTurnTerminated KSucceeded],
                durability = BeforeSettlement,
                effect = None\<rparr>))"

definition complete_tools ::
    "rstring \<Rightarrow> rstring \<Rightarrow> u32 \<Rightarrow> u32 \<Rightarrow> rstring \<Rightarrow> turn_message list \<Rightarrow> kernel_tool_call list
      \<Rightarrow> rstring \<Rightarrow> kernel_tool_result list \<Rightarrow> (kernel_transition, kernel_input_rejection) rres" where
  "complete_tools expected batch_id rnd max_tool_rounds turn_id transcript calls received results =
     (let current = PvExpectingToolBatchCompletion expected batch_id in
      if received \<noteq> expected then mismatch current expected received
      else if \<not> matching_results calls results then
        Err \<lparr>rej_phase = current, rej_reason = ToolResultsMismatch\<rparr>
      else
        (let next_transcript = transcript @ map TmToolResult results;
             call_number = rnd + 1;
             (model_id, model_effect) = model_call_ids turn_id call_number;
             next = ExpectingModelCompletion model_effect model_id rnd max_tool_rounds turn_id
                      next_transcript
         in Ok \<lparr>next_state = next,
                tr_phase = phase next,
                observations =
                  [ObToolResultsAccepted batch_id results,
                   ObModelCallRequested model_id model_effect],
                durability = BeforeNextEffect,
                effect = Some (RequestModel model_effect model_id next_transcript
                                 (rnd < max_tool_rounds))\<rparr>))"

definition terminate ::
    "kernel_state \<Rightarrow> rstring \<Rightarrow> rstring \<Rightarrow> kernel_turn_failure
      \<Rightarrow> (kernel_transition, kernel_input_rejection) rres" where
  "terminate state expected received failure =
     (if received \<noteq> expected then mismatch (phase state) expected received
      else
        (let next = Terminated KFailed expected
         in Ok \<lparr>next_state = next,
                tr_phase = phase next,
                observations =
                  [ObTurnFailureAccepted expected failure, ObTurnTerminated KFailed],
                durability = BeforeSettlement,
                effect = None\<rparr>))"

definition kernel_cancel ::
    "kernel_state \<Rightarrow> rstring \<Rightarrow> rstring \<Rightarrow> (kernel_transition, kernel_input_rejection) rres" where
  "kernel_cancel state expected received =
     (if received \<noteq> expected then mismatch (phase state) expected received
      else
        (let next = Terminated KCancelled expected
         in Ok \<lparr>next_state = next,
                tr_phase = phase next,
                observations = [ObTurnTerminated KCancelled],
                durability = BeforeSettlement,
                effect = None\<rparr>))"

text \<open>The match on a terminated kernel: a completion of the very effect that ended the turn is
  reported as already completed, anything else as an input to a terminated kernel.\<close>

definition terminated_input ::
    "kernel_state \<Rightarrow> rstring \<Rightarrow> kernel_input \<Rightarrow> (kernel_transition, kernel_input_rejection) rres" where
  "terminated_input state completed_effect_id input =
     (case input of
        ModelCallCompleted effect_id _ \<Rightarrow>
          if effect_id = completed_effect_id then reject state (EffectAlreadyCompleted effect_id)
          else reject state KernelTerminated
      | ToolBatchCompleted effect_id _ \<Rightarrow>
          if effect_id = completed_effect_id then reject state (EffectAlreadyCompleted effect_id)
          else reject state KernelTerminated
      | _ \<Rightarrow> reject state KernelTerminated)"

definition transition ::
    "kernel_state \<Rightarrow> kernel_input \<Rightarrow> (kernel_transition, kernel_input_rejection) rres" where
  "transition state input =
     (case state of
        ExpectingTurnStart \<Rightarrow>
          (case input of
             BeginTurn turn_id user_message max_tool_rounds \<Rightarrow>
               Ok (kernel_begin turn_id user_message max_tool_rounds)
           | _ \<Rightarrow> reject state InputNotAccepted)
      | ExpectingModelCompletion effect_id model_call_id used_rounds max_tool_rounds turn_id
          transcript \<Rightarrow>
          (case input of
             ModelCallCompleted received output \<Rightarrow>
               complete_model effect_id model_call_id used_rounds max_tool_rounds turn_id transcript
                 received output
           | TerminationRequested received failure \<Rightarrow> terminate state effect_id received failure
           | CancelRequested received \<Rightarrow> kernel_cancel state effect_id received
           | _ \<Rightarrow> reject state InputNotAccepted)
      | ExpectingToolBatchCompletion effect_id tool_batch_id rnd max_tool_rounds turn_id transcript
          calls \<Rightarrow>
          (case input of
             ToolBatchCompleted received results \<Rightarrow>
               complete_tools effect_id tool_batch_id rnd max_tool_rounds turn_id transcript calls
                 received results
           | TerminationRequested received failure \<Rightarrow> terminate state effect_id received failure
           | CancelRequested received \<Rightarrow> kernel_cancel state effect_id received
           | _ \<Rightarrow> reject state InputNotAccepted)
      | Terminated outcome completed_effect_id \<Rightarrow>
          terminated_input state completed_effect_id input)"

lemmas transition_defs =
  transition_def kernel_begin_def complete_model_def complete_tools_def terminate_def
  kernel_cancel_def terminated_input_def mismatch_def reject_def

lemma kernel_begin_fields [simp]:
  "next_state (kernel_begin turn user mx) =
     ExpectingModelCompletion (snd (model_call_ids turn 1)) (fst (model_call_ids turn 1)) 0 mx turn
       [TmUser user]"
  "tr_phase (kernel_begin turn user mx) =
     PvExpectingModelCompletion (snd (model_call_ids turn 1)) (fst (model_call_ids turn 1))"
  "observations (kernel_begin turn user mx) =
     [ObTurnBegan turn user,
      ObModelCallRequested (fst (model_call_ids turn 1)) (snd (model_call_ids turn 1))]"
  "durability (kernel_begin turn user mx) = BeforeNextEffect"
  "effect (kernel_begin turn user mx) =
     Some (RequestModel (snd (model_call_ids turn 1)) (fst (model_call_ids turn 1)) [TmUser user]
       (0 < mx))"
  by (simp_all add: kernel_begin_def Let_def split: prod.splits)

section \<open>Inversion of accepted inputs\<close>

text \<open>Every accepted input is one of five moves; the lemma lists what each of them produces.\<close>

lemma transition_Ok_cases [consumes 1, case_names start answer call results failed cancelled]:
  assumes "transition s i = Ok t"
  obtains turn user mx where
      "s = ExpectingTurnStart" "i = BeginTurn turn user mx" "t = kernel_begin turn user mx"
    | e m u mx turn tr out where
        "s = ExpectingModelCompletion e m u mx turn tr" "i = ModelCallCompleted e out"
        "\<not> ao_unsupported out" "\<not> contains_tool_call out"
        "next_state t = Terminated KSucceeded e" "tr_phase t = PvTerminated KSucceeded"
        "observations t = [ObAssistantOutputAccepted m out, ObTurnTerminated KSucceeded]"
        "durability t = BeforeSettlement" "effect t = None"
    | e m u mx turn tr out calls b e' where
        "s = ExpectingModelCompletion e m u mx turn tr" "i = ModelCallCompleted e out"
        "\<not> ao_unsupported out" "u < mx" "tool_call_batch out = Some calls" "valid_calls calls"
        "(b, e') = tool_batch_ids turn (u + 1)"
        "next_state t = ExpectingToolBatchCompletion e' b (u + 1) mx turn
           (tr @ [TmAssistantToolCalls b (ao_blocks out)]) calls"
        "tr_phase t = PvExpectingToolBatchCompletion e' b"
        "observations t = [ObAssistantToolCallsAccepted m b (ao_blocks out) calls,
           ObToolBatchRequested b e']"
        "durability t = BeforeNextEffect" "effect t = Some (ExecuteToolBatch e' b calls)"
    | e b r mx turn tr calls rs m e' where
        "s = ExpectingToolBatchCompletion e b r mx turn tr calls" "i = ToolBatchCompleted e rs"
        "matching_results calls rs" "(m, e') = model_call_ids turn (r + 1)"
        "next_state t = ExpectingModelCompletion e' m r mx turn (tr @ map TmToolResult rs)"
        "tr_phase t = PvExpectingModelCompletion e' m"
        "observations t = [ObToolResultsAccepted b rs, ObModelCallRequested m e']"
        "durability t = BeforeNextEffect"
        "effect t = Some (RequestModel e' m (tr @ map TmToolResult rs) (r < mx))"
    | e f where
        "(\<exists>m. phase s = PvExpectingModelCompletion e m)
           \<or> (\<exists>b. phase s = PvExpectingToolBatchCompletion e b)"
        "i = TerminationRequested e f"
        "next_state t = Terminated KFailed e" "tr_phase t = PvTerminated KFailed"
        "observations t = [ObTurnFailureAccepted e f, ObTurnTerminated KFailed]"
        "durability t = BeforeSettlement" "effect t = None"
    | e where
        "(\<exists>m. phase s = PvExpectingModelCompletion e m)
           \<or> (\<exists>b. phase s = PvExpectingToolBatchCompletion e b)"
        "i = CancelRequested e"
        "next_state t = Terminated KCancelled e" "tr_phase t = PvTerminated KCancelled"
        "observations t = [ObTurnTerminated KCancelled]"
        "durability t = BeforeSettlement" "effect t = None"
proof (cases s)
  case ExpectingTurnStart
  with assms show ?thesis
    by (cases i) (auto simp: transition_def reject_def intro: that(1))
next
  case (ExpectingModelCompletion e m u mx turn tr)
  show ?thesis
  proof (cases i)
    case (ModelCallCompleted received out)
    show ?thesis
    proof (cases "contains_tool_call out")
      case True
      then obtain calls where calls: "tool_call_batch out = Some calls"
        by (auto simp: contains_tool_call_iff_batch)
      obtain b e' where be: "tool_batch_ids turn (u + 1) = (b, e')" by fastforce
      show ?thesis
        using assms ExpectingModelCompletion ModelCallCompleted True calls be
        by (intro that(3) [of e m u mx turn tr out calls b e'])
          (auto simp: transition_def complete_model_def mismatch_def Let_def split: if_splits)
    next
      case False
      with assms ExpectingModelCompletion ModelCallCompleted show ?thesis
        by (intro that(2) [of e m u mx turn tr out])
          (auto simp: transition_def complete_model_def mismatch_def Let_def split: if_splits)
    qed
  next
    case (TerminationRequested received f)
    with assms ExpectingModelCompletion show ?thesis
      by (intro that(5) [of e f])
        (auto simp: transition_def terminate_def mismatch_def Let_def split: if_splits)
  next
    case (CancelRequested received)
    with assms ExpectingModelCompletion show ?thesis
      by (intro that(6) [of e])
        (auto simp: transition_def kernel_cancel_def mismatch_def Let_def split: if_splits)
  qed (use assms ExpectingModelCompletion in \<open>auto simp: transition_def reject_def\<close>)
next
  case (ExpectingToolBatchCompletion e b r mx turn tr calls)
  show ?thesis
  proof (cases i)
    case (ToolBatchCompleted received rs)
    obtain m e' where me: "model_call_ids turn (r + 1) = (m, e')" by fastforce
    with assms ExpectingToolBatchCompletion ToolBatchCompleted show ?thesis
      by (intro that(4) [of e b r mx turn tr calls rs m e'])
        (auto simp: transition_def complete_tools_def mismatch_def Let_def split: if_splits)
  next
    case (TerminationRequested received f)
    with assms ExpectingToolBatchCompletion show ?thesis
      by (intro that(5) [of e f])
        (auto simp: transition_def terminate_def mismatch_def Let_def split: if_splits)
  next
    case (CancelRequested received)
    with assms ExpectingToolBatchCompletion show ?thesis
      by (intro that(6) [of e])
        (auto simp: transition_def kernel_cancel_def mismatch_def Let_def split: if_splits)
  qed (use assms ExpectingToolBatchCompletion in \<open>auto simp: transition_def reject_def\<close>)
next
  case (Terminated oc e)
  with assms show ?thesis
    by (cases i) (auto simp: transition_def terminated_input_def reject_def split: if_splits)
qed

end
