(* ===== verification/Kernel_Runs.thy ===== *)
theory Kernel_Runs
  imports Kernel_Transition
begin

text \<open>
  Runs of the turn kernel: the invariant of reachable states and the properties of whole turns.
  \<open>kernel_run es ts s\<close> says that the kernel, started in its initial state, accepted the inputs
  that led through the transitions \<open>ts\<close> to the state \<open>s\<close>, emitting the effects \<open>es\<close>.
\<close>

section \<open>Runs\<close>

definition effects_of :: "kernel_transition \<Rightarrow> kernel_effect list" where
  "effects_of t = (case effect t of None \<Rightarrow> [] | Some e \<Rightarrow> [e])"

inductive kernel_run :: "kernel_effect list \<Rightarrow> kernel_transition list \<Rightarrow> kernel_state \<Rightarrow> bool" where
  run_start: "kernel_run [] [] initial_state"
| run_step: "kernel_run es ts s \<Longrightarrow> transition s i = Ok t \<Longrightarrow>
    kernel_run (es @ effects_of t) (ts @ [t]) (next_state t)"

inductive_cases kernel_run_ConsE: "kernel_run es (ts @ [t]) s"

text \<open>The pairing of tool calls and results in a transcript: \<open>pending_calls p ms\<close> reads the
  messages \<open>ms\<close> with the call identifiers \<open>p\<close> still unanswered and returns those unanswered at
  the end; it fails on a result that answers no pending call, or on any other message while calls
  are pending.\<close>

fun pending_calls :: "rstring list \<Rightarrow> turn_message list \<Rightarrow> rstring list option" where
  "pending_calls p [] = Some p"
| "pending_calls p (TmToolResult r # ms) =
     (case p of [] \<Rightarrow> None
      | c # cs \<Rightarrow> if c = kresult_call_id r then pending_calls cs ms else None)"
| "pending_calls p (TmAssistantToolCalls _ blocks # ms) =
     (if p = [] then pending_calls (map kcall_id (List.map_filter block_call blocks)) ms else None)"
| "pending_calls p (_ # ms) = (if p = [] then pending_calls [] ms else None)"

lemma pending_calls_append:
  "pending_calls p (xs @ ys) = Option.bind (pending_calls p xs) (\<lambda>q. pending_calls q ys)"
  by (induction p xs rule: pending_calls.induct) (auto split: list.splits)

lemma pending_calls_results:
  "pending_calls (map kresult_call_id rs @ p) (map TmToolResult rs) = Some p"
  by (induction rs) auto

section \<open>The kernel invariant\<close>

definition effect_name :: "rstring \<Rightarrow> nat \<Rightarrow> rstring" where
  "effect_name turn n = turn @ lit '':effect:'' @ dec n"

lemma effect_name_inject [simp]: "effect_name turn m = effect_name turn n \<longleftrightarrow> m = n"
  by (simp add: effect_name_def)

fun kernel_inv :: "kernel_state \<Rightarrow> bool" where
  "kernel_inv ExpectingTurnStart = True"
| "kernel_inv (ExpectingModelCompletion e m used mx turn tr) =
     (used \<le> mx \<and> (m, e) = model_call_ids turn (used + 1)
      \<and> (\<exists>user rest. tr = TmUser user # rest) \<and> pending_calls [] tr = Some [])"
| "kernel_inv (ExpectingToolBatchCompletion e b rnd mx turn tr calls) =
     (0 < rnd \<and> rnd \<le> mx \<and> (b, e) = tool_batch_ids turn rnd
      \<and> (\<exists>user rest. tr = TmUser user # rest) \<and> valid_calls calls
      \<and> pending_calls [] tr = Some (map kcall_id calls))"
| "kernel_inv (Terminated _ _) = True"

lemma u32_succ:
  fixes u mx :: u32
  assumes "u < mx"
  shows "unat (u + 1) = unat u + 1" "0 < u + 1" "u + 1 \<le> mx"
proof -
  have "unat u < unat mx" using assms by (simp add: word_less_nat_alt)
  moreover have "unat mx < 2 ^ 32" by (rule unat_u32_less)
  ultimately have "unat u + 1 < 2 ^ 32" by simp
  then show s: "unat (u + 1) = unat u + 1" by (simp add: unat_word_ariths)
  show "0 < u + 1" using s by (simp add: word_less_nat_alt)
  show "u + 1 \<le> mx" using s \<open>unat u < unat mx\<close> by (simp add: word_le_nat_alt)
qed

lemma transition_inv: "kernel_inv s \<Longrightarrow> transition s i = Ok t \<Longrightarrow> kernel_inv (next_state t)"
proof (erule transition_Ok_cases, goal_cases)
  case (1 turn user mx)
  then show ?case by auto
next
  case (3 e m u mx turn tr out calls b e')
  then have "List.map_filter block_call (ao_blocks out) = calls"
    by (auto simp: tool_call_batch_def Let_def split: if_splits)
  with 3 show ?case by (auto simp: pending_calls_append u32_succ)
next
  case (4 e b r mx turn tr calls rs m e')
  then have "pending_calls (map kcall_id calls) (map TmToolResult rs) = Some []"
    using pending_calls_results [of rs "[]"] by (simp add: matching_results_iff)
  with 4 show ?case by (auto simp: pending_calls_append)
qed simp_all

lemma kernel_run_inv: "kernel_run es ts s \<Longrightarrow> kernel_inv s"
  by (induction rule: kernel_run.induct) (auto simp: initial_state_def dest: transition_inv)

section \<open>Fresh effect identifiers and the tool budget\<close>

text \<open>The number of effects the kernel has emitted when it waits for one: \<open>2k-1\<close> for model call
  \<open>k\<close> and \<open>2k\<close> for tool batch \<open>k\<close>. The identifier arithmetic is done in 32 bits, so the
  correspondence holds for turns whose budget stays below \<open>2 ^ 31\<close> rounds.\<close>

definition run_effects_ok :: "kernel_effect list \<Rightarrow> rstring \<Rightarrow> nat \<Rightarrow> bool" where
  "run_effects_ok es turn n \<longleftrightarrow> map eff_id es = map (effect_name turn) [1..<n + 1]"

lemma run_effects_ok_distinct: "run_effects_ok es turn n \<Longrightarrow> distinct (map eff_id es)"
  by (simp add: run_effects_ok_def distinct_map inj_on_def)

lemma run_effects_ok_snoc:
  "run_effects_ok es turn n \<Longrightarrow> eff_id e = effect_name turn (Suc n) \<Longrightarrow>
    run_effects_ok (es @ [e]) turn (Suc n)"
  by (simp add: run_effects_ok_def)

fun effects_inv :: "kernel_effect list \<Rightarrow> kernel_state \<Rightarrow> bool" where
  "effects_inv es ExpectingTurnStart = (es = [])"
| "effects_inv es (ExpectingModelCompletion e m used mx turn tr) =
     (unat mx < 2 ^ 31 \<longrightarrow> run_effects_ok es turn (2 * unat used + 1))"
| "effects_inv es (ExpectingToolBatchCompletion e b rnd mx turn tr calls) =
     (unat mx < 2 ^ 31 \<longrightarrow> run_effects_ok es turn (2 * unat rnd))"
| "effects_inv es (Terminated _ _) = True"

lemma unat_double:
  fixes r :: u32
  assumes "unat r < 2 ^ 31"
  shows "unat (2 * r) = 2 * unat r" "unat (2 * (r + 1) - 1) = 2 * unat r + 1"
proof -
  show a: "unat (2 * r) = 2 * unat r" using assms by (simp add: unat_word_ariths)
  have "2 * (r + 1) - 1 = 2 * r + 1" by simp
  moreover have "unat (2 * r + 1) = 2 * unat r + 1"
    using a assms by (simp add: unat_word_ariths)
  ultimately show "unat (2 * (r + 1) - 1) = 2 * unat r + 1" by metis
qed

lemma effects_inv_step:
  assumes "effects_inv es s" and "kernel_inv s" and "transition s i = Ok t"
  shows "effects_inv (es @ effects_of t) (next_state t)"
  using assms(3)
proof (cases rule: transition_Ok_cases)
  case (start turn user mx)
  with assms(1) show ?thesis
    by (auto simp: model_call_ids_def effects_of_def run_effects_ok_def
        effect_name_def Let_def)
next
  case (call e m u mx turn tr out calls b e')
  have "run_effects_ok (es @ effects_of t) turn (2 * unat u + 1 + 1)" if "unat mx < 2 ^ 31"
  proof -
    from call have "unat u < unat mx" by (simp add: word_less_nat_alt)
    with that have "unat (u + 1) < 2 ^ 31" using u32_succ [OF \<open>u < mx\<close>] by simp
    with call have "e' = effect_name turn (2 * unat u + 1 + 1)"
      using u32_succ [OF \<open>u < mx\<close>] unat_double(1) [of "u + 1"]
      by (simp add: tool_batch_ids_def effect_name_def)
    with call assms(1) that show ?thesis
      using run_effects_ok_snoc [of es turn "2 * unat u + 1" "ExecuteToolBatch e' b calls"]
      by (simp add: effects_of_def)
  qed
  with call u32_succ [OF \<open>u < mx\<close>] show ?thesis by simp
next
  case (results e b r mx turn tr calls rs m e')
  have "run_effects_ok (es @ effects_of t) turn (2 * unat r + 1)" if "unat mx < 2 ^ 31"
  proof -
    from results assms(2) have "unat r \<le> unat mx" by (simp add: word_le_nat_alt)
    with that have "unat r < 2 ^ 31" by simp
    with results have "e' = effect_name turn (2 * unat r + 1)"
      using unat_double(2) [of r] by (simp add: model_call_ids_def effect_name_def)
    with results assms(1) that show ?thesis
      by (simp add: effects_of_def run_effects_ok_snoc)
  qed
  with results show ?thesis by simp
qed simp_all

lemma kernel_run_effects_inv: "kernel_run es ts s \<Longrightarrow> effects_inv es s"
proof (induction rule: kernel_run.induct)
  case run_start
  then show ?case by (simp add: initial_state_def)
next
  case (run_step es ts s i t)
  then show ?case using kernel_run_inv effects_inv_step by blast
qed

text \<open>What is left of the turn: a measure that every accepted input decreases.\<close>

fun turn_budget :: "kernel_state \<Rightarrow> nat" where
  "turn_budget ExpectingTurnStart = 2 ^ 33"
| "turn_budget (ExpectingModelCompletion e m used mx turn tr) = 2 * (unat mx - unat used) + 1"
| "turn_budget (ExpectingToolBatchCompletion e b rnd mx turn tr calls) =
     2 * (unat mx - unat rnd) + 2"
| "turn_budget (Terminated _ _) = 0"

lemma turn_budget_step:
  assumes "kernel_inv s" and "transition s i = Ok t"
  shows "turn_budget (next_state t) < turn_budget s"
  using assms(2)
proof (cases rule: transition_Ok_cases)
  case (start turn user mx)
  have "unat mx < 2 ^ 32" by (rule unat_u32_less)
  with start show ?thesis by auto
next
  case (call e m u mx turn tr out calls b e')
  then have "unat u < unat mx" by (simp add: word_less_nat_alt)
  with call u32_succ [OF \<open>u < mx\<close>] show ?thesis by auto
next
  case (failed e f)
  then show ?thesis by (cases s) auto
next
  case (cancelled e)
  then show ?thesis by (cases s) auto
qed auto

lemma kernel_run_begun:
  assumes "kernel_run es ts s" and "ts \<noteq> []"
  obtains turn user mx where "hd ts = kernel_begin turn user mx"
    "length ts + turn_budget s \<le> 2 * unat mx + 2"
    "s \<noteq> ExpectingTurnStart"
  using assms
proof (induction arbitrary: thesis rule: kernel_run.induct)
  case (run_step es ts s i t)
  show ?case
  proof (cases "ts = []")
    case True
    with run_step.hyps(1) have "s = ExpectingTurnStart"
      by (cases rule: kernel_run.cases) (auto simp: initial_state_def)
    with run_step.hyps(2) obtain turn user mx where "t = kernel_begin turn user mx"
      by (auto simp: transition_def reject_def split: kernel_input.splits)
    with True show ?thesis
      by (intro run_step.prems(1) [of turn user mx])
        auto
  next
    case False
    then obtain turn user mx where h: "hd ts = kernel_begin turn user mx"
      "length ts + turn_budget s \<le> 2 * unat mx + 2" "s \<noteq> ExpectingTurnStart"
      using run_step.IH by blast
    have "turn_budget (next_state t) < turn_budget s"
      using turn_budget_step kernel_run_inv run_step.hyps by blast
    moreover have "next_state t \<noteq> ExpectingTurnStart"
      using run_step.hyps(2) by (cases rule: transition_Ok_cases)
        auto
    ultimately show ?thesis using h False
      by (intro run_step.prems(1) [of turn user mx]) auto
  qed
qed simp

section \<open>Turn parameters along a run\<close>

text \<open>The turn and the tool budget are frozen by \<open>BeginTurn\<close>; every later state carries them.\<close>

fun begun_as :: "rstring \<Rightarrow> u32 \<Rightarrow> kernel_state \<Rightarrow> bool" where
  "begun_as turn mx ExpectingTurnStart = False"
| "begun_as turn mx (ExpectingModelCompletion e m used mx' turn' tr) = (turn' = turn \<and> mx' = mx)"
| "begun_as turn mx (ExpectingToolBatchCompletion e b rnd mx' turn' tr calls) =
     (turn' = turn \<and> mx' = mx)"
| "begun_as turn mx (Terminated _ _) = True"

lemma begun_as_begin: "begun_as turn mx (next_state (kernel_begin turn user mx))"
  by auto

lemma begun_as_step:
  "begun_as turn mx s \<Longrightarrow> transition s i = Ok t \<Longrightarrow> begun_as turn mx (next_state t)"
  by (erule transition_Ok_cases) auto

lemma first_transition:
  assumes "kernel_run es [t] s"
  obtains turn user mx where "t = kernel_begin turn user mx" "es = effects_of t" "s = next_state t"
proof -
  from assms obtain es' s' i where r: "kernel_run es' [] s'" "transition s' i = Ok t"
    "es = es' @ effects_of t" "s = next_state t"
    by (auto elim: kernel_run_ConsE [of es "[]" t s, simplified])
  from r(1) have "es' = []" "s' = ExpectingTurnStart"
    by (auto elim: kernel_run.cases simp: initial_state_def)
  with r that show thesis
    by (auto simp: transition_def reject_def split: kernel_input.splits)
qed

text \<open>Induction over a run after its first transition: what \<open>BeginTurn\<close> establishes and every
  accepted input keeps holds of the whole run.\<close>

lemma kernel_run_begun_induct [consumes 2, case_names Begin Step]:
  assumes "kernel_run es ts s" and "ts \<noteq> []"
    and "P (effects_of (kernel_begin turn user mx)) (next_state (kernel_begin turn user mx))"
    and "\<And>es ts s i t. kernel_run es ts s \<Longrightarrow> ts \<noteq> [] \<Longrightarrow> hd ts = kernel_begin turn user mx \<Longrightarrow>
      begun_as turn mx s \<Longrightarrow> transition s i = Ok t \<Longrightarrow> P es s \<Longrightarrow>
      P (es @ effects_of t) (next_state t)"
    and "hd ts = kernel_begin turn user mx"
  shows "P es s \<and> begun_as turn mx s"
  using assms(1,2,5)
proof (induction rule: kernel_run.induct)
  case (run_step es ts s i t)
  show ?case
  proof (cases "ts = []")
    case True
    with run_step have t: "t = kernel_begin turn user mx" by simp
    from True run_step.hyps have "kernel_run (es @ effects_of t) [t] (next_state t)"
      using kernel_run.run_step by fastforce
    then have "es @ effects_of t = effects_of t" by (elim first_transition)
    with t assms(3) run_step.prems True show ?thesis by (simp add: begun_as_begin)
  next
    case False
    with run_step.prems have h: "hd ts = kernel_begin turn user mx" by simp
    with run_step.IH False have "P es s" "begun_as turn mx s" by auto
    with assms(4) run_step.hyps False h begun_as_step show ?thesis by blast
  qed
qed simp

lemma run_effects_ok_run:
  assumes "kernel_run es ts s" and "ts \<noteq> []" and "hd ts = kernel_begin turn user mx"
    and "unat mx < 2 ^ 31"
  shows "\<exists>n. run_effects_ok es turn n"
proof -
  have "(\<exists>n. run_effects_ok es turn n) \<and> begun_as turn mx s"
    using assms(1,2)
  proof (induction rule: kernel_run_begun_induct [where user = user])
    case Begin
    have "run_effects_ok (effects_of (kernel_begin turn user mx)) turn 1"
      by (simp add: effects_of_def model_call_ids_def run_effects_ok_def
          effect_name_def Let_def)
    then show ?case by blast
  next
    case (Step es ts s i t)
    show ?case
    proof (cases "effects_of t = []")
      case True
      with Step show ?thesis by simp
    next
      case False
      have "\<not> (\<exists>oc e. next_state t = Terminated oc e)"
        using \<open>transition s i = Ok t\<close> False
        by (cases rule: transition_Ok_cases)
          (auto simp: effects_of_def)
      moreover have "effects_inv (es @ effects_of t) (next_state t)"
        using Step kernel_run.run_step kernel_run_effects_inv by blast
      moreover have "begun_as turn mx (next_state t)" using Step begun_as_step by blast
      ultimately show ?thesis using assms(4) by (cases "next_state t") auto
    qed
  qed (rule assms(3))
  then show ?thesis ..
qed

definition is_execute :: "kernel_effect \<Rightarrow> bool" where
  "is_execute e = (case e of ExecuteToolBatch _ _ _ \<Rightarrow> True | _ \<Rightarrow> False)"

fun executed_rounds :: "kernel_state \<Rightarrow> nat \<Rightarrow> u32 \<Rightarrow> bool" where
  "executed_rounds ExpectingTurnStart n mx = (n = 0)"
| "executed_rounds (ExpectingModelCompletion e m used mx' turn tr) n mx = (n = unat used)"
| "executed_rounds (ExpectingToolBatchCompletion e b rnd mx' turn tr calls) n mx = (n = unat rnd)"
| "executed_rounds (Terminated _ _) n mx = (n \<le> unat mx)"

lemma executed_rounds_run:
  assumes "kernel_run es ts s" and "ts \<noteq> []" and "hd ts = kernel_begin turn user mx"
  shows "executed_rounds s (length (filter is_execute es)) mx \<and> begun_as turn mx s"
  using assms(1,2)
proof (induction rule: kernel_run_begun_induct [where user = user])
  case Begin
  show ?case
    by (auto simp: effects_of_def is_execute_def)
next
  case (Step es ts s i t)
  have inv: "kernel_inv s" using Step kernel_run_inv by blast
  from \<open>transition s i = Ok t\<close> Step inv show ?case
  proof (cases rule: transition_Ok_cases)
    case (call e m u mx' turn' tr out calls b e')
    with Step u32_succ [OF \<open>u < mx'\<close>] show ?thesis by (auto simp: effects_of_def is_execute_def)
  next
    case (failed e f)
    with Step inv show ?thesis
      by (cases s) (auto simp: effects_of_def is_execute_def word_le_nat_alt)
  next
    case (cancelled e)
    with Step inv show ?thesis
      by (cases s) (auto simp: effects_of_def is_execute_def word_le_nat_alt)
  qed (auto simp: effects_of_def is_execute_def word_le_nat_alt)
qed (rule assms(3))

lemma executed_rounds_bound:
  "executed_rounds s n mx \<Longrightarrow> begun_as turn mx s \<Longrightarrow> kernel_inv s \<Longrightarrow> n \<le> unat mx"
  by (cases s) (auto simp: word_le_nat_alt)

definition outstanding :: "kernel_state \<Rightarrow> rstring option" where
  "outstanding s =
     (case s of ExpectingModelCompletion e _ _ _ _ _ \<Rightarrow> Some e
      | ExpectingToolBatchCompletion e _ _ _ _ _ _ \<Rightarrow> Some e
      | _ \<Rightarrow> None)"

definition request_paired :: "kernel_effect \<Rightarrow> bool" where
  "request_paired e =
     (case e of
        RequestModel _ _ msgs _ \<Rightarrow>
          (\<exists>user rest. msgs = TmUser user # rest) \<and> pending_calls [] msgs = Some []
      | ExecuteToolBatch _ _ calls \<Rightarrow> calls \<noteq> [] \<and> distinct (map kcall_id calls))"

lemma request_paired_step:
  assumes "kernel_inv s" and "transition s i = Ok t"
  shows "\<forall>e \<in> set (effects_of t). request_paired e"
proof -
  have inv: "kernel_inv (next_state t)" using assms by (rule transition_inv)
  from assms(2) show ?thesis
  proof (cases rule: transition_Ok_cases)
    case (start turn user mx)
    then show ?thesis
      by (auto simp: effects_of_def request_paired_def)
  next
    case (call e m u mx turn tr out calls b e')
    then show ?thesis
      by (auto simp: effects_of_def request_paired_def dest: valid_calls_distinct valid_calls_nonempty)
  next
    case (results e b r mx turn tr calls rs m e')
    with inv show ?thesis by (auto simp: effects_of_def request_paired_def)
  qed (simp_all add: effects_of_def)
qed

end
