(* ===== verification/Kernel_Properties.thy ===== *)
theory Kernel_Properties
  imports Kernel_Runs
begin

text \<open>
  The properties of the turn kernel, each with a witness on a concrete turn: a user asks, the
  model calls one tool, the tool answers, the model replies.
\<close>

section \<open>A concrete turn\<close>

abbreviation demo_call :: kernel_tool_call where
  "demo_call \<equiv> \<lparr>kcall_id = lit ''c1'', kcall_name = lit ''read'', kcall_arguments = []\<rparr>"

abbreviation demo_user :: user_message where
  "demo_user \<equiv> \<lparr>um_parts = [KText (lit ''hi'')]\<rparr>"

abbreviation demo_call_output :: assistant_output where
  "demo_call_output \<equiv> \<lparr>ao_blocks = [KToolCall demo_call], ao_unsupported = False\<rparr>"

definition demo_begin :: kernel_transition where
  "demo_begin = kernel_begin (lit ''t'') demo_user 1"

definition demo_batch_state :: kernel_state where
  "demo_batch_state =
     ExpectingToolBatchCompletion (lit ''t:effect:2'') (lit ''t:tool-batch:1'') 1 1 (lit ''t'')
       [TmUser demo_user, TmAssistantToolCalls (lit ''t:tool-batch:1'') [KToolCall demo_call]]
       [demo_call]"

lemmas demo_simps = demo_begin_def model_call_ids_def tool_batch_ids_def
  effects_of_def lit_eval dec_digit trim_def is_whitespace_def

lemma demo_run_begin:
  "kernel_run (effects_of demo_begin) [demo_begin] (next_state demo_begin)"
proof -
  have "transition initial_state (BeginTurn (lit ''t'') demo_user 1) = Ok demo_begin"
    by (simp add: transition_def initial_state_def demo_begin_def)
  with kernel_run.run_step [OF kernel_run.run_start this] show ?thesis by simp
qed

definition demo_called :: kernel_transition where
  "demo_called =
     \<lparr>next_state = demo_batch_state, tr_phase = phase demo_batch_state,
      observations =
        [ObAssistantToolCallsAccepted (lit ''t:model-call:1'') (lit ''t:tool-batch:1'')
           [KToolCall demo_call] [demo_call],
         ObToolBatchRequested (lit ''t:tool-batch:1'') (lit ''t:effect:2'')],
      durability = BeforeNextEffect,
      effect = Some (ExecuteToolBatch (lit ''t:effect:2'') (lit ''t:tool-batch:1'') [demo_call])\<rparr>"

lemma demo_call_accepted:
  "transition (next_state demo_begin) (ModelCallCompleted (lit ''t:effect:1'') demo_call_output)
     = Ok demo_called"
  by (simp add: transition_def complete_model_def demo_simps demo_called_def demo_batch_state_def
      contains_tool_call_def is_tool_call_def tool_call_batch_def valid_calls_def
      List.map_filter_simps Let_def)

lemma demo_run_called:
  "kernel_run (effects_of demo_begin @ effects_of demo_called) [demo_begin, demo_called]
     demo_batch_state"
  using kernel_run.run_step [OF demo_run_begin demo_call_accepted]
  by (simp add: demo_called_def)

section \<open>Single transitions\<close>

text \<open>C19. The kernel's decision function never panics: the one \<^verbatim>\<open>expect\<close> it contains cannot
  fail. When it rejects an input, the rejection reports the phase of the very state it was given,
  for every state and every input.\<close>

theorem kernel_transition_total:
  "transition s i \<noteq> Panic \<and> (\<forall>r. transition s i = Err r \<longrightarrow> rej_phase r = phase s)"
proof (cases s)
  case (ExpectingModelCompletion e m u mx turn tr)
  have "complete_model e m u mx turn tr received out \<noteq> Panic
     \<and> (\<forall>r. complete_model e m u mx turn tr received out = Err r \<longrightarrow> rej_phase r = phase s)"
    for received out
    using ExpectingModelCompletion contains_tool_call_iff_batch [of out]
    by (auto simp: complete_model_def mismatch_def Let_def split: option.splits prod.splits)
  with ExpectingModelCompletion show ?thesis
    by (cases i)
      (auto simp: transition_def terminate_def kernel_cancel_def mismatch_def reject_def Let_def)
next
  case (ExpectingToolBatchCompletion e b r mx turn tr calls)
  then show ?thesis
    by (cases i)
      (auto simp: transition_def complete_tools_def terminate_def kernel_cancel_def mismatch_def
        reject_def Let_def split: prod.splits)
qed (cases i; auto simp: transition_def terminated_input_def reject_def)+

theorem kernel_transition_total_witness:
  "\<exists>r. transition initial_state (CancelRequested (lit ''e'')) = Err r
     \<and> rej_phase r = PvExpectingTurnStart"
proof -
  obtain r where r: "transition initial_state (CancelRequested (lit ''e'')) = Err r"
    by (simp add: transition_def initial_state_def reject_def)
  have "rej_phase r = phase initial_state"
    using kernel_transition_total [of initial_state "CancelRequested (lit ''e'')"] r by blast
  with r show ?thesis by (simp add: initial_state_def)
qed

text \<open>C20. An accepted input yields a coherent transition: the reported phase is the phase of the
  next state; an effect is requested exactly when the turn goes on, with the durability demand
  \<^verbatim>\<open>BeforeNextEffect\<close> and the effect's identifier as the next state's outstanding one; otherwise the
  turn is terminated and its facts must be durable \<^verbatim>\<open>BeforeSettlement\<close>.\<close>

theorem kernel_transition_coherent:
  assumes "transition s i = Ok t"
  shows "tr_phase t = phase (next_state t)
    \<and> (case effect t of
         None \<Rightarrow> durability t = BeforeSettlement \<and> (\<exists>oc e. next_state t = Terminated oc e)
       | Some ef \<Rightarrow> durability t = BeforeNextEffect \<and> outstanding (next_state t) = Some (eff_id ef))"
  using assms
  by (cases rule: transition_Ok_cases)
    (auto simp: outstanding_def)

theorem kernel_transition_coherent_witness:
  "outstanding (next_state demo_called) = Some (lit ''t:effect:2'')"
  using kernel_transition_coherent [OF demo_call_accepted] by (simp add: demo_called_def)

text \<open>C21. A terminated kernel accepts nothing: every input is rejected with the terminal phase,
  as already completed or as an input to a terminated kernel.\<close>

theorem kernel_terminated_absorbing:
  "\<exists>reason. transition (Terminated oc e) i = Err \<lparr>rej_phase = PvTerminated oc, rej_reason = reason\<rparr>
     \<and> (reason = EffectAlreadyCompleted e \<or> reason = KernelTerminated)"
  by (cases i) (auto simp: transition_def terminated_input_def reject_def)

section \<open>Whole turns\<close>

text \<open>C6. Every turn ends: a run accepts at most \<open>2 * max_tool_rounds + 2\<close> inputs, and when it
  has accepted that many the kernel is terminated.\<close>

theorem kernel_turn_bounded:
  assumes "kernel_run es ts s" and "ts \<noteq> []"
  shows "\<exists>turn user mx. hd ts = kernel_begin turn user mx
    \<and> length ts \<le> 2 * unat mx + 2
    \<and> (length ts = 2 * unat mx + 2 \<longrightarrow> (\<exists>oc e. s = Terminated oc e))"
proof -
  from assms obtain turn user mx where h: "hd ts = kernel_begin turn user mx"
    "length ts + turn_budget s \<le> 2 * unat mx + 2" "s \<noteq> ExpectingTurnStart"
    by (rule kernel_run_begun)
  have "turn_budget s = 0 \<Longrightarrow> \<exists>oc e. s = Terminated oc e" by (cases s) auto
  with h show ?thesis by (intro exI [of _ turn] exI [of _ user] exI [of _ mx]) auto
qed

theorem kernel_turn_bounded_witness:
  "\<exists>turn user mx. demo_begin = kernel_begin turn user mx \<and> 2 \<le> 2 * unat mx + 2"
  using kernel_turn_bounded [OF demo_run_called] by auto

text \<open>C22. Effect identifiers are never reused within a turn, so that a completion can only ever
  answer the effect it belongs to (for budgets below \<open>2 ^ 31\<close> rounds; the identifiers are computed
  in 32 bits).\<close>

theorem kernel_effect_ids_fresh:
  assumes "kernel_run es ts s" and "ts \<noteq> []" and "hd ts = kernel_begin turn user mx"
    and "unat mx < 2 ^ 31"
  shows "distinct (map eff_id es)"
  using run_effects_ok_run [OF assms] run_effects_ok_distinct by blast

theorem kernel_effect_ids_fresh_witness:
  "distinct (map eff_id (effects_of demo_begin @ effects_of demo_called))"
  by (rule kernel_effect_ids_fresh [OF demo_run_called, of "lit ''t''" demo_user 1])
    (simp_all add: demo_begin_def)

text \<open>C23. The tool budget is respected: a turn executes at most \<open>max_tool_rounds\<close> tool
  batches.\<close>

theorem kernel_tool_budget:
  assumes "kernel_run es ts s" and "ts \<noteq> []" and "hd ts = kernel_begin turn user mx"
  shows "length (filter is_execute es) \<le> unat mx"
  using executed_rounds_run [OF assms] executed_rounds_bound kernel_run_inv [OF assms(1)] by blast

theorem kernel_tool_budget_witness:
  "length (filter is_execute (effects_of demo_begin @ effects_of demo_called)) \<le> unat (1 :: u32)"
  by (rule kernel_tool_budget [OF demo_run_called, of "lit ''t''" demo_user 1])
    (simp_all add: demo_begin_def)

text \<open>C12. Every model request of a turn carries a well-formed transcript: it starts with the
  user message, and each batch of tool calls is followed at once by exactly its results, in call
  order. Every tool batch handed out for execution is nonempty with distinct call identifiers.\<close>

theorem kernel_requests_paired:
  assumes "kernel_run es ts s"
  shows "list_all request_paired es"
  using assms
proof (induction rule: kernel_run.induct)
  case (run_step es ts s i t)
  then show ?case
    using request_paired_step [OF kernel_run_inv] by (auto simp: list_all_iff)
qed simp

theorem kernel_requests_paired_witness:
  "list_all request_paired (effects_of demo_begin @ effects_of demo_called)"
  by (rule kernel_requests_paired [OF demo_run_called])

end
