(* ===== verification/Session_Entry.thy ===== *)
theory Session_Entry
  imports Philo_Prelude
begin

text \<open>
  The durable vocabulary of a session (\<^verbatim>\<open>philo-session/src/entry.rs\<close>, \<^verbatim>\<open>tool_entry.rs\<close>,
  \<^verbatim>\<open>usage.rs\<close>, \<^verbatim>\<open>generation_choice.rs\<close>, \<^verbatim>\<open>error.rs\<close> and \<^verbatim>\<open>view.rs\<close>): revisions, entry payloads,
  transactions, commits, errors and the model-visible view. Record fields keep the source's names
  with a prefix per type.
\<close>

section \<open>Revisions\<close>

datatype session_revision = SessionRevision (revision_get: u64)

definition revision_zero :: session_revision where
  "revision_zero = SessionRevision 0"

definition revision_next :: "session_revision \<Rightarrow> session_revision" where
  "revision_next r = SessionRevision (revision_get r + 1)"

text \<open>The derived order of \<^verbatim>\<open>SessionRevision\<close>.\<close>

instantiation session_revision :: linorder
begin

definition less_eq_session_revision :: "session_revision \<Rightarrow> session_revision \<Rightarrow> bool" where
  "r \<le> r' \<longleftrightarrow> revision_get r \<le> revision_get r'"

definition less_session_revision :: "session_revision \<Rightarrow> session_revision \<Rightarrow> bool" where
  "(r :: session_revision) < r' \<longleftrightarrow> revision_get r < revision_get r'"

instance
  by standard
    (auto simp: less_eq_session_revision_def less_session_revision_def session_revision.expand)

end

lemma revision_next_greater:
  assumes "revision_get r \<noteq> - 1"
  shows "r < revision_next r"
proof -
  have "1 + revision_get r \<noteq> 0" using assms by (metis add.commute add_eq_0_iff)
  then have "unat (1 + revision_get r) = Suc (unat (revision_get r))" by (rule unatSuc)
  then show ?thesis
    by (simp add: less_session_revision_def revision_next_def word_less_nat_alt add.commute)
qed

lemma revision_next_neq: "revision_next r \<noteq> r"
  by (cases r) (simp add: revision_next_def)

section \<open>Entry payloads\<close>

datatype cancel_reason = ReasonUser | ReasonTimeout | ReasonAbandoned

datatype turn_outcome = TurnSucceeded | TurnFailed | TurnCancelled cancel_reason

datatype operation_outcome = OpSucceeded | OpFailed | OpCancelled cancel_reason

datatype turn_failure_kind =
  FkModelCall | FkInvalidModelOutput | FkPersistence | FkRuntimeDriver | FkToolExecution

record turn_failure =
  tf_kind :: turn_failure_kind
  tf_message :: rstring

datatype session_user_part = SText rstring | SImage rstring "u8 list"

definition text_parts :: "rstring \<Rightarrow> session_user_part list" where
  "text_parts t = [SText t]"

record session_tool_call =
  scall_id :: rstring
  scall_name :: rstring
  scall_arguments :: rstring

datatype tool_result_outcome =
    SSuccess rstring
  | SError rstring rstring
  | SCancelled
  | SInterrupted

record session_tool_result =
  sresult_call_id :: rstring
  sresult_outcome :: tool_result_outcome

definition session_result_success :: "rstring \<Rightarrow> rstring \<Rightarrow> session_tool_result" where
  "session_result_success call_id content =
     \<lparr>sresult_call_id = call_id, sresult_outcome = SSuccess content\<rparr>"

definition session_result_error :: "rstring \<Rightarrow> rstring \<Rightarrow> rstring \<Rightarrow> session_tool_result" where
  "session_result_error call_id code message =
     \<lparr>sresult_call_id = call_id, sresult_outcome = SError code message\<rparr>"

definition session_result_cancelled :: "rstring \<Rightarrow> session_tool_result" where
  "session_result_cancelled call_id = \<lparr>sresult_call_id = call_id, sresult_outcome = SCancelled\<rparr>"

definition session_result_interrupted :: "rstring \<Rightarrow> session_tool_result" where
  "session_result_interrupted call_id = \<lparr>sresult_call_id = call_id, sresult_outcome = SInterrupted\<rparr>"

datatype session_assistant_block = STextBlock rstring | SToolCall session_tool_call

record session_token_usage =
  su_input_tokens :: "u64 option"
  su_output_tokens :: "u64 option"
  su_cache_read_tokens :: "u64 option"
  su_cache_write_tokens :: "u64 option"
  su_reasoning_tokens :: "u64 option"

text \<open>\<^verbatim>\<open>u64::checked_add\<close>.\<close>

definition checked_add :: "u64 \<Rightarrow> u64 \<Rightarrow> u64 option" where
  "checked_add a b = (if unat a + unat b < 2 ^ 64 then Some (a + b) else None)"

definition total_tokens :: "session_token_usage \<Rightarrow> u64 option" where
  "total_tokens u =
     Option.bind (su_input_tokens u) (\<lambda>i.
       Option.bind (su_output_tokens u) (\<lambda>out. checked_add i out))"

record session_generation_choice =
  gc_provider :: "rstring option"
  gc_model_id :: rstring
  gc_reasoning_effort :: "rstring option"

datatype session_entry_kind =
    OperationStarted rstring
  | TurnStarted rstring rstring
  | UserMessage rstring "session_user_part list"
  | AssistantToolCallBatch rstring rstring rstring "session_assistant_block list"
  | ToolResult rstring rstring session_tool_result
  | AssistantMessage rstring "session_assistant_block list"
  | TurnFailureEntry rstring turn_failure
  | TurnTerminated rstring turn_outcome
  | OperationSettled rstring operation_outcome "session_token_usage option"
      "session_generation_choice option"
  | Compaction rstring rstring
  | TitleSet rstring

section \<open>Transactions and commits\<close>

datatype new_entry_parent = CurrentLeaf | TransactionEntry nat

record new_session_entry =
  ne_parent :: new_entry_parent
  ne_kind :: session_entry_kind

definition at_current_leaf :: "session_entry_kind \<Rightarrow> new_session_entry" where
  "at_current_leaf kind = \<lparr>ne_parent = CurrentLeaf, ne_kind = kind\<rparr>"

definition after :: "nat \<Rightarrow> session_entry_kind \<Rightarrow> new_session_entry" where
  "after index kind = \<lparr>ne_parent = TransactionEntry index, ne_kind = kind\<rparr>"

record session_transaction =
  tx_session_id :: rstring
  tx_expected_revision :: session_revision
  tx_entries :: "new_session_entry list"
  tx_current_leaf_index :: nat

definition linear_entry :: "nat \<times> session_entry_kind \<Rightarrow> new_session_entry" where
  "linear_entry p = (case p of (index, kind) \<Rightarrow>
     if index = 0 then at_current_leaf kind else after (index - 1) kind)"

definition transaction_linear ::
    "rstring \<Rightarrow> session_revision \<Rightarrow> session_entry_kind list \<Rightarrow> session_transaction" where
  "transaction_linear session_id expected_revision kinds =
     (let entries = map linear_entry (enumerate 0 kinds)
      in \<lparr>tx_session_id = session_id,
          tx_expected_revision = expected_revision,
          tx_entries = entries,
          tx_current_leaf_index = length entries - 1\<rparr>)"

record session_entry =
  entry_id :: rstring
  entry_parent :: "rstring option"
  entry_kind :: session_entry_kind

definition from_persisted ::
    "rstring \<Rightarrow> rstring option \<Rightarrow> session_entry_kind \<Rightarrow> session_entry" where
  "from_persisted i p k = \<lparr>entry_id = i, entry_parent = p, entry_kind = k\<rparr>"

record session_commit =
  commit_revision :: session_revision
  commit_entries :: "session_entry list"
  commit_current_leaf :: rstring

section \<open>Errors\<close>

datatype session_validation_error =
    EmptyTransaction
  | InvalidParent nat
  | InvalidCurrentLeaf
  | DuplicateOperation rstring
  | DuplicateTurn rstring
  | InvalidOperationReference rstring
  | InvalidTurnReference rstring
  | DuplicateUserMessage rstring
  | InvalidUserMessage rstring
  | DuplicateAssistantMessage rstring
  | InvalidTurnOutcome rstring
  | InvalidOperationOutcome rstring
  | InvalidToolBatch rstring
  | InvalidToolResult rstring
  | InvalidCompactionSummary
  | InvalidCompactionBoundary rstring
  | NonMonotonicCompactionBoundary rstring rstring
  | InvalidCompactionTransaction
  | InvalidTitle

datatype session_error =
    RevisionConflict session_revision session_revision
  | Validation session_validation_error
  | StoreUnavailable rstring
  | StoreBusy rstring

definition validation :: "session_validation_error \<Rightarrow> ('t, session_error) rres" where
  "validation e = Err (Validation e)"

lemma validation_neq [simp]: "validation e \<noteq> Ok x" "validation e \<noteq> Panic"
  by (simp_all add: validation_def)

section \<open>The model-visible view\<close>

datatype context_message =
    CmSummary rstring
  | CmUser "session_user_part list"
  | CmAssistant "session_assistant_block list"
  | CmAssistantToolCalls rstring "session_assistant_block list"
  | CmToolResult rstring tool_result_outcome

record unfilled_batch =
  ub_tool_batch_id :: rstring
  ub_unfilled_call_ids :: "rstring list"

record open_turn_info =
  ot_operation_id :: rstring
  ot_turn_id :: rstring
  ot_unfilled_batch :: "unfilled_batch option"

record session_context_view =
  view_session_id :: rstring
  view_revision :: session_revision
  view_current_leaf :: "rstring option"
  view_title :: "rstring option"
  view_messages :: "context_message list"
  view_open_turns :: "open_turn_info list"
  view_settled_turns :: "(rstring \<times> rstring) list"
  view_settled_turn_boundaries :: "rstring list"
  view_latest_compaction_boundary :: "rstring option"
  view_latest_usage :: "session_token_usage option"
  view_latest_generation :: "session_generation_choice option"

record session_summary =
  sum_session_id :: rstring
  sum_title :: "rstring option"
  sum_updated_at :: "u64 option"

section \<open>Lemmas\<close>

lemma transaction_linear_simps [simp]:
  "tx_session_id (transaction_linear s r ks) = s"
  "tx_expected_revision (transaction_linear s r ks) = r"
  "tx_entries (transaction_linear s r ks) = map linear_entry (enumerate 0 ks)"
  "tx_current_leaf_index (transaction_linear s r ks) = length ks - 1"
  by (simp_all add: transaction_linear_def Let_def)

lemma total_tokens_exact:
  "total_tokens u = Some t \<longleftrightarrow>
    (\<exists>i out. su_input_tokens u = Some i \<and> su_output_tokens u = Some out \<and>
       unat t = unat i + unat out)"
proof -
  have "checked_add a b = Some c \<longleftrightarrow> unat c = unat a + unat b" for a b c :: u64
  proof
    assume "checked_add a b = Some c"
    then show "unat c = unat a + unat b"
      by (auto simp: checked_add_def unat_word_ariths split: if_splits)
  next
    assume eq: "unat c = unat a + unat b"
    have "unat c < 2 ^ 64" using unsigned_less [of c] by simp
    with eq have lt: "unat a + unat b < 2 ^ 64" by simp
    then have "unat (a + b) = unat c" using eq by (simp add: unat_word_ariths)
    then have "a + b = c" by (simp add: word_unat_eq_iff)
    with lt show "checked_add a b = Some c" by (simp add: checked_add_def)
  qed
  then show ?thesis
    by (auto simp: total_tokens_def bind_eq_Some_conv)
qed

end
