(* ===== verification/Session_Lifecycle.thy ===== *)
theory Session_Lifecycle
  imports Session_Entry
begin

text \<open>
  The lifecycle projection of a session (\<^verbatim>\<open>philo-session/src/projection/lifecycle.rs\<close>): which
  operations, turns and tool batches exist, which entries a transaction may append, and what the
  runtime's seal protocol sees of unfinished turns. The match of \<^verbatim>\<open>LifecycleProjection::accept\<close>
  is split into one definition per arm.
\<close>

section \<open>State\<close>

record operation_record =
  op_turn_id :: "rstring option"
  op_outcome :: "operation_outcome option"

record tool_batch_record =
  tb_batch_id :: rstring
  tb_call_ids :: "rstring list"
  tb_results :: "rstring list"

record turn_record =
  tn_operation_id :: rstring
  tn_has_user_message :: bool
  tn_has_assistant_message :: bool
  tn_failure :: "turn_failure option"
  tn_outcome :: "turn_outcome option"
  tn_tool_batches :: "tool_batch_record list"

record lifecycle =
  lc_operations :: "(rstring, operation_record) hashmap"
  lc_turns :: "(rstring, turn_record) hashmap"
  lc_open_turn_ids :: "rstring list"

definition lifecycle_empty :: lifecycle where
  "lifecycle_empty = \<lparr>lc_operations = [], lc_turns = [], lc_open_turn_ids = []\<rparr>"

definition batch_is_complete :: "tool_batch_record \<Rightarrow> bool" where
  "batch_is_complete b \<longleftrightarrow> length (tb_results b) = length (tb_call_ids b)"

definition tool_rounds_complete :: "turn_record \<Rightarrow> bool" where
  "tool_rounds_complete t \<longleftrightarrow>
     (if tn_tool_batches t = [] then True else batch_is_complete (last (tn_tool_batches t)))"

section \<open>Views\<close>

definition settled_turns :: "lifecycle \<Rightarrow> (rstring \<times> rstring) list" where
  "settled_turns lc =
     sort_key fst
       (List.map_filter
         (\<lambda>(operation_id, rec).
            case op_outcome rec of
              None \<Rightarrow> None
            | Some _ \<Rightarrow> map_option (\<lambda>turn_id. (operation_id, turn_id)) (op_turn_id rec))
         (lc_operations lc))"

definition unfilled_batch_of :: "turn_record \<Rightarrow> (unfilled_batch option, session_error) rres" where
  "unfilled_batch_of t =
     (if tn_tool_batches t = [] then Ok None
      else
        (let batch = last (tn_tool_batches t) in
         if batch_is_complete batch then Ok None
         else rbind (slice_from (tb_call_ids batch) (length (tb_results batch)))
                (\<lambda>ids. Ok (Some \<lparr>ub_tool_batch_id = tb_batch_id batch,
                                  ub_unfilled_call_ids = ids\<rparr>))))"

definition open_turn_info_of :: "lifecycle \<Rightarrow> rstring \<Rightarrow> (open_turn_info, session_error) rres" where
  "open_turn_info_of lc turn_id =
     (case hm_get (lc_turns lc) turn_id of
        None \<Rightarrow> Panic
      | Some t \<Rightarrow>
          rbind (unfilled_batch_of t)
            (\<lambda>ub. Ok \<lparr>ot_operation_id = tn_operation_id t,
                       ot_turn_id = turn_id,
                       ot_unfilled_batch = ub\<rparr>))"

definition open_turns :: "lifecycle \<Rightarrow> (open_turn_info list, session_error) rres" where
  "open_turns lc = rmap (open_turn_info_of lc) (lc_open_turn_ids lc)"

section \<open>References\<close>

definition active_operation :: "lifecycle \<Rightarrow> rstring \<Rightarrow> (operation_record, session_error) rres" where
  "active_operation lc operation_id =
     (case hm_get (lc_operations lc) operation_id of
        Some operation \<Rightarrow>
          if op_outcome operation = None then Ok operation
          else validation (InvalidOperationReference operation_id)
      | None \<Rightarrow> validation (InvalidOperationReference operation_id))"

definition active_turn_mut :: "lifecycle \<Rightarrow> rstring \<Rightarrow> (turn_record, session_error) rres" where
  "active_turn_mut lc turn_id =
     (case hm_get (lc_turns lc) turn_id of
        Some t \<Rightarrow>
          if tn_outcome t = None then Ok t else validation (InvalidTurnReference turn_id)
      | None \<Rightarrow> validation (InvalidTurnReference turn_id))"

text \<open>Writing a turn record back through the mutable reference.\<close>

definition put_turn :: "rstring \<Rightarrow> turn_record \<Rightarrow> lifecycle \<Rightarrow> lifecycle" where
  "put_turn turn_id t lc = lc\<lparr>lc_turns := hm_insert turn_id t (lc_turns lc)\<rparr>"

section \<open>Accepting one entry\<close>

definition accept_operation_started :: "rstring \<Rightarrow> lifecycle \<Rightarrow> (lifecycle, session_error) rres" where
  "accept_operation_started operation_id lc =
     (if hm_get (lc_operations lc) operation_id \<noteq> None then
        validation (DuplicateOperation operation_id)
      else Ok (lc\<lparr>lc_operations :=
                 hm_insert operation_id \<lparr>op_turn_id = None, op_outcome = None\<rparr> (lc_operations lc)\<rparr>))"

definition accept_turn_started ::
    "rstring \<Rightarrow> rstring \<Rightarrow> lifecycle \<Rightarrow> (lifecycle, session_error) rres" where
  "accept_turn_started operation_id turn_id lc =
     rbind (active_operation lc operation_id) (\<lambda>operation.
       if op_turn_id operation \<noteq> None then validation (InvalidOperationReference operation_id)
       else if hm_get (lc_turns lc) turn_id \<noteq> None then validation (DuplicateTurn turn_id)
       else rbind (expect (hm_get (lc_operations lc) operation_id)) (\<lambda>target.
            Ok (lc\<lparr>lc_operations :=
                     hm_insert operation_id (target\<lparr>op_turn_id := Some turn_id\<rparr>)
                       (lc_operations lc),
                   lc_turns :=
                     hm_insert turn_id
                       \<lparr>tn_operation_id = operation_id,
                        tn_has_user_message = False,
                        tn_has_assistant_message = False,
                        tn_failure = None,
                        tn_outcome = None,
                        tn_tool_batches = []\<rparr>
                       (lc_turns lc),
                   lc_open_turn_ids := lc_open_turn_ids lc @ [turn_id]\<rparr>)))"

definition user_part_well_formed :: "session_user_part \<Rightarrow> bool" where
  "user_part_well_formed p =
     (case p of SText t \<Rightarrow> t \<noteq> [] | SImage media_type _ \<Rightarrow> media_type \<noteq> [])"

definition accept_user_message ::
    "rstring \<Rightarrow> session_user_part list \<Rightarrow> lifecycle \<Rightarrow> (lifecycle, session_error) rres" where
  "accept_user_message turn_id parts lc =
     (if \<not> (parts \<noteq> [] \<and> list_all user_part_well_formed parts) then
        validation (InvalidUserMessage turn_id)
      else rbind (active_turn_mut lc turn_id) (\<lambda>t.
        if tn_has_user_message t then validation (DuplicateUserMessage turn_id)
        else Ok (put_turn turn_id (t\<lparr>tn_has_user_message := True\<rparr>) lc)))"

definition session_block_call :: "session_assistant_block \<Rightarrow> session_tool_call option" where
  "session_block_call b = (case b of SToolCall c \<Rightarrow> Some c | STextBlock _ \<Rightarrow> None)"

definition session_block_calls :: "session_assistant_block list \<Rightarrow> session_tool_call list" where
  "session_block_calls blocks = List.map_filter session_block_call blocks"

definition block_text_nonempty :: "session_assistant_block \<Rightarrow> bool" where
  "block_text_nonempty b = (case b of STextBlock t \<Rightarrow> t \<noteq> [] | SToolCall _ \<Rightarrow> True)"

definition accept_tool_call_batch ::
    "rstring \<Rightarrow> rstring \<Rightarrow> session_assistant_block list \<Rightarrow> lifecycle
      \<Rightarrow> (lifecycle, session_error) rres" where
  "accept_tool_call_batch turn_id tool_batch_id blocks lc =
     rbind (active_turn_mut lc turn_id) (\<lambda>t.
       let calls = session_block_calls blocks;
           unique = (card (set (map scall_id calls)) = length calls);
           texts_nonempty = list_all block_text_nonempty blocks;
           batch_id_unused = list_all (\<lambda>b. tb_batch_id b \<noteq> tool_batch_id) (tn_tool_batches t)
       in if \<not> tn_has_user_message t
             \<or> tn_has_assistant_message t
             \<or> tn_failure t \<noteq> None
             \<or> \<not> tool_rounds_complete t
             \<or> \<not> batch_id_unused
             \<or> calls = []
             \<or> \<not> unique
             \<or> \<not> texts_nonempty
          then validation (InvalidToolBatch turn_id)
          else Ok (put_turn turn_id
                 (t\<lparr>tn_tool_batches :=
                      tn_tool_batches t @
                        [\<lparr>tb_batch_id = tool_batch_id,
                          tb_call_ids = map scall_id calls,
                          tb_results = []\<rparr>]\<rparr>) lc))"

text \<open>\<^verbatim>\<open>slice::get\<close>.\<close>

definition nth_opt :: "'a list \<Rightarrow> nat \<Rightarrow> 'a option" where
  "nth_opt xs i = (if i < length xs then Some (xs ! i) else None)"

definition accept_tool_result ::
    "rstring \<Rightarrow> rstring \<Rightarrow> session_tool_result \<Rightarrow> lifecycle \<Rightarrow> (lifecycle, session_error) rres" where
  "accept_tool_result turn_id tool_batch_id result lc =
     rbind (active_turn_mut lc turn_id) (\<lambda>t.
       if tn_tool_batches t = [] then validation (InvalidToolResult turn_id)
       else
         (let batch = last (tn_tool_batches t);
              index = length (tb_results batch)
          in if tb_batch_id batch \<noteq> tool_batch_id
                \<or> nth_opt (tb_call_ids batch) index \<noteq> Some (sresult_call_id result)
                \<or> sresult_call_id result \<in> set (tb_results batch)
             then validation (InvalidToolResult turn_id)
             else Ok (put_turn turn_id
                    (t\<lparr>tn_tool_batches :=
                         butlast (tn_tool_batches t) @
                           [batch\<lparr>tb_results := tb_results batch @ [sresult_call_id result]\<rparr>]\<rparr>)
                    lc)))"

definition text_block_only :: "session_assistant_block \<Rightarrow> bool" where
  "text_block_only b = (case b of STextBlock t \<Rightarrow> t \<noteq> [] | SToolCall _ \<Rightarrow> False)"

definition accept_assistant_message ::
    "rstring \<Rightarrow> session_assistant_block list \<Rightarrow> lifecycle \<Rightarrow> (lifecycle, session_error) rres" where
  "accept_assistant_message turn_id blocks lc =
     (if \<not> list_all text_block_only blocks then validation (InvalidTurnReference turn_id)
      else rbind (active_turn_mut lc turn_id) (\<lambda>t.
        if \<not> tn_has_user_message t \<or> tn_failure t \<noteq> None \<or> \<not> tool_rounds_complete t then
          validation (InvalidTurnReference turn_id)
        else if tn_has_assistant_message t then validation (DuplicateAssistantMessage turn_id)
        else Ok (put_turn turn_id (t\<lparr>tn_has_assistant_message := True\<rparr>) lc)))"

definition accept_turn_failure ::
    "rstring \<Rightarrow> turn_failure \<Rightarrow> lifecycle \<Rightarrow> (lifecycle, session_error) rres" where
  "accept_turn_failure turn_id failure lc =
     rbind (active_turn_mut lc turn_id) (\<lambda>t.
       if \<not> tn_has_user_message t \<or> tn_has_assistant_message t \<or> tn_failure t \<noteq> None then
         validation (InvalidTurnReference turn_id)
       else Ok (put_turn turn_id (t\<lparr>tn_failure := Some failure\<rparr>) lc))"

definition turn_outcome_valid :: "turn_record \<Rightarrow> turn_outcome \<Rightarrow> bool" where
  "turn_outcome_valid t outcome =
     (case outcome of
        TurnSucceeded \<Rightarrow> tn_has_assistant_message t \<and> tn_failure t = None
      | TurnFailed \<Rightarrow> tn_failure t \<noteq> None \<and> \<not> tn_has_assistant_message t
      | TurnCancelled _ \<Rightarrow>
          \<not> tn_has_assistant_message t \<and> tn_failure t = None \<and> tool_rounds_complete t)"

definition accept_turn_terminated ::
    "rstring \<Rightarrow> turn_outcome \<Rightarrow> lifecycle \<Rightarrow> (lifecycle, session_error) rres" where
  "accept_turn_terminated turn_id outcome lc =
     rbind (active_turn_mut lc turn_id) (\<lambda>t.
       if \<not> turn_outcome_valid t outcome then validation (InvalidTurnOutcome turn_id)
       else
         (let lc' = put_turn turn_id (t\<lparr>tn_outcome := Some outcome\<rparr>) lc
          in Ok (lc'\<lparr>lc_open_turn_ids := filter (\<lambda>x. x \<noteq> turn_id) (lc_open_turn_ids lc')\<rparr>)))"

definition expected_turn_outcome :: "operation_outcome \<Rightarrow> turn_outcome" where
  "expected_turn_outcome outcome =
     (case outcome of
        OpSucceeded \<Rightarrow> TurnSucceeded
      | OpFailed \<Rightarrow> TurnFailed
      | OpCancelled reason \<Rightarrow> TurnCancelled reason)"

definition accept_operation_settled ::
    "rstring \<Rightarrow> operation_outcome \<Rightarrow> lifecycle \<Rightarrow> (lifecycle, session_error) rres" where
  "accept_operation_settled operation_id outcome lc =
     rbind (active_operation lc operation_id) (\<lambda>operation.
       case op_turn_id operation of
         None \<Rightarrow> validation (InvalidOperationOutcome operation_id)
       | Some turn_id \<Rightarrow>
           (let valid =
              (case hm_get (lc_turns lc) turn_id of
                 None \<Rightarrow> False
               | Some t \<Rightarrow> tn_operation_id t = operation_id
                   \<and> tn_outcome t = Some (expected_turn_outcome outcome))
            in if \<not> valid then validation (InvalidOperationOutcome operation_id)
               else rbind (expect (hm_get (lc_operations lc) operation_id)) (\<lambda>target.
                 Ok (lc\<lparr>lc_operations :=
                          hm_insert operation_id (target\<lparr>op_outcome := Some outcome\<rparr>)
                            (lc_operations lc)\<rparr>))))"

definition lifecycle_accept ::
    "session_entry_kind \<Rightarrow> lifecycle \<Rightarrow> (lifecycle, session_error) rres" where
  "lifecycle_accept kind lc =
     (case kind of
        OperationStarted operation_id \<Rightarrow> accept_operation_started operation_id lc
      | TurnStarted operation_id turn_id \<Rightarrow> accept_turn_started operation_id turn_id lc
      | UserMessage turn_id parts \<Rightarrow> accept_user_message turn_id parts lc
      | AssistantToolCallBatch turn_id _ tool_batch_id blocks \<Rightarrow>
          accept_tool_call_batch turn_id tool_batch_id blocks lc
      | ToolResult turn_id tool_batch_id result \<Rightarrow>
          accept_tool_result turn_id tool_batch_id result lc
      | AssistantMessage turn_id blocks \<Rightarrow> accept_assistant_message turn_id blocks lc
      | TurnFailureEntry turn_id failure \<Rightarrow> accept_turn_failure turn_id failure lc
      | TurnTerminated turn_id outcome \<Rightarrow> accept_turn_terminated turn_id outcome lc
      | OperationSettled operation_id outcome _ _ \<Rightarrow>
          accept_operation_settled operation_id outcome lc
      | Compaction _ _ \<Rightarrow> Ok lc
      | TitleSet _ \<Rightarrow> Ok lc)"

section \<open>Validating a whole transaction\<close>

definition result_entry ::
    "session_entry_kind \<Rightarrow> (rstring \<times> rstring \<times> session_tool_result) option" where
  "result_entry kind =
     (case kind of ToolResult turn_id batch_id result \<Rightarrow> Some (turn_id, batch_id, result)
      | _ \<Rightarrow> None)"

definition result_entries ::
    "session_entry_kind list \<Rightarrow> (rstring \<times> rstring \<times> session_tool_result) list" where
  "result_entries kinds = List.map_filter result_entry kinds"

definition incomplete_assistant_turn :: "lifecycle \<Rightarrow> session_entry_kind list \<Rightarrow> rstring option" where
  "incomplete_assistant_turn lc kinds =
     find_map (\<lambda>kind.
       case kind of
         AssistantMessage turn_id _ \<Rightarrow>
           (case hm_get (lc_turns lc) turn_id of
              None \<Rightarrow> None
            | Some t \<Rightarrow> if \<not> tool_rounds_complete t then Some turn_id else None)
       | _ \<Rightarrow> None) kinds"

definition assistant_or_batch :: "session_entry_kind \<Rightarrow> bool" where
  "assistant_or_batch kind =
     (case kind of AssistantMessage _ _ \<Rightarrow> True | AssistantToolCallBatch _ _ _ _ \<Rightarrow> True
      | _ \<Rightarrow> False)"

definition cancel_reason_of :: "rstring \<Rightarrow> session_entry_kind list \<Rightarrow> cancel_reason option" where
  "cancel_reason_of turn_id kinds =
     find_map (\<lambda>kind.
       case kind of
         TurnTerminated terminated (TurnCancelled reason) \<Rightarrow>
           if terminated = turn_id then Some reason else None
       | _ \<Rightarrow> None) kinds"

definition valid_marks ::
    "cancel_reason option \<Rightarrow> tool_result_outcome list \<Rightarrow> (bool, session_error) rres" where
  "valid_marks reason marks =
     (let first_cancelled = position (\<lambda>m. m = SCancelled) marks;
          has_interrupted = list_ex (\<lambda>m. m = SInterrupted) marks
      in case reason of
           Some ReasonAbandoned \<Rightarrow> Ok (list_all (\<lambda>m. m = SInterrupted) marks)
         | Some _ \<Rightarrow>
             (case first_cancelled of
                None \<Rightarrow> Ok True
              | Some first \<Rightarrow>
                  rbind (slice_from marks first) (\<lambda>tail. Ok (list_all (\<lambda>m. m = SCancelled) tail)))
         | None \<Rightarrow> Ok (\<not> has_interrupted \<and> first_cancelled = None))"

text \<open>The comparison of the result entries with the calls they answer: \<^verbatim>\<open>Iterator::all\<close> stops at the
  first entry that differs, and each entry indexes the expected calls.\<close>

fun results_match ::
    "rstring \<Rightarrow> rstring \<Rightarrow> rstring list \<Rightarrow> nat \<Rightarrow> (rstring \<times> rstring \<times> session_tool_result) list
      \<Rightarrow> (bool, session_error) rres" where
  "results_match turn_id batch_id expected index [] = Ok True"
| "results_match turn_id batch_id expected index ((entry_turn, entry_batch, result) # entries) =
     (if entry_turn \<noteq> turn_id \<or> entry_batch \<noteq> batch_id then Ok False
      else rbind (index_at expected index) (\<lambda>call_id.
        if sresult_call_id result \<noteq> call_id then Ok False
        else results_match turn_id batch_id expected (Suc index) entries))"

definition results_exact ::
    "rstring \<Rightarrow> rstring \<Rightarrow> rstring list \<Rightarrow> (rstring \<times> rstring \<times> session_tool_result) list
      \<Rightarrow> (bool, session_error) rres" where
  "results_exact turn_id batch_id expected entries =
     (if length entries \<noteq> length expected then Ok False
      else results_match turn_id batch_id expected 0 entries)"

definition validate_transaction ::
    "lifecycle \<Rightarrow> session_entry_kind list \<Rightarrow> (unit, session_error) rres" where
  "validate_transaction lc kinds =
     (case result_entries kinds of
        [] \<Rightarrow>
          (case incomplete_assistant_turn lc kinds of
             Some turn_id \<Rightarrow> validation (InvalidTurnOutcome turn_id)
           | None \<Rightarrow> Ok ())
      | (turn_id, rest0) # rest \<Rightarrow>
          (let entries = (turn_id, rest0) # rest in
           if list_ex assistant_or_batch kinds then validation (InvalidTurnOutcome turn_id)
           else case hm_get (lc_turns lc) turn_id of
               None \<Rightarrow> validation (InvalidToolResult turn_id)
             | Some t \<Rightarrow>
                 if tn_tool_batches t = [] then validation (InvalidToolResult turn_id)
                 else
                   (let batch = last (tn_tool_batches t) in
                    rbind (slice_from (tb_call_ids batch) (length (tb_results batch)))
                      (\<lambda>expected.
                    rbind (results_exact turn_id (tb_batch_id batch) expected entries) (\<lambda>exact.
                         if \<not> exact then validation (InvalidToolResult turn_id)
                         else
                    rbind (valid_marks (cancel_reason_of turn_id kinds)
                             (map (\<lambda>(_, _, r). sresult_outcome r) entries)) (\<lambda>valid.
                         if \<not> valid then validation (InvalidToolResult turn_id)
                         else Ok ()))))))"

section \<open>The expects, indices and slices above\<close>

text \<open>What each of them rests on: an active operation is in the map, the index of a result entry is
  below the number of expected calls once the lengths agree, and the first cancelled mark is one of
  the marks. The equations without the panicking branches are what the proofs use.\<close>

definition results_in_order ::
    "rstring \<Rightarrow> rstring \<Rightarrow> rstring list \<Rightarrow> (rstring \<times> rstring \<times> session_tool_result) list \<Rightarrow> bool" where
  "results_in_order turn_id batch_id expected entries \<longleftrightarrow>
     length entries = length expected
     \<and> list_all (\<lambda>(index, entry_turn, entry_batch, result).
          entry_turn = turn_id \<and> entry_batch = batch_id
          \<and> sresult_call_id result = expected ! index) (enumerate 0 entries)"

lemma results_match_Ok:
  "index + length entries \<le> length expected \<Longrightarrow>
   results_match turn_id batch_id expected index entries =
     Ok (list_all (\<lambda>(index, entry_turn, entry_batch, result).
          entry_turn = turn_id \<and> entry_batch = batch_id
          \<and> sresult_call_id result = expected ! index) (enumerate index entries))"
  by (induction entries arbitrary: index) auto

lemma results_exact_Ok [simp]:
  "results_exact turn_id batch_id expected entries =
     Ok (results_in_order turn_id batch_id expected entries)"
  by (simp add: results_exact_def results_in_order_def results_match_Ok)

definition marks_allowed :: "cancel_reason option \<Rightarrow> tool_result_outcome list \<Rightarrow> bool" where
  "marks_allowed reason marks =
     (case reason of
        Some ReasonAbandoned \<Rightarrow> list_all (\<lambda>m. m = SInterrupted) marks
      | Some _ \<Rightarrow>
          (case position (\<lambda>m. m = SCancelled) marks of
             None \<Rightarrow> True
           | Some first \<Rightarrow> list_all (\<lambda>m. m = SCancelled) (drop first marks))
      | None \<Rightarrow> \<not> list_ex (\<lambda>m. m = SInterrupted) marks \<and> position (\<lambda>m. m = SCancelled) marks = None)"

lemma valid_marks_Ok [simp]: "valid_marks reason marks = Ok (marks_allowed reason marks)"
  using position_nth(1) [of "\<lambda>m. m = SCancelled" marks]
  by (auto simp: valid_marks_def marks_allowed_def split: option.split cancel_reason.split)

lemma validate_transaction_eq:
  "validate_transaction lc kinds =
     (case result_entries kinds of
        [] \<Rightarrow>
          (case incomplete_assistant_turn lc kinds of
             Some turn_id \<Rightarrow> validation (InvalidTurnOutcome turn_id)
           | None \<Rightarrow> Ok ())
      | (turn_id, rest0) # rest \<Rightarrow>
          (let entries = (turn_id, rest0) # rest in
           if list_ex assistant_or_batch kinds then validation (InvalidTurnOutcome turn_id)
           else case hm_get (lc_turns lc) turn_id of
               None \<Rightarrow> validation (InvalidToolResult turn_id)
             | Some t \<Rightarrow>
                 if tn_tool_batches t = [] then validation (InvalidToolResult turn_id)
                 else
                   (let batch = last (tn_tool_batches t) in
                    rbind (slice_from (tb_call_ids batch) (length (tb_results batch)))
                      (\<lambda>expected.
                         if \<not> results_in_order turn_id (tb_batch_id batch) expected entries then
                           validation (InvalidToolResult turn_id)
                         else if \<not> marks_allowed (cancel_reason_of turn_id kinds)
                                   (map (\<lambda>(_, _, r). sresult_outcome r) entries) then
                           validation (InvalidToolResult turn_id)
                         else Ok ()))))"
  unfolding validate_transaction_def results_exact_Ok valid_marks_Ok rbind.simps ..

lemma accept_turn_started_eq:
  "accept_turn_started operation_id turn_id lc =
     rbind (active_operation lc operation_id) (\<lambda>operation.
       if op_turn_id operation \<noteq> None then validation (InvalidOperationReference operation_id)
       else if hm_get (lc_turns lc) turn_id \<noteq> None then validation (DuplicateTurn turn_id)
       else Ok (lc\<lparr>lc_operations :=
                     hm_insert operation_id (operation\<lparr>op_turn_id := Some turn_id\<rparr>)
                       (lc_operations lc),
                   lc_turns :=
                     hm_insert turn_id
                       \<lparr>tn_operation_id = operation_id,
                        tn_has_user_message = False,
                        tn_has_assistant_message = False,
                        tn_failure = None,
                        tn_outcome = None,
                        tn_tool_batches = []\<rparr>
                       (lc_turns lc),
                   lc_open_turn_ids := lc_open_turn_ids lc @ [turn_id]\<rparr>))"
  by (simp add: accept_turn_started_def active_operation_def validation_def split: option.split)

lemma accept_operation_settled_eq:
  "accept_operation_settled operation_id outcome lc =
     rbind (active_operation lc operation_id) (\<lambda>operation.
       case op_turn_id operation of
         None \<Rightarrow> validation (InvalidOperationOutcome operation_id)
       | Some turn_id \<Rightarrow>
           (let valid =
              (case hm_get (lc_turns lc) turn_id of
                 None \<Rightarrow> False
               | Some t \<Rightarrow> tn_operation_id t = operation_id
                   \<and> tn_outcome t = Some (expected_turn_outcome outcome))
            in if \<not> valid then validation (InvalidOperationOutcome operation_id)
               else Ok (lc\<lparr>lc_operations :=
                          hm_insert operation_id (operation\<lparr>op_outcome := Some outcome\<rparr>)
                            (lc_operations lc)\<rparr>)))"
  by (simp add: accept_operation_settled_def active_operation_def validation_def split: option.split)

end
