(* ===== verification/Session_Lifecycle_Inv.thy ===== *)
theory Session_Lifecycle_Inv
  imports Session_Lifecycle
begin

text \<open>
  The invariant of the lifecycle projection. \<open>turn_inv\<close> is about one turn record,
  \<open>lifecycle_inv\<close> adds how operations and turns refer to each other and what the list of open
  turns holds, and \<open>lifecycle_atomic\<close>, which holds between transactions only, is the atomicity of
  tool results: a batch has none of its results or all of them.
\<close>

section \<open>The invariant\<close>

definition batch_inv :: "tool_batch_record \<Rightarrow> bool" where
  "batch_inv b \<longleftrightarrow> tb_call_ids b \<noteq> [] \<and> distinct (tb_call_ids b)
     \<and> tb_results b = take (length (tb_results b)) (tb_call_ids b)"

definition turn_inv :: "turn_record \<Rightarrow> bool" where
  "turn_inv t \<longleftrightarrow>
     (\<forall>b \<in> set (tn_tool_batches t). batch_inv b)
     \<and> distinct (map tb_batch_id (tn_tool_batches t))
     \<and> (\<forall>b \<in> set (butlast (tn_tool_batches t)). batch_is_complete b)
     \<and> (tn_tool_batches t \<noteq> [] \<longrightarrow> tn_has_user_message t)
     \<and> (tn_has_assistant_message t \<longrightarrow>
          tn_has_user_message t \<and> tn_failure t = None \<and> tool_rounds_complete t)
     \<and> (tn_failure t \<noteq> None \<longrightarrow> tn_has_user_message t)
     \<and> (\<forall>oc. tn_outcome t = Some oc \<longrightarrow> turn_outcome_valid t oc)"

type_synonym op_map = "rstring \<rightharpoonup> operation_record"
type_synonym turn_map = "rstring \<rightharpoonup> turn_record"

definition turns_linked :: "op_map \<Rightarrow> turn_map \<Rightarrow> bool" where
  "turns_linked O' T \<longleftrightarrow>
     (\<forall>ti t. T ti = Some t \<longrightarrow> (\<exists>p. O' (tn_operation_id t) = Some p \<and> op_turn_id p = Some ti))"

definition ops_linked :: "op_map \<Rightarrow> turn_map \<Rightarrow> bool" where
  "ops_linked O' T \<longleftrightarrow>
     (\<forall>oi p ti. O' oi = Some p \<longrightarrow> op_turn_id p = Some ti \<longrightarrow>
        (\<exists>t. T ti = Some t \<and> tn_operation_id t = oi))"

definition ops_settled :: "op_map \<Rightarrow> turn_map \<Rightarrow> bool" where
  "ops_settled O' T \<longleftrightarrow>
     (\<forall>oi p oc. O' oi = Some p \<longrightarrow> op_outcome p = Some oc \<longrightarrow>
        (\<exists>ti t. op_turn_id p = Some ti \<and> T ti = Some t
           \<and> tn_outcome t = Some (expected_turn_outcome oc)))"

definition opens_exact :: "turn_map \<Rightarrow> rstring list \<Rightarrow> bool" where
  "opens_exact T ids \<longleftrightarrow> distinct ids \<and> set ids = {ti. \<exists>t. T ti = Some t \<and> tn_outcome t = None}"

definition turns_inv :: "turn_map \<Rightarrow> bool" where
  "turns_inv T \<longleftrightarrow> (\<forall>ti t. T ti = Some t \<longrightarrow> turn_inv t)"

definition lifecycle_inv :: "lifecycle \<Rightarrow> bool" where
  "lifecycle_inv lc \<longleftrightarrow>
     hm_wf (lc_operations lc) \<and> hm_wf (lc_turns lc)
     \<and> turns_inv (hm_get (lc_turns lc))
     \<and> turns_linked (hm_get (lc_operations lc)) (hm_get (lc_turns lc))
     \<and> ops_linked (hm_get (lc_operations lc)) (hm_get (lc_turns lc))
     \<and> ops_settled (hm_get (lc_operations lc)) (hm_get (lc_turns lc))
     \<and> opens_exact (hm_get (lc_turns lc)) (lc_open_turn_ids lc)"

definition batch_atomic :: "tool_batch_record \<Rightarrow> bool" where
  "batch_atomic b \<longleftrightarrow> tb_results b = [] \<or> tb_results b = tb_call_ids b"

definition lifecycle_atomic :: "lifecycle \<Rightarrow> bool" where
  "lifecycle_atomic lc \<longleftrightarrow>
     (\<forall>ti t. hm_get (lc_turns lc) ti = Some t \<longrightarrow> (\<forall>b \<in> set (tn_tool_batches t). batch_atomic b))"

lemma lifecycle_inv_empty [simp]: "lifecycle_inv lifecycle_empty"
  by (simp add: lifecycle_inv_def lifecycle_empty_def turns_inv_def turns_linked_def ops_linked_def
      ops_settled_def opens_exact_def)

lemma lifecycle_atomic_empty [simp]: "lifecycle_atomic lifecycle_empty"
  by (simp add: lifecycle_atomic_def lifecycle_empty_def)

section \<open>Turn records\<close>

lemma batch_inv_length: "batch_inv b \<Longrightarrow> length (tb_results b) \<le> length (tb_call_ids b)"
  unfolding batch_inv_def by (metis length_take min.cobounded1)

lemma batch_inv_complete: "batch_inv b \<Longrightarrow> batch_is_complete b \<Longrightarrow> tb_results b = tb_call_ids b"
  by (simp add: batch_inv_def batch_is_complete_def)

lemma turn_inv_last: "turn_inv t \<Longrightarrow> tn_tool_batches t \<noteq> [] \<Longrightarrow> batch_inv (last (tn_tool_batches t))"
  by (simp add: turn_inv_def)

lemma tool_rounds_complete_update [simp]:
  "tool_rounds_complete (t\<lparr>tn_has_user_message := u\<rparr>) = tool_rounds_complete t"
  "tool_rounds_complete (t\<lparr>tn_has_assistant_message := a\<rparr>) = tool_rounds_complete t"
  "tool_rounds_complete (t\<lparr>tn_failure := f\<rparr>) = tool_rounds_complete t"
  "tool_rounds_complete (t\<lparr>tn_outcome := oc\<rparr>) = tool_rounds_complete t"
  by (simp_all add: tool_rounds_complete_def)

lemma turn_outcome_valid_update [simp]:
  "turn_outcome_valid (t\<lparr>tn_outcome := oc'\<rparr>) oc = turn_outcome_valid t oc"
  by (simp add: turn_outcome_valid_def split: turn_outcome.splits)

lemma batch_results_snoc:
  assumes "batch_inv b" and "nth_opt (tb_call_ids b) (length (tb_results b)) = Some c"
  shows "batch_inv (b\<lparr>tb_results := tb_results b @ [c]\<rparr>)" "\<not> batch_is_complete b"
proof -
  from assms(2) have n: "length (tb_results b) < length (tb_call_ids b)"
    "c = tb_call_ids b ! length (tb_results b)"
    by (auto simp: nth_opt_def split: if_splits)
  then show "\<not> batch_is_complete b" by (simp add: batch_is_complete_def)
  from assms(1) have "tb_results b = take (length (tb_results b)) (tb_call_ids b)"
    by (simp add: batch_inv_def)
  with n have "take (Suc (length (tb_results b))) (tb_call_ids b) = tb_results b @ [c]"
    by (metis take_Suc_conv_app_nth)
  with assms(1) show "batch_inv (b\<lparr>tb_results := tb_results b @ [c]\<rparr>)"
    by (simp add: batch_inv_def)
qed

lemma turn_inv_new_batch:
  assumes "turn_inv t" and "tn_outcome t = None" and "tn_has_user_message t"
    and "\<not> tn_has_assistant_message t" and "tool_rounds_complete t"
    and "list_all (\<lambda>b. tb_batch_id b \<noteq> i) (tn_tool_batches t)" and "ids \<noteq> []" and "distinct ids"
  shows "turn_inv (t\<lparr>tn_tool_batches := tn_tool_batches t @
           [\<lparr>tb_batch_id = i, tb_call_ids = ids, tb_results = []\<rparr>]\<rparr>)"
proof -
  have "\<forall>b \<in> set (tn_tool_batches t). batch_is_complete b"
  proof (cases "tn_tool_batches t = []")
    case False
    then have "set (tn_tool_batches t) =
        insert (last (tn_tool_batches t)) (set (butlast (tn_tool_batches t)))"
      by (metis append_butlast_last_id list.simps(15) rotate1.simps(2) set_rotate1)
    with assms(1,5) False show ?thesis by (auto simp: turn_inv_def tool_rounds_complete_def)
  qed simp
  with assms show ?thesis
    by (auto simp: turn_inv_def batch_inv_def list_all_iff)
qed

lemma turn_inv_result:
  assumes "turn_inv t" and "tn_outcome t = None" and ne: "tn_tool_batches t \<noteq> []"
    and "b = last (tn_tool_batches t)"
    and "nth_opt (tb_call_ids b) (length (tb_results b)) = Some c"
  shows "turn_inv (t\<lparr>tn_tool_batches :=
           butlast (tn_tool_batches t) @ [b\<lparr>tb_results := tb_results b @ [c]\<rparr>]\<rparr>)"
proof -
  let ?b = "b\<lparr>tb_results := tb_results b @ [c]\<rparr>"
  have b: "batch_inv b" using assms(1,3,4) turn_inv_last by simp
  have inc: "\<not> batch_is_complete b" and new: "batch_inv ?b"
    using batch_results_snoc [OF b assms(5)] by auto
  have split: "tn_tool_batches t = butlast (tn_tool_batches t) @ [b]"
    using ne assms(4) by simp
  then have "set (butlast (tn_tool_batches t)) \<subseteq> set (tn_tool_batches t)"
    by (metis in_set_butlastD subsetI)
  moreover have "map tb_batch_id (butlast (tn_tool_batches t) @ [?b]) =
      map tb_batch_id (tn_tool_batches t)"
    by (subst (2) split) simp
  moreover have "\<not> tn_has_assistant_message t"
    using assms(1,3,4) inc by (auto simp: turn_inv_def tool_rounds_complete_def)
  ultimately show ?thesis
    using assms(1,2) ne new
    by (auto simp: turn_inv_def distinct_map)
qed

section \<open>Every accepted entry keeps the invariant\<close>

lemma active_turn_Ok: "active_turn_mut lc ti = Ok t \<longleftrightarrow>
    hm_get (lc_turns lc) ti = Some t \<and> tn_outcome t = None"
  by (auto simp: active_turn_mut_def split: option.splits if_splits)

lemma active_operation_Ok: "active_operation lc oi = Ok p \<longleftrightarrow>
    hm_get (lc_operations lc) oi = Some p \<and> op_outcome p = None"
  by (auto simp: active_operation_def split: option.splits if_splits)

lemma active_not_panic [simp]:
  "active_turn_mut lc ti \<noteq> Panic" "active_operation lc oi \<noteq> Panic"
  by (auto simp: active_turn_mut_def active_operation_def split: option.splits)

lemma turns_linkedD:
  "turns_linked O' T \<Longrightarrow> T ti = Some t \<Longrightarrow>
    \<exists>p. O' (tn_operation_id t) = Some p \<and> op_turn_id p = Some ti"
  by (simp add: turns_linked_def)

lemma ops_linkedD:
  "ops_linked O' T \<Longrightarrow> O' oi = Some p \<Longrightarrow> op_turn_id p = Some ti \<Longrightarrow>
    \<exists>t. T ti = Some t \<and> tn_operation_id t = oi"
  by (simp add: ops_linked_def)

lemma ops_settledD:
  "ops_settled O' T \<Longrightarrow> O' oi = Some p \<Longrightarrow> op_outcome p = Some oc \<Longrightarrow>
    \<exists>ti t. op_turn_id p = Some ti \<and> T ti = Some t \<and> tn_outcome t = Some (expected_turn_outcome oc)"
  by (simp add: ops_settled_def)

text \<open>Replacing an existing operation record by one with the same turn.\<close>

lemma op_update_links:
  assumes "O' oi = Some p" and "op_turn_id p' = op_turn_id p"
  shows "turns_linked O' T \<Longrightarrow> turns_linked (O'(oi \<mapsto> p')) T"
    and "ops_linked O' T \<Longrightarrow> ops_linked (O'(oi \<mapsto> p')) T"
proof -
  show "turns_linked (O'(oi \<mapsto> p')) T" if "turns_linked O' T"
    unfolding turns_linked_def using that assms by (auto dest!: turns_linkedD)
  show "ops_linked (O'(oi \<mapsto> p')) T" if l: "ops_linked O' T"
    unfolding ops_linked_def
  proof (intro allI impI)
    fix oj q ti assume q: "(O'(oi \<mapsto> p')) oj = Some q" "op_turn_id q = Some ti"
    with assms have "\<exists>q. O' oj = Some q \<and> op_turn_id q = Some ti"
      by (auto split: if_split_asm)
    with l show "\<exists>t. T ti = Some t \<and> tn_operation_id t = oj" by (blast dest: ops_linkedD)
  qed
qed

text \<open>Replacing an existing turn record by one of the same operation and the same outcome.\<close>

lemma turn_update_links:
  assumes "T ti = Some t" and "tn_operation_id t' = tn_operation_id t"
  shows "turns_linked O' T \<Longrightarrow> turns_linked O' (T(ti \<mapsto> t'))"
    and "ops_linked O' T \<Longrightarrow> ops_linked O' (T(ti \<mapsto> t'))"
    and "tn_outcome t = None \<Longrightarrow> ops_settled O' T \<Longrightarrow> ops_settled O' (T(ti \<mapsto> t'))"
    and "tn_outcome t' = tn_outcome t \<Longrightarrow> opens_exact T ids \<Longrightarrow> opens_exact (T(ti \<mapsto> t')) ids"
    and "turn_inv t' \<Longrightarrow> turns_inv T \<Longrightarrow> turns_inv (T(ti \<mapsto> t'))"
proof -
  show "turns_linked O' (T(ti \<mapsto> t'))" if "turns_linked O' T"
    using that assms by (auto simp: turns_linked_def)
  show "ops_linked O' (T(ti \<mapsto> t'))" if "ops_linked O' T"
    unfolding ops_linked_def
  proof (intro allI impI)
    fix oi p tj assume "O' oi = Some p" "op_turn_id p = Some tj"
    with that obtain u where "T tj = Some u" "tn_operation_id u = oi"
      unfolding ops_linked_def by blast
    with assms show "\<exists>u. (T(ti \<mapsto> t')) tj = Some u \<and> tn_operation_id u = oi" by auto
  qed
  show "ops_settled O' (T(ti \<mapsto> t'))" if o: "tn_outcome t = None" and "ops_settled O' T"
    unfolding ops_settled_def
  proof (intro allI impI)
    fix oi p oc assume "O' oi = Some p" "op_outcome p = Some oc"
    with that obtain tj u where u: "op_turn_id p = Some tj" "T tj = Some u"
      "tn_outcome u = Some (expected_turn_outcome oc)"
      unfolding ops_settled_def by blast
    with assms o have "tj \<noteq> ti" by auto
    with u show "\<exists>tj u. op_turn_id p = Some tj \<and> (T(ti \<mapsto> t')) tj = Some u
        \<and> tn_outcome u = Some (expected_turn_outcome oc)" by auto
  qed
  show "opens_exact (T(ti \<mapsto> t')) ids" if "tn_outcome t' = tn_outcome t" "opens_exact T ids"
    using that assms by (auto simp: opens_exact_def split: if_splits)
  show "turns_inv (T(ti \<mapsto> t'))" if "turn_inv t'" "turns_inv T"
    using that by (auto simp: turns_inv_def)
qed

lemma lifecycle_inv_put_turn:
  assumes "lifecycle_inv lc" and "hm_get (lc_turns lc) ti = Some t"
    and "tn_operation_id t' = tn_operation_id t" and "tn_outcome t = None" and "tn_outcome t' = None"
    and "turn_inv t'"
  shows "lifecycle_inv (put_turn ti t' lc)"
  using assms turn_update_links [of "hm_get (lc_turns lc)" ti t t']
  by (simp add: lifecycle_inv_def put_turn_def hm_get_insert_fun)

lemma lifecycle_inv_turnD:
  "lifecycle_inv lc \<Longrightarrow> hm_get (lc_turns lc) ti = Some t \<Longrightarrow> turn_inv t"
  by (simp add: lifecycle_inv_def turns_inv_def)

lemma accept_operation_started_inv:
  assumes "lifecycle_inv lc" and "accept_operation_started oi lc = Ok lc'"
  shows "lifecycle_inv lc'"
proof -
  let ?O = "hm_get (lc_operations lc)" and ?T = "hm_get (lc_turns lc)"
  let ?p = "\<lparr>op_turn_id = None, op_outcome = None\<rparr>"
  from assms(2) have new: "?O oi = None" and
    lc': "lc' = lc\<lparr>lc_operations := hm_insert oi ?p (lc_operations lc)\<rparr>"
    by (auto simp: accept_operation_started_def split: if_splits)
  have "turns_linked (?O(oi \<mapsto> ?p)) ?T" if "turns_linked ?O ?T"
    using that new unfolding turns_linked_def by fastforce
  moreover have "ops_linked (?O(oi \<mapsto> ?p)) ?T" if "ops_linked ?O ?T"
    using that by (auto simp: ops_linked_def)
  moreover have "ops_settled (?O(oi \<mapsto> ?p)) ?T" if "ops_settled ?O ?T"
    using that by (auto simp: ops_settled_def)
  ultimately show ?thesis
    using assms(1) by (simp add: lifecycle_inv_def lc' hm_get_insert_fun)
qed

lemma accept_turn_started_inv:
  assumes "lifecycle_inv lc" and "accept_turn_started oi ti lc = Ok lc'"
  shows "lifecycle_inv lc'"
proof -
  let ?O = "hm_get (lc_operations lc)" and ?T = "hm_get (lc_turns lc)"
  let ?t = "\<lparr>tn_operation_id = oi, tn_has_user_message = False, tn_has_assistant_message = False,
    tn_failure = None, tn_outcome = None, tn_tool_batches = []\<rparr>"
  from assms(2) obtain p where p: "?O oi = Some p" "op_outcome p = None" "op_turn_id p = None"
    and new: "?T ti = None" and
    lc': "lc' = lc\<lparr>lc_operations := hm_insert oi (p\<lparr>op_turn_id := Some ti\<rparr>) (lc_operations lc),
      lc_turns := hm_insert ti ?t (lc_turns lc), lc_open_turn_ids := lc_open_turn_ids lc @ [ti]\<rparr>"
    by (auto simp: accept_turn_started_eq rres_simps active_operation_Ok split: if_splits)
  let ?p = "p\<lparr>op_turn_id := Some ti\<rparr>"
  have "turns_linked (?O(oi \<mapsto> ?p)) (?T(ti \<mapsto> ?t))" if linked: "turns_linked ?O ?T"
    unfolding turns_linked_def
  proof (intro allI impI)
    fix tj u assume u: "(?T(ti \<mapsto> ?t)) tj = Some u"
    show "\<exists>q. (?O(oi \<mapsto> ?p)) (tn_operation_id u) = Some q \<and> op_turn_id q = Some tj"
    proof (cases "tj = ti")
      case False
      with u linked obtain q where "?O (tn_operation_id u) = Some q" "op_turn_id q = Some tj"
        by (auto simp: turns_linked_def)
      with p show ?thesis by auto
    qed (use u in auto)
  qed
  moreover have "ops_linked (?O(oi \<mapsto> ?p)) (?T(ti \<mapsto> ?t))" if linked: "ops_linked ?O ?T"
    unfolding ops_linked_def
  proof (intro allI impI)
    fix oj q tj assume q: "(?O(oi \<mapsto> ?p)) oj = Some q" "op_turn_id q = Some tj"
    show "\<exists>u. (?T(ti \<mapsto> ?t)) tj = Some u \<and> tn_operation_id u = oj"
    proof (cases "oj = oi")
      case False
      with q linked obtain u where "?T tj = Some u" "tn_operation_id u = oj"
        by (auto dest: ops_linkedD)
      with new show ?thesis by auto
    qed (use q in auto)
  qed
  moreover have "ops_settled (?O(oi \<mapsto> ?p)) (?T(ti \<mapsto> ?t))" if "ops_settled ?O ?T"
    using that p new unfolding ops_settled_def
    by (auto split: if_split_asm) (metis option.distinct(1))
  moreover have "opens_exact (?T(ti \<mapsto> ?t)) (lc_open_turn_ids lc @ [ti])"
    if "opens_exact ?T (lc_open_turn_ids lc)"
    using that new unfolding opens_exact_def by auto
  moreover have "turns_inv (?T(ti \<mapsto> ?t))" if "turns_inv ?T"
    using that by (auto simp: turns_inv_def turn_inv_def)
  ultimately show ?thesis
    using assms(1) by (simp add: lifecycle_inv_def lc' hm_get_insert_fun)
qed

lemma accept_turn_terminated_inv:
  assumes "lifecycle_inv lc" and "accept_turn_terminated ti oc lc = Ok lc'"
  shows "lifecycle_inv lc'"
proof -
  let ?O = "hm_get (lc_operations lc)" and ?T = "hm_get (lc_turns lc)"
  from assms(2) obtain t where t: "?T ti = Some t" "tn_outcome t = None"
    "turn_outcome_valid t oc" and
    lc': "lc' = lc\<lparr>lc_turns := hm_insert ti (t\<lparr>tn_outcome := Some oc\<rparr>) (lc_turns lc),
      lc_open_turn_ids := filter (\<lambda>x. x \<noteq> ti) (lc_open_turn_ids lc)\<rparr>"
    by (auto simp: accept_turn_terminated_def rres_simps active_turn_Ok put_turn_def Let_def
        split: if_splits)
  let ?t = "t\<lparr>tn_outcome := Some oc\<rparr>"
  have "turn_inv ?t"
    using lifecycle_inv_turnD [OF assms(1) t(1)] t(3) by (simp add: turn_inv_def)
  moreover have "opens_exact (?T(ti \<mapsto> ?t)) (filter (\<lambda>x. x \<noteq> ti) (lc_open_turn_ids lc))"
    if "opens_exact ?T (lc_open_turn_ids lc)"
    using that unfolding opens_exact_def by auto
  ultimately show ?thesis
    using assms(1) turn_update_links [of ?T ti t ?t] t
    by (simp add: lifecycle_inv_def lc' hm_get_insert_fun)
qed

lemma accept_operation_settled_OkD:
  assumes "accept_operation_settled oi oc lc = Ok lc'"
  shows "\<exists>p ti t. hm_get (lc_operations lc) oi = Some p \<and> op_outcome p = None
    \<and> op_turn_id p = Some ti \<and> hm_get (lc_turns lc) ti = Some t \<and> tn_operation_id t = oi
    \<and> tn_outcome t = Some (expected_turn_outcome oc)
    \<and> lc' = lc\<lparr>lc_operations := hm_insert oi (p\<lparr>op_outcome := Some oc\<rparr>) (lc_operations lc)\<rparr>"
proof (cases "active_operation lc oi")
  case (Ok p)
  with assms show ?thesis
    by (auto simp: accept_operation_settled_eq active_operation_Ok Let_def
        split: option.split_asm if_split_asm)
qed (use assms in \<open>simp_all add: accept_operation_settled_eq\<close>)

lemma accept_operation_settled_inv:
  assumes "lifecycle_inv lc" and "accept_operation_settled oi oc lc = Ok lc'"
  shows "lifecycle_inv lc'"
proof -
  let ?O = "hm_get (lc_operations lc)" and ?T = "hm_get (lc_turns lc)"
  from accept_operation_settled_OkD [OF assms(2)] obtain p ti t where
    p: "?O oi = Some p" "op_outcome p = None" "op_turn_id p = Some ti" and
    t: "?T ti = Some t" "tn_operation_id t = oi"
      "tn_outcome t = Some (expected_turn_outcome oc)" and
    lc': "lc' = lc\<lparr>lc_operations := hm_insert oi (p\<lparr>op_outcome := Some oc\<rparr>) (lc_operations lc)\<rparr>"
    by blast
  let ?p = "p\<lparr>op_outcome := Some oc\<rparr>"
  have "ops_settled (?O(oi \<mapsto> ?p)) ?T" if "ops_settled ?O ?T"
    using that p t unfolding ops_settled_def by auto
  then show ?thesis
    using assms(1) op_update_links [of ?O oi p ?p] p by (simp add: lifecycle_inv_def lc' hm_get_insert_fun)
qed

section \<open>What each accepted entry did\<close>

lemma accept_operation_started_OkD:
  "accept_operation_started oi lc = Ok lc' \<Longrightarrow>
    hm_get (lc_operations lc) oi = None \<and>
    lc' = lc\<lparr>lc_operations := hm_insert oi \<lparr>op_turn_id = None, op_outcome = None\<rparr> (lc_operations lc)\<rparr>"
  by (auto simp: accept_operation_started_def split: if_split_asm)

lemma accept_turn_started_OkD:
  "accept_turn_started oi ti lc = Ok lc' \<Longrightarrow>
    \<exists>p. hm_get (lc_operations lc) oi = Some p \<and> op_outcome p = None \<and> op_turn_id p = None
      \<and> hm_get (lc_turns lc) ti = None
      \<and> lc' = lc\<lparr>lc_operations := hm_insert oi (p\<lparr>op_turn_id := Some ti\<rparr>) (lc_operations lc),
          lc_turns := hm_insert ti
            \<lparr>tn_operation_id = oi, tn_has_user_message = False, tn_has_assistant_message = False,
             tn_failure = None, tn_outcome = None, tn_tool_batches = []\<rparr> (lc_turns lc),
          lc_open_turn_ids := lc_open_turn_ids lc @ [ti]\<rparr>"
  by (auto simp: accept_turn_started_eq rres_simps active_operation_Ok split: if_split_asm)

text \<open>The arms that edit the record of a live turn: the entry's turn, and what they do to it.\<close>

fun edited_turn :: "session_entry_kind \<Rightarrow> rstring option" where
  "edited_turn (UserMessage ti _) = Some ti"
| "edited_turn (AssistantToolCallBatch ti _ _ _) = Some ti"
| "edited_turn (ToolResult ti _ _) = Some ti"
| "edited_turn (AssistantMessage ti _) = Some ti"
| "edited_turn (TurnFailureEntry ti _) = Some ti"
| "edited_turn _ = None"

lemma accept_edit_OkD:
  assumes "lifecycle_accept k lc = Ok lc'" and "edited_turn k = Some ti"
  shows "\<exists>t t'. hm_get (lc_turns lc) ti = Some t \<and> tn_outcome t = None \<and> lc' = put_turn ti t' lc
    \<and> tn_operation_id t' = tn_operation_id t \<and> tn_outcome t' = None
    \<and> (turn_inv t \<longrightarrow> turn_inv t')
    \<and> (\<forall>b r. k = ToolResult ti b r \<longrightarrow>
         tn_tool_batches t \<noteq> [] \<and> tn_tool_batches t' = butlast (tn_tool_batches t) @
           [last (tn_tool_batches t)\<lparr>tb_results := tb_results (last (tn_tool_batches t)) @ [sresult_call_id r]\<rparr>])
    \<and> (\<forall>m b bl. k = AssistantToolCallBatch ti m b bl \<longrightarrow>
         tn_tool_batches t' = tn_tool_batches t @
           [\<lparr>tb_batch_id = b, tb_call_ids = map scall_id (session_block_calls bl), tb_results = []\<rparr>])
    \<and> ((\<forall>b r. k \<noteq> ToolResult ti b r) \<longrightarrow> (\<forall>m b bl. k \<noteq> AssistantToolCallBatch ti m b bl) \<longrightarrow>
         tn_tool_batches t' = tn_tool_batches t)"
proof (cases k)
  case (UserMessage ti' parts)
  with assms obtain t where "hm_get (lc_turns lc) ti = Some t" "tn_outcome t = None"
    "\<not> tn_has_user_message t" "lc' = put_turn ti (t\<lparr>tn_has_user_message := True\<rparr>) lc"
    by (auto simp: lifecycle_accept_def accept_user_message_def rres_simps active_turn_Ok
        split: if_split_asm)
  with UserMessage show ?thesis
    by (intro exI [of _ t] exI [of _ "t\<lparr>tn_has_user_message := True\<rparr>"])
      (auto simp: turn_inv_def turn_outcome_valid_def)
next
  case (AssistantToolCallBatch ti' m b bl)
  let ?ids = "map scall_id (session_block_calls bl)"
  from AssistantToolCallBatch assms obtain t where t: "hm_get (lc_turns lc) ti = Some t"
    "tn_outcome t = None" "tn_has_user_message t" "\<not> tn_has_assistant_message t"
    "tool_rounds_complete t" "list_all (\<lambda>x. tb_batch_id x \<noteq> b) (tn_tool_batches t)"
    "?ids \<noteq> []" "card (set ?ids) = length ?ids"
    "lc' = put_turn ti (t\<lparr>tn_tool_batches := tn_tool_batches t @
       [\<lparr>tb_batch_id = b, tb_call_ids = ?ids, tb_results = []\<rparr>]\<rparr>) lc"
    by (auto simp: lifecycle_accept_def accept_tool_call_batch_def rres_simps active_turn_Ok Let_def
        split: if_split_asm)
  have "distinct ?ids" using t(8) by (rule card_distinct)
  with AssistantToolCallBatch t assms(2) turn_inv_new_batch [of t b ?ids] show ?thesis
    by (intro exI [of _ t] exI [of _ "t\<lparr>tn_tool_batches := tn_tool_batches t @
       [\<lparr>tb_batch_id = b, tb_call_ids = ?ids, tb_results = []\<rparr>]\<rparr>"]) auto
next
  case (ToolResult ti' b r)
  let ?b = "\<lambda>t. last (tn_tool_batches t)"
  let ?t = "\<lambda>t. t\<lparr>tn_tool_batches := butlast (tn_tool_batches t) @
    [(?b t)\<lparr>tb_results := tb_results (?b t) @ [sresult_call_id r]\<rparr>]\<rparr>"
  from ToolResult assms obtain t where t: "hm_get (lc_turns lc) ti = Some t"
    "tn_outcome t = None" "tn_tool_batches t \<noteq> []"
    "nth_opt (tb_call_ids (?b t)) (length (tb_results (?b t))) = Some (sresult_call_id r)"
    "lc' = put_turn ti (?t t) lc"
    by (auto simp: lifecycle_accept_def accept_tool_result_def rres_simps active_turn_Ok Let_def
        split: if_split_asm)
  with ToolResult assms(2) turn_inv_result [of t "?b t" "sresult_call_id r"] show ?thesis
    by (intro exI [of _ t] exI [of _ "?t t"]) auto
next
  case (AssistantMessage ti' bl)
  with assms obtain t where "hm_get (lc_turns lc) ti = Some t" "tn_outcome t = None"
    "tn_has_user_message t" "tn_failure t = None" "tool_rounds_complete t"
    "lc' = put_turn ti (t\<lparr>tn_has_assistant_message := True\<rparr>) lc"
    by (auto simp: lifecycle_accept_def accept_assistant_message_def rres_simps active_turn_Ok
        split: if_split_asm)
  with AssistantMessage show ?thesis
    by (intro exI [of _ t] exI [of _ "t\<lparr>tn_has_assistant_message := True\<rparr>"])
      (auto simp: turn_inv_def)
next
  case (TurnFailureEntry ti' f)
  with assms obtain t where "hm_get (lc_turns lc) ti = Some t" "tn_outcome t = None"
    "tn_has_user_message t" "\<not> tn_has_assistant_message t"
    "lc' = put_turn ti (t\<lparr>tn_failure := Some f\<rparr>) lc"
    by (auto simp: lifecycle_accept_def accept_turn_failure_def rres_simps active_turn_Ok
        split: if_split_asm)
  with TurnFailureEntry show ?thesis
    by (intro exI [of _ t] exI [of _ "t\<lparr>tn_failure := Some f\<rparr>"]) (auto simp: turn_inv_def)
qed (use assms in auto)

lemma accept_edit_basic:
  assumes "lifecycle_accept k lc = Ok lc'" and "edited_turn k = Some ti"
  obtains t t' where "hm_get (lc_turns lc) ti = Some t" "tn_outcome t = None"
    "lc' = put_turn ti t' lc" "tn_operation_id t' = tn_operation_id t" "tn_outcome t' = None"
    "turn_inv t \<longrightarrow> turn_inv t'"
  using accept_edit_OkD [OF assms] by blast

lemma accept_turn_terminated_OkD:
  "accept_turn_terminated ti oc lc = Ok lc' \<Longrightarrow>
    \<exists>t. hm_get (lc_turns lc) ti = Some t \<and> tn_outcome t = None \<and> turn_outcome_valid t oc
      \<and> lc' = lc\<lparr>lc_turns := hm_insert ti (t\<lparr>tn_outcome := Some oc\<rparr>) (lc_turns lc),
          lc_open_turn_ids := filter (\<lambda>x. x \<noteq> ti) (lc_open_turn_ids lc)\<rparr>"
  by (auto simp: accept_turn_terminated_def rres_simps active_turn_Ok put_turn_def Let_def
      split: if_split_asm)

lemmas accept_OkDs = accept_operation_started_OkD accept_turn_started_OkD
  accept_turn_terminated_OkD accept_operation_settled_OkD

lemma accept_noedit_turns:
  assumes "lifecycle_accept k lc = Ok lc'" and "edited_turn k = None"
  shows "\<And>ti t. hm_get (lc_turns lc) ti = Some t \<Longrightarrow>
      \<exists>t'. hm_get (lc_turns lc') ti = Some t' \<and> tn_tool_batches t' = tn_tool_batches t"
    and "\<And>ti t'. hm_get (lc_turns lc') ti = Some t' \<Longrightarrow> tn_tool_batches t' = [] \<or>
      (\<exists>t. hm_get (lc_turns lc) ti = Some t \<and> tn_tool_batches t' = tn_tool_batches t)"
proof -
  show "\<exists>t'. hm_get (lc_turns lc') ti = Some t' \<and> tn_tool_batches t' = tn_tool_batches t"
    if "hm_get (lc_turns lc) ti = Some t" for ti t
    using assms that
    by (cases k) (auto simp: lifecycle_accept_def dest!: accept_OkDs)
  show "tn_tool_batches t' = [] \<or>
      (\<exists>t. hm_get (lc_turns lc) ti = Some t \<and> tn_tool_batches t' = tn_tool_batches t)"
    if "hm_get (lc_turns lc') ti = Some t'" for ti t'
    using assms that
    by (cases k) (auto simp: lifecycle_accept_def dest!: accept_OkDs split: if_split_asm)
qed

section \<open>The invariant is kept\<close>

theorem lifecycle_accept_inv:
  assumes "lifecycle_inv lc" and "lifecycle_accept k lc = Ok lc'"
  shows "lifecycle_inv lc'"
proof (cases "edited_turn k")
  case (Some ti)
  with assms(1) show ?thesis
    by (auto elim!: accept_edit_basic [OF assms(2)] intro: lifecycle_inv_put_turn
        dest: lifecycle_inv_turnD)
next
  case None
  with assms show ?thesis
    by (cases k) (auto simp: lifecycle_accept_def intro: accept_operation_started_inv
        accept_turn_started_inv accept_turn_terminated_inv accept_operation_settled_inv)
qed

lemma lifecycle_accept_not_panic: "lifecycle_accept k lc \<noteq> Panic"
  by (cases k) (auto simp: lifecycle_accept_def accept_operation_started_def accept_turn_started_eq
      accept_user_message_def accept_tool_call_batch_def accept_tool_result_def
      accept_assistant_message_def accept_turn_failure_def accept_turn_terminated_def
      accept_operation_settled_eq rres_simps Let_def split: option.splits)

lemma lifecycle_fold_inv:
  "lifecycle_inv lc \<Longrightarrow> rfold lifecycle_accept ks lc = Ok lc' \<Longrightarrow> lifecycle_inv lc'"
  using rfold_invariant [of lifecycle_accept ks lc lc' lifecycle_inv] lifecycle_accept_inv by blast

section \<open>Terminal facts are immutable\<close>

lemma accept_keeps_terminal_turn:
  assumes "lifecycle_accept k lc = Ok lc'" and "hm_get (lc_turns lc) ti = Some t"
    and "tn_outcome t \<noteq> None"
  shows "hm_get (lc_turns lc') ti = Some t"
proof (cases "edited_turn k")
  case (Some tj)
  with assms(2,3) show ?thesis
    by (auto simp: put_turn_def elim!: accept_edit_basic [OF assms(1)])
next
  case None
  with assms show ?thesis
    by (cases k) (auto simp: lifecycle_accept_def dest!: accept_OkDs)
qed

lemma accept_keeps_settled_operation:
  assumes "lifecycle_accept k lc = Ok lc'" and "hm_get (lc_operations lc) oi = Some p"
    and "op_outcome p \<noteq> None"
  shows "hm_get (lc_operations lc') oi = Some p"
proof (cases "edited_turn k")
  case (Some tj)
  with assms(2,3) show ?thesis
    by (auto simp: put_turn_def elim!: accept_edit_basic [OF assms(1)])
next
  case None
  with assms show ?thesis
    by (cases k) (auto simp: lifecycle_accept_def dest!: accept_OkDs)
qed

lemma fold_keeps_terminal:
  assumes "rfold lifecycle_accept ks lc = Ok lc'"
  shows "hm_get (lc_turns lc) ti = Some t \<Longrightarrow> tn_outcome t \<noteq> None \<Longrightarrow>
      hm_get (lc_turns lc') ti = Some t"
    and "hm_get (lc_operations lc) oi = Some p \<Longrightarrow> op_outcome p \<noteq> None \<Longrightarrow>
      hm_get (lc_operations lc') oi = Some p"
  using rfold_invariant [OF assms, where I = "\<lambda>lc. hm_get (lc_turns lc) ti = Some t"]
    rfold_invariant [OF assms, where I = "\<lambda>lc. hm_get (lc_operations lc) oi = Some p"]
    accept_keeps_terminal_turn accept_keeps_settled_operation by blast+

section \<open>No panics\<close>

lemma unfilled_batch_of_Ok:
  assumes "turn_inv t"
  shows "\<exists>ub. unfilled_batch_of t = Ok ub"
  using assms turn_inv_last [OF assms] batch_inv_length
  by (auto simp: unfilled_batch_of_def Let_def)

lemma open_turns_Ok:
  assumes "lifecycle_inv lc"
  shows "\<exists>ots. open_turns lc = Ok ots \<and> map ot_turn_id ots = lc_open_turn_ids lc"
proof -
  have "\<exists>ot. open_turn_info_of lc ti = Ok ot \<and> ti = ot_turn_id ot"
    if "ti \<in> set (lc_open_turn_ids lc)" for ti
  proof -
    from that assms obtain t where t: "hm_get (lc_turns lc) ti = Some t"
      by (auto simp: lifecycle_inv_def opens_exact_def)
    obtain ub where "unfilled_batch_of t = Ok ub"
      using unfilled_batch_of_Ok lifecycle_inv_turnD [OF assms t] by blast
    with t show ?thesis by (simp add: open_turn_info_of_def)
  qed
  then obtain ots where ots: "open_turns lc = Ok ots"
    "list_all2 (\<lambda>ti ot. ti = ot_turn_id ot) (lc_open_turn_ids lc) ots"
    unfolding open_turns_def
    using rmap_Ok_ex [of "lc_open_turn_ids lc" "open_turn_info_of lc" "\<lambda>ti ot. ti = ot_turn_id ot"]
    by blast
  from ots(2) have "map ot_turn_id ots = lc_open_turn_ids lc"
    by (induction rule: list_all2_induct) auto
  with ots(1) show ?thesis by blast
qed

lemma validate_transaction_not_panic:
  assumes "lifecycle_inv lc"
  shows "validate_transaction lc kinds \<noteq> Panic"
proof -
  have "length (tb_results (last (tn_tool_batches t))) \<le> length (tb_call_ids (last (tn_tool_batches t)))"
    if "hm_get (lc_turns lc) ti = Some t" "tn_tool_batches t \<noteq> []" for ti t
    using that assms lifecycle_inv_turnD turn_inv_last batch_inv_length by blast
  then show ?thesis
    by (auto simp: validate_transaction_eq Let_def split: list.splits option.splits)
qed

section \<open>Tool results are all or nothing\<close>

text \<open>Between transactions every batch has none of its results or all of them. Inside a
  transaction that carries results, one turn's newest batch is being filled; the invariant then
  holds of every other turn.\<close>

definition atomic_except :: "rstring option \<Rightarrow> lifecycle \<Rightarrow> bool" where
  "atomic_except x lc \<longleftrightarrow>
     (\<forall>ti t. Some ti \<noteq> x \<longrightarrow> hm_get (lc_turns lc) ti = Some t \<longrightarrow>
        (\<forall>b \<in> set (tn_tool_batches t). batch_atomic b))"

lemma atomic_except_None: "atomic_except None lc = lifecycle_atomic lc"
  by (simp add: atomic_except_def lifecycle_atomic_def)

lemma accept_atomic_except:
  assumes "atomic_except x lc" and "lifecycle_accept k lc = Ok lc'"
    and "\<And>ti b r. k = ToolResult ti b r \<Longrightarrow> Some ti = x"
  shows "atomic_except x lc'"
proof (cases "edited_turn k")
  case (Some tj)
  from accept_edit_OkD [OF assms(2) Some] obtain t t' where
    t: "hm_get (lc_turns lc) tj = Some t" "lc' = put_turn tj t' lc" and
    batch: "\<And>m b bl. k = AssistantToolCallBatch tj m b bl \<Longrightarrow> tn_tool_batches t' = tn_tool_batches t @
      [\<lparr>tb_batch_id = b, tb_call_ids = map scall_id (session_block_calls bl), tb_results = []\<rparr>]" and
    other: "\<forall>b r. k \<noteq> ToolResult tj b r \<Longrightarrow> \<forall>m b bl. k \<noteq> AssistantToolCallBatch tj m b bl \<Longrightarrow>
      tn_tool_batches t' = tn_tool_batches t"
    by blast
  have "\<forall>b \<in> set (tn_tool_batches t'). batch_atomic b" if "Some tj \<noteq> x"
  proof -
    have old: "\<forall>b \<in> set (tn_tool_batches t). batch_atomic b"
      using assms(1) t(1) that by (auto simp: atomic_except_def)
    show ?thesis
    proof (cases "\<exists>m b bl. k = AssistantToolCallBatch tj m b bl")
      case True
      with old batch show ?thesis by (auto simp: batch_atomic_def)
    next
      case False
      with other assms(3) that old show ?thesis by metis
    qed
  qed
  with assms(1) t(2) show ?thesis by (auto simp: atomic_except_def put_turn_def)
next
  case None
  show ?thesis unfolding atomic_except_def
  proof (intro allI impI)
    fix ti t' assume "Some ti \<noteq> x" and "hm_get (lc_turns lc') ti = Some t'"
    with accept_noedit_turns(2) [OF assms(2) None this(2)] assms(1)
    show "\<forall>b \<in> set (tn_tool_batches t'). batch_atomic b" by (auto simp: atomic_except_def)
  qed
qed

definition add_results :: "rstring list \<Rightarrow> tool_batch_record list \<Rightarrow> tool_batch_record list" where
  "add_results cs bs =
     (if cs = [] then bs
      else butlast bs @ [(last bs)\<lparr>tb_results := tb_results (last bs) @ cs\<rparr>])"

lemma add_results_Cons:
  "add_results cs (butlast bs @ [(last bs)\<lparr>tb_results := tb_results (last bs) @ [c]\<rparr>]) =
     add_results (c # cs) bs"
  by (simp add: add_results_def)

lemma accept_batches:
  assumes "lifecycle_accept k lc = Ok lc'" and "hm_get (lc_turns lc) ti = Some t"
    and "\<not> assistant_or_batch k" and "\<And>tj b r. k = ToolResult tj b r \<Longrightarrow> tj = ti"
  shows "\<exists>t'. hm_get (lc_turns lc') ti = Some t' \<and> tn_tool_batches t' =
    add_results (map (\<lambda>(_, _, r). sresult_call_id r) (result_entries [k])) (tn_tool_batches t)"
proof (cases "edited_turn k")
  case (Some tj)
  from accept_edit_OkD [OF assms(1) Some] obtain t1 t' where
    t: "hm_get (lc_turns lc) tj = Some t1" "lc' = put_turn tj t' lc" and
    result: "\<And>b r. k = ToolResult tj b r \<Longrightarrow> tn_tool_batches t' = butlast (tn_tool_batches t1) @
      [last (tn_tool_batches t1)\<lparr>tb_results := tb_results (last (tn_tool_batches t1)) @ [sresult_call_id r]\<rparr>]" and
    other: "\<forall>b r. k \<noteq> ToolResult tj b r \<Longrightarrow> \<forall>m b bl. k \<noteq> AssistantToolCallBatch tj m b bl \<Longrightarrow>
      tn_tool_batches t' = tn_tool_batches t1"
    by blast
  show ?thesis
  proof (cases "\<exists>b r. k = ToolResult tj b r")
    case True
    with t result assms show ?thesis
      by (auto simp: put_turn_def add_results_def result_entries_def result_entry_def
          List.map_filter_simps)
  next
    case False
    with t other assms Some show ?thesis
      by (cases k) (auto simp: put_turn_def add_results_def result_entries_def result_entry_def
          List.map_filter_simps assistant_or_batch_def)
  qed
next
  case None
  then have "result_entries [k] = []"
    by (cases k) (simp_all add: result_entries_def result_entry_def List.map_filter_simps)
  with accept_noedit_turns(1) [OF assms(1) None assms(2)] show ?thesis
    by (simp add: add_results_def)
qed

lemma result_entries_Cons:
  "result_entries (k # ks) = result_entries [k] @ result_entries ks"
  using map_filter_append [of result_entry "[k]" ks] by (simp add: result_entries_def)

lemma result_entry_Some: "result_entry k = Some (ti, b, r) \<longleftrightarrow> k = ToolResult ti b r"
  by (cases k) (auto simp: result_entry_def)

lemma result_entries_mem:
  "(ti, b, r) \<in> set (result_entries ks) \<longleftrightarrow> ToolResult ti b r \<in> set ks"
  by (simp add: result_entries_def set_map_filter result_entry_Some)

lemma fold_batches:
  assumes "rfold lifecycle_accept ks lc = Ok lc'" and "hm_get (lc_turns lc) ti = Some t"
    and "\<not> list_ex assistant_or_batch ks" and "\<And>tj b r. ToolResult tj b r \<in> set ks \<Longrightarrow> tj = ti"
  shows "\<exists>t'. hm_get (lc_turns lc') ti = Some t' \<and> tn_tool_batches t' =
    add_results (map (\<lambda>(_, _, r). sresult_call_id r) (result_entries ks)) (tn_tool_batches t)"
  using assms
proof (induction ks arbitrary: lc t)
  case Nil
  then show ?case by (simp add: add_results_def result_entries_def List.map_filter_simps)
next
  case (Cons k ks)
  from Cons.prems(1) obtain lc1 where lc1: "lifecycle_accept k lc = Ok lc1"
    "rfold lifecycle_accept ks lc1 = Ok lc'"
    by (auto simp: rres_simps)
  let ?ids = "\<lambda>ks. map (\<lambda>(_, _, r). sresult_call_id r) (result_entries ks)"
  from accept_batches [OF lc1(1) Cons.prems(2)] Cons.prems(3,4) obtain t1 where
    t1: "hm_get (lc_turns lc1) ti = Some t1"
      "tn_tool_batches t1 = add_results (?ids [k]) (tn_tool_batches t)"
    by auto
  from Cons.IH [OF lc1(2) t1(1)] Cons.prems(3,4) obtain t' where
    t': "hm_get (lc_turns lc') ti = Some t'"
      "tn_tool_batches t' = add_results (?ids ks) (tn_tool_batches t1)"
    by auto
  have "add_results ys (add_results xs bs) = add_results (xs @ ys) bs" for xs ys bs
    by (auto simp: add_results_def)
  with t' t1(2) show ?case by (simp add: result_entries_Cons [of k ks])
qed

lemma results_exact_ids:
  assumes "results_in_order ti b expected es"
  shows "map (\<lambda>(_, _, r). sresult_call_id r) es = expected"
    and "\<And>tj bj r. (tj, bj, r) \<in> set es \<Longrightarrow> tj = ti \<and> bj = b"
proof -
  have len: "length es = length expected"
    and all: "\<And>i. i < length es \<Longrightarrow> fst (es ! i) = ti \<and> fst (snd (es ! i)) = b
      \<and> sresult_call_id (snd (snd (es ! i))) = expected ! i"
    using assms
    by (auto simp: results_in_order_def list_all_length nth_enumerate_eq split: prod.splits)
      (metis fst_conv snd_conv prod.collapse)+
  show "map (\<lambda>(_, _, r). sresult_call_id r) es = expected"
    using len all by (intro nth_equalityI) (auto split: prod.splits simp: case_prod_beta)
  fix tj bj r assume "(tj, bj, r) \<in> set es"
  then obtain i where "i < length es" "es ! i = (tj, bj, r)" by (meson in_set_conv_nth)
  with all show "tj = ti \<and> bj = b" by fastforce
qed

lemma validate_transaction_results:
  assumes "validate_transaction lc ks = Ok ()" and "result_entries ks \<noteq> []"
  obtains ti t where "\<not> list_ex assistant_or_batch ks" "hm_get (lc_turns lc) ti = Some t"
    "tn_tool_batches t \<noteq> []"
    "results_in_order ti (tb_batch_id (last (tn_tool_batches t)))
       (drop (length (tb_results (last (tn_tool_batches t)))) (tb_call_ids (last (tn_tool_batches t))))
       (result_entries ks)"
    "marks_allowed (cancel_reason_of ti ks) (map (\<lambda>(_, _, r). sresult_outcome r) (result_entries ks))"
proof -
  from assms(2) obtain ti x rest where es: "result_entries ks = (ti, x) # rest"
    by (cases "result_entries ks") auto
  with assms(1) have nb: "\<not> list_ex assistant_or_batch ks"
    by (auto simp: validate_transaction_eq Let_def split: if_split_asm)
  with assms(1) es obtain t where t: "hm_get (lc_turns lc) ti = Some t" "tn_tool_batches t \<noteq> []"
    by (auto simp: validate_transaction_eq Let_def split: if_split_asm option.split_asm)
  from assms(1) es nb t that [OF nb t] show thesis
    by (auto simp: validate_transaction_eq Let_def rres_simps split: if_split_asm)
qed

theorem lifecycle_transaction_atomic:
  assumes inv: "lifecycle_inv lc" and atomic: "lifecycle_atomic lc"
    and valid: "validate_transaction lc ks = Ok ()" and fold: "rfold lifecycle_accept ks lc = Ok lc'"
  shows "lifecycle_atomic lc'"
proof (cases "result_entries ks = []")
  case True
  then have none: "ToolResult ti b r \<notin> set ks" for ti b r
    using result_entries_mem [of ti b r ks] by simp
  have "atomic_except None lc'"
    using rfold_invariant [OF fold, where I = "atomic_except None"] atomic none
      accept_atomic_except [of None] by (metis atomic_except_None)
  then show ?thesis by (simp add: atomic_except_None)
next
  case False
  from valid False obtain ti t where v: "\<not> list_ex assistant_or_batch ks"
    "hm_get (lc_turns lc) ti = Some t" "tn_tool_batches t \<noteq> []" and
    exact: "results_in_order ti (tb_batch_id (last (tn_tool_batches t)))
       (drop (length (tb_results (last (tn_tool_batches t)))) (tb_call_ids (last (tn_tool_batches t))))
       (result_entries ks)"
    by (rule validate_transaction_results)
  have own: "tj = ti" if "ToolResult tj b r \<in> set ks" for tj b r
    using results_exact_ids(2) [OF exact] that result_entries_mem by blast
  have "atomic_except (Some ti) lc"
    using atomic by (auto simp: atomic_except_def lifecycle_atomic_def)
  then have except: "atomic_except (Some ti) lc'"
    using rfold_invariant [OF fold, where I = "atomic_except (Some ti)"] own
      accept_atomic_except [of "Some ti"] by blast
  let ?b = "last (tn_tool_batches t)"
  let ?ids = "drop (length (tb_results ?b)) (tb_call_ids ?b)"
  have "\<exists>t'. hm_get (lc_turns lc') ti = Some t' \<and> tn_tool_batches t' =
      add_results (map (\<lambda>(_, _, r). sresult_call_id r) (result_entries ks)) (tn_tool_batches t)"
    using fold_batches [OF fold v(2) v(1)] own by blast
  then obtain t' where t': "hm_get (lc_turns lc') ti = Some t'"
    "tn_tool_batches t' = add_results ?ids (tn_tool_batches t)"
    by (auto simp: results_exact_ids(1) [OF exact])
  have "batch_inv ?b" using inv v lifecycle_inv_turnD turn_inv_last by blast
  then have full: "tb_results ?b @ ?ids = tb_call_ids ?b"
    unfolding batch_inv_def by (metis append_take_drop_id)
  have "\<forall>b \<in> set (tn_tool_batches t). batch_atomic b"
    using atomic v(2) by (auto simp: lifecycle_atomic_def)
  then have "\<forall>b \<in> set (tn_tool_batches t'). batch_atomic b"
    using t'(2) full by (auto simp: add_results_def batch_atomic_def dest: in_set_butlastD)
  with except t'(1) show ?thesis
    unfolding atomic_except_def lifecycle_atomic_def by (metis option.inject)
qed

end
