(* ===== verification/Session_Context.thy ===== *)
theory Session_Context
  imports Session_Entry
begin

text \<open>
  The model-visible message projection and the compaction prefix
  (\<^verbatim>\<open>philo-session/src/projection/context.rs\<close>).
\<close>

section \<open>State and operations\<close>

record settled_boundary =
  sb_entry_ordinal :: nat
  sb_message_count :: nat

record compaction_state =
  cs_summary :: rstring
  cs_covers_up_to :: rstring
  cs_boundary :: settled_boundary

record context_projection =
  cp_source_messages :: "context_message list"
  cp_settled_boundaries :: "(rstring, settled_boundary) hashmap"
  cp_latest_compaction :: "compaction_state option"
  cp_latest_usage :: "session_token_usage option"
  cp_latest_generation :: "session_generation_choice option"

definition context_empty :: context_projection where
  "context_empty =
     \<lparr>cp_source_messages = [], cp_settled_boundaries = [], cp_latest_compaction = None,
      cp_latest_usage = None, cp_latest_generation = None\<rparr>"

definition settled_boundary_ids :: "context_projection \<Rightarrow> rstring list" where
  "settled_boundary_ids cp =
     map fst (sort_key (\<lambda>(_, boundary). sb_entry_ordinal boundary) (cp_settled_boundaries cp))"

definition latest_compaction_boundary :: "context_projection \<Rightarrow> rstring option" where
  "latest_compaction_boundary cp = map_option cs_covers_up_to (cp_latest_compaction cp)"

definition push_message :: "context_message \<Rightarrow> context_projection \<Rightarrow> context_projection" where
  "push_message m cp = cp\<lparr>cp_source_messages := cp_source_messages cp @ [m]\<rparr>"

definition accept_compaction ::
    "rstring \<Rightarrow> rstring \<Rightarrow> context_projection \<Rightarrow> (context_projection, session_error) rres" where
  "accept_compaction summary covers_up_to cp =
     (if summary = [] then validation InvalidCompactionSummary
      else case hm_get (cp_settled_boundaries cp) covers_up_to of
          None \<Rightarrow> validation (InvalidCompactionBoundary covers_up_to)
        | Some boundary \<Rightarrow>
            (let next = cp\<lparr>cp_latest_compaction :=
                   Some \<lparr>cs_summary = summary, cs_covers_up_to = covers_up_to,
                          cs_boundary = boundary\<rparr>\<rparr>
             in case cp_latest_compaction cp of
                  Some previous \<Rightarrow>
                    if sb_entry_ordinal boundary \<le> sb_entry_ordinal (cs_boundary previous)
                    then validation (NonMonotonicCompactionBoundary (cs_covers_up_to previous)
                           covers_up_to)
                    else Ok next
                | None \<Rightarrow> Ok next))"

definition context_accept ::
    "session_entry \<Rightarrow> nat \<Rightarrow> context_projection \<Rightarrow> (context_projection, session_error) rres" where
  "context_accept entry entry_ordinal cp =
     (case entry_kind entry of
        UserMessage _ parts \<Rightarrow> Ok (push_message (CmUser parts) cp)
      | AssistantMessage _ blocks \<Rightarrow> Ok (push_message (CmAssistant blocks) cp)
      | AssistantToolCallBatch _ _ tool_batch_id blocks \<Rightarrow>
          Ok (push_message (CmAssistantToolCalls tool_batch_id blocks) cp)
      | ToolResult _ _ result \<Rightarrow>
          Ok (push_message (CmToolResult (sresult_call_id result) (sresult_outcome result)) cp)
      | OperationSettled _ _ usage generation \<Rightarrow>
          Ok (cp\<lparr>cp_settled_boundaries :=
                   hm_insert (entry_id entry)
                     \<lparr>sb_entry_ordinal = entry_ordinal,
                      sb_message_count = length (cp_source_messages cp)\<rparr>
                     (cp_settled_boundaries cp),
                 cp_latest_usage := usage,
                 cp_latest_generation := generation\<rparr>)
      | Compaction summary covers_up_to \<Rightarrow> accept_compaction summary covers_up_to cp
      | _ \<Rightarrow> Ok cp)"

definition context_messages_view :: "context_projection \<Rightarrow> (context_message list, session_error) rres" where
  "context_messages_view cp =
     (case cp_latest_compaction cp of
        None \<Rightarrow> Ok (cp_source_messages cp)
      | Some compaction \<Rightarrow>
          rbind (slice_from (cp_source_messages cp) (sb_message_count (cs_boundary compaction)))
            (\<lambda>tail. Ok (CmSummary (cs_summary compaction) # tail)))"

section \<open>The invariant\<close>

text \<open>Relative to the number of entries accepted so far: every boundary was recorded at an earlier
  entry and at most the current number of messages, later boundaries never cover fewer messages,
  and distinct boundaries have distinct ordinals. The newest compaction refers to a boundary the
  projection has, or had when the compaction was accepted, and its summary is not empty.\<close>

definition boundary_ok :: "nat \<Rightarrow> context_projection \<Rightarrow> settled_boundary \<Rightarrow> bool" where
  "boundary_ok n cp sb \<longleftrightarrow>
     sb_entry_ordinal sb < n \<and> sb_message_count sb \<le> length (cp_source_messages cp)"

definition context_inv :: "nat \<Rightarrow> context_projection \<Rightarrow> bool" where
  "context_inv n cp \<longleftrightarrow>
     hm_wf (cp_settled_boundaries cp)
     \<and> (\<forall>(i, sb) \<in> set (cp_settled_boundaries cp). boundary_ok n cp sb)
     \<and> distinct (map (\<lambda>(i, sb). sb_entry_ordinal sb) (cp_settled_boundaries cp))
     \<and> (\<forall>c. cp_latest_compaction cp = Some c \<longrightarrow>
          boundary_ok n cp (cs_boundary c) \<and> cs_summary c \<noteq> [])"

lemma context_inv_empty [simp]: "context_inv 0 context_empty"
  by (simp add: context_inv_def context_empty_def)

lemma boundary_ok_mono:
  "boundary_ok n cp sb \<Longrightarrow> n \<le> n' \<Longrightarrow> length (cp_source_messages cp) \<le> length (cp_source_messages cp') \<Longrightarrow>
    boundary_ok n' cp' sb"
  by (simp add: boundary_ok_def)

lemma context_inv_push: "context_inv n cp \<Longrightarrow> context_inv (Suc n) (push_message m cp)"
  unfolding context_inv_def push_message_def
  by (fastforce elim: boundary_ok_mono)

lemma context_inv_Suc: "context_inv n cp \<Longrightarrow> context_inv (Suc n) cp"
  unfolding context_inv_def by (fastforce elim: boundary_ok_mono)

lemma set_hm_insert: "set (hm_insert k v m) \<subseteq> insert (k, v) (set m)"
  unfolding hm_insert_def by (induction m) auto

lemma distinct_ordinals_insert:
  assumes "distinct (map (\<lambda>(i, sb). sb_entry_ordinal sb) m)"
    and "\<forall>(i, sb) \<in> set m. sb_entry_ordinal sb < n"
  shows "distinct (map (\<lambda>(i, sb). sb_entry_ordinal sb)
    (hm_insert k \<lparr>sb_entry_ordinal = n, sb_message_count = c\<rparr> m))"
  using assms
proof (induction m)
  case (Cons p m)
  then show ?case
    using set_hm_insert [of k "\<lparr>sb_entry_ordinal = n, sb_message_count = c\<rparr>" m]
    by (cases p) (fastforce simp: hm_insert_def)
qed (simp add: hm_insert_def)

lemma accept_compaction_Ok:
  assumes "accept_compaction summary covers cp = Ok cp'"
  obtains sb where "summary \<noteq> []" "hm_get (cp_settled_boundaries cp) covers = Some sb"
    "\<And>c. cp_latest_compaction cp = Some c \<Longrightarrow>
       sb_entry_ordinal (cs_boundary c) < sb_entry_ordinal sb"
    "cp' = cp\<lparr>cp_latest_compaction :=
       Some \<lparr>cs_summary = summary, cs_covers_up_to = covers, cs_boundary = sb\<rparr>\<rparr>"
proof -
  from assms obtain sb where s: "summary \<noteq> []" "hm_get (cp_settled_boundaries cp) covers = Some sb"
    by (auto simp: accept_compaction_def split: if_split_asm option.split_asm)
  with assms show thesis
    by (intro that [of sb])
      (auto simp: accept_compaction_def Let_def split: if_split_asm option.split_asm)
qed

lemma context_accept_inv:
  assumes "context_inv n cp" and "context_accept e n cp = Ok cp'"
  shows "context_inv (Suc n) cp'"
proof (cases "entry_kind e")
  case (OperationSettled oi oc u g)
  let ?sb = "\<lparr>sb_entry_ordinal = n, sb_message_count = length (cp_source_messages cp)\<rparr>"
  let ?m = "hm_insert (entry_id e) ?sb (cp_settled_boundaries cp)"
  from OperationSettled assms(2) have cp': "cp' = cp\<lparr>cp_settled_boundaries := ?m,
      cp_latest_usage := u, cp_latest_generation := g\<rparr>"
    by (simp add: context_accept_def)
  have "\<forall>(i, sb) \<in> set (cp_settled_boundaries cp). sb_entry_ordinal sb < n"
    using assms(1) by (auto simp: context_inv_def boundary_ok_def)
  then have "distinct (map (\<lambda>(i, sb). sb_entry_ordinal sb) ?m)"
    using assms(1) by (intro distinct_ordinals_insert) (auto simp: context_inv_def)
  moreover have "\<forall>(i, sb) \<in> set ?m. boundary_ok (Suc n) cp' sb"
    using assms(1) set_hm_insert [of "entry_id e" ?sb "cp_settled_boundaries cp"]
    by (fastforce simp: context_inv_def boundary_ok_def cp')
  ultimately show ?thesis
    using assms(1) by (auto simp: context_inv_def boundary_ok_def cp')
next
  case (Compaction summary covers)
  with assms(2) have "accept_compaction summary covers cp = Ok cp'"
    by (simp add: context_accept_def)
  then obtain sb where sb: "summary \<noteq> []" "hm_get (cp_settled_boundaries cp) covers = Some sb"
    "cp' = cp\<lparr>cp_latest_compaction :=
       Some \<lparr>cs_summary = summary, cs_covers_up_to = covers, cs_boundary = sb\<rparr>\<rparr>"
    by (rule accept_compaction_Ok)
  have "(covers, sb) \<in> set (cp_settled_boundaries cp)"
    using sb(2) assms(1) by (simp add: context_inv_def hm_get_Some_iff)
  with assms(1) sb context_inv_Suc [OF assms(1)] show ?thesis
    by (fastforce simp: context_inv_def boundary_ok_def)
qed (use assms context_inv_push context_inv_Suc in \<open>auto simp: context_accept_def\<close>)

lemma context_accept_not_panic: "context_accept e n cp \<noteq> Panic"
  by (auto simp: context_accept_def accept_compaction_def Let_def
      split: session_entry_kind.splits option.splits)

lemma context_messages_Ok:
  assumes "context_inv n cp"
  shows "context_messages_view cp = Ok (case cp_latest_compaction cp of
      None \<Rightarrow> cp_source_messages cp
    | Some c \<Rightarrow> CmSummary (cs_summary c) # drop (sb_message_count (cs_boundary c)) (cp_source_messages cp))"
  using assms
  by (auto simp: context_messages_view_def context_inv_def boundary_ok_def split: option.splits)

text \<open>Source messages are append-only.\<close>

lemma context_accept_appends:
  "context_accept e n cp = Ok cp' \<Longrightarrow>
    \<exists>ms. cp_source_messages cp' = cp_source_messages cp @ ms"
  by (cases "entry_kind e")
    (auto simp: context_accept_def push_message_def elim: accept_compaction_Ok)

end
