(* ===== verification/Session_Projection.thy ===== *)
theory Session_Projection
  imports Session_Lifecycle_Inv Session_Context
begin

text \<open>
  The validation core shared by every session store (\<^verbatim>\<open>philo-session/src/projection/mod.rs\<close> and
  \<^verbatim>\<open>transaction.rs\<close>): titles, the projection of a session, applying a transaction, replaying a
  committed one, and the context view.
\<close>

section \<open>Titles\<close>

definition title_override_max_chars :: nat where
  "title_override_max_chars = 200"

definition derived_title_max_chars :: nat where
  "derived_title_max_chars = 48"

definition derive_title :: "rstring \<Rightarrow> rstring option" where
  "derive_title text =
     (let normalized = join [32] (split_whitespace text)
      in if normalized = [] then None
         else if length normalized \<le> derived_title_max_chars then Some normalized
         else Some (take derived_title_max_chars normalized @ [8230]))"

definition title_is_valid :: "rstring \<Rightarrow> bool" where
  "title_is_valid title =
     (let trimmed = trim title
      in trimmed \<noteq> [] \<and> length trimmed \<le> title_override_max_chars
         \<and> \<not> list_ex is_control trimmed)"

section \<open>The projection\<close>

record session_projection =
  sp_revision :: session_revision
  sp_current_leaf :: "rstring option"
  sp_entry_count :: nat
  sp_lifecycle :: lifecycle
  sp_context :: context_projection
  sp_title_override :: "rstring option"

definition projection_empty :: session_projection where
  "projection_empty =
     \<lparr>sp_revision = revision_zero, sp_current_leaf = None, sp_entry_count = 0,
      sp_lifecycle = lifecycle_empty, sp_context = context_empty, sp_title_override = None\<rparr>"

record applied_transaction =
  at_entries :: "session_entry list"
  at_projection :: session_projection

definition applied_commit :: "applied_transaction \<Rightarrow> (session_commit, session_error) rres" where
  "applied_commit a =
     (case sp_current_leaf (at_projection a) of
        None \<Rightarrow> Panic
      | Some leaf \<Rightarrow>
          Ok \<lparr>commit_revision = sp_revision (at_projection a),
              commit_entries = at_entries a,
              commit_current_leaf = leaf\<rparr>)"

definition title :: "session_projection \<Rightarrow> rstring option" where
  "title sp =
     (case sp_title_override sp of
        Some t \<Rightarrow> Some t
      | None \<Rightarrow>
          (case cp_source_messages (sp_context sp) of
             CmUser parts # _ \<Rightarrow>
               find_map (\<lambda>part. case part of SText t \<Rightarrow> derive_title t | SImage _ _ \<Rightarrow> None) parts
           | _ \<Rightarrow> None))"

definition context_view ::
    "session_projection \<Rightarrow> rstring \<Rightarrow> (session_context_view, session_error) rres" where
  "context_view sp session_id =
     rbind (context_messages_view (sp_context sp)) (\<lambda>messages.
     rbind (open_turns (sp_lifecycle sp)) (\<lambda>opens.
       Ok \<lparr>view_session_id = session_id,
           view_revision = sp_revision sp,
           view_current_leaf = sp_current_leaf sp,
           view_title = title sp,
           view_messages = messages,
           view_open_turns = opens,
           view_settled_turns = settled_turns (sp_lifecycle sp),
           view_settled_turn_boundaries = settled_boundary_ids (sp_context sp),
           view_latest_compaction_boundary = latest_compaction_boundary (sp_context sp),
           view_latest_usage = cp_latest_usage (sp_context sp),
           view_latest_generation = cp_latest_generation (sp_context sp)\<rparr>))"

definition allocate_entry_id :: "session_projection \<Rightarrow> rstring \<Rightarrow> nat \<Rightarrow> rstring" where
  "allocate_entry_id sp session_id offset =
     session_id @ lit '':entry:'' @ dec (sp_entry_count sp + offset + 1)"

section \<open>Advancing by one transaction\<close>

definition validate_compaction_transaction :: "session_entry list \<Rightarrow> (unit, session_error) rres" where
  "validate_compaction_transaction entries =
     (let contains_compaction =
            list_ex (\<lambda>e. case entry_kind e of Compaction _ _ \<Rightarrow> True | _ \<Rightarrow> False) entries
      in if contains_compaction \<and> length entries \<noteq> 1 then validation InvalidCompactionTransaction
         else Ok ())"

definition accept_title ::
    "session_entry_kind \<Rightarrow> session_projection \<Rightarrow> (session_projection, session_error) rres" where
  "accept_title kind sp =
     (case kind of
        TitleSet t \<Rightarrow>
          if \<not> title_is_valid t then validation InvalidTitle
          else Ok (sp\<lparr>sp_title_override := Some (trim t)\<rparr>)
      | _ \<Rightarrow> Ok sp)"

text \<open>The body of the loop over a transaction's entries, with the index and the parent the entry
  must have.\<close>

definition advance_entry ::
    "nat \<Rightarrow> rstring option \<Rightarrow> session_entry \<Rightarrow> session_projection
      \<Rightarrow> (session_projection, session_error) rres" where
  "advance_entry index expected_parent entry sp =
     (if entry_parent entry \<noteq> expected_parent then validation (InvalidParent index)
      else
        rbind (accept_title (entry_kind entry) sp) (\<lambda>sp.
        rbind (lifecycle_accept (entry_kind entry) (sp_lifecycle sp)) (\<lambda>lc.
        rbind (context_accept entry (sp_entry_count sp) (sp_context sp)) (\<lambda>cp.
          Ok (sp\<lparr>sp_lifecycle := lc, sp_context := cp,
                 sp_entry_count := sp_entry_count sp + 1\<rparr>)))))"

fun advance_entries ::
    "nat \<Rightarrow> rstring option \<Rightarrow> session_entry list \<Rightarrow> session_projection
      \<Rightarrow> (session_projection, session_error) rres" where
  "advance_entries index expected_parent [] sp = Ok sp"
| "advance_entries index expected_parent (e # es) sp =
     rbind (advance_entry index expected_parent e sp)
       (advance_entries (Suc index) (Some (entry_id e)) es)"

definition advance_transaction ::
    "session_entry list \<Rightarrow> session_projection \<Rightarrow> (session_projection, session_error) rres" where
  "advance_transaction entries sp =
     (if entries = [] then validation EmptyTransaction
      else
        rbind (validate_compaction_transaction entries) (\<lambda>_.
        rbind (validate_transaction (sp_lifecycle sp) (map entry_kind entries)) (\<lambda>_.
        rbind (advance_entries 0 (sp_current_leaf sp) entries sp) (\<lambda>sp'.
        rbind (expect (last_opt entries)) (\<lambda>newest.
          Ok (sp'\<lparr>sp_current_leaf := Some (entry_id newest),
                  sp_revision := SessionRevision (revision_get (sp_revision sp') + 1)\<rparr>))))))"

lemma advance_transaction_eq:
  "advance_transaction entries sp =
     (if entries = [] then validation EmptyTransaction
      else
        rbind (validate_compaction_transaction entries) (\<lambda>_.
        rbind (validate_transaction (sp_lifecycle sp) (map entry_kind entries)) (\<lambda>_.
        rbind (advance_entries 0 (sp_current_leaf sp) entries sp) (\<lambda>sp'.
          Ok (sp'\<lparr>sp_current_leaf := Some (entry_id (last entries)),
                  sp_revision := SessionRevision (revision_get (sp_revision sp') + 1)\<rparr>)))))"
  by (simp add: advance_transaction_def)

definition replay ::
    "session_projection \<Rightarrow> session_entry list \<Rightarrow> (session_projection, session_error) rres" where
  "replay sp entries = advance_transaction entries sp"

section \<open>Applying a transaction\<close>

definition new_entry_parent_id ::
    "session_projection \<Rightarrow> session_entry list \<Rightarrow> new_session_entry \<Rightarrow> nat
      \<Rightarrow> (rstring option, session_error) rres" where
  "new_entry_parent_id sp committed new_entry index =
     (case ne_parent new_entry of
        CurrentLeaf \<Rightarrow>
          if index = 0 then Ok (sp_current_leaf sp) else validation (InvalidParent index)
      | TransactionEntry parent_index \<Rightarrow>
          if index > 0 \<and> parent_index = index - 1 then
            (if parent_index < length committed then Ok (Some (entry_id (committed ! parent_index)))
             else Panic)
          else validation (InvalidParent index))"

fun materialize ::
    "session_projection \<Rightarrow> rstring \<Rightarrow> nat \<Rightarrow> session_entry list \<Rightarrow> new_session_entry list
      \<Rightarrow> (session_entry list, session_error) rres" where
  "materialize sp session_id index committed [] = Ok committed"
| "materialize sp session_id index committed (n # ns) =
     rbind (new_entry_parent_id sp committed n index) (\<lambda>parent.
       materialize sp session_id (Suc index)
         (committed @ [\<lparr>entry_id = allocate_entry_id sp session_id index,
                         entry_parent = parent,
                         entry_kind = ne_kind n\<rparr>]) ns)"

definition apply_transaction ::
    "session_projection \<Rightarrow> session_transaction \<Rightarrow> (applied_transaction, session_error) rres" where
  "apply_transaction sp tx =
     (if tx_entries tx = [] then validation EmptyTransaction
      else if tx_current_leaf_index tx \<noteq> length (tx_entries tx) - 1 then
        validation InvalidCurrentLeaf
      else
        rbind (materialize sp (tx_session_id tx) 0 [] (tx_entries tx)) (\<lambda>committed.
        rbind (advance_transaction committed sp) (\<lambda>next.
          Ok \<lparr>at_entries = committed, at_projection = next\<rparr>)))"

end
