(* ===== verification/Session_Projection_Inv.thy ===== *)
theory Session_Projection_Inv
  imports Session_Projection
begin

text \<open>
  The invariant of the session projection, and histories: a session's committed transactions, in
  order, with the projection they lead to. The lemmas show that every committed transaction keeps
  the invariant, that no operation panics under it, that replaying a history rebuilds the
  projection, and that entry identifiers are fresh and chained.
\<close>

section \<open>One transaction\<close>

definition projection_inv :: "session_projection \<Rightarrow> bool" where
  "projection_inv sp \<longleftrightarrow>
     lifecycle_inv (sp_lifecycle sp) \<and> lifecycle_atomic (sp_lifecycle sp)
     \<and> context_inv (sp_entry_count sp) (sp_context sp)
     \<and> (\<forall>t. sp_title_override sp = Some t \<longrightarrow> title_is_valid t \<and> trim t = t)
     \<and> (sp_current_leaf sp = None \<longleftrightarrow> sp_entry_count sp = 0)"

lemma projection_inv_empty [simp]: "projection_inv projection_empty"
  by (simp add: projection_inv_def projection_empty_def)

lemma accept_title_Ok:
  "accept_title k sp = Ok sp' \<Longrightarrow>
    (\<exists>t. k = TitleSet t \<and> title_is_valid t \<and> sp' = sp\<lparr>sp_title_override := Some (trim t)\<rparr>) \<or> sp' = sp"
  by (auto simp: accept_title_def split: session_entry_kind.splits if_split_asm)

lemma title_is_valid_trim: "title_is_valid (trim t) = title_is_valid t"
  by (simp add: title_is_valid_def)

text \<open>What one iteration of the loop does.\<close>

lemma advance_entry_Ok:
  assumes "advance_entry i p e sp = Ok sp'"
  shows "entry_parent e = p"
    and "lifecycle_accept (entry_kind e) (sp_lifecycle sp) = Ok (sp_lifecycle sp')"
    and "context_accept e (sp_entry_count sp) (sp_context sp) = Ok (sp_context sp')"
    and "sp_entry_count sp' = Suc (sp_entry_count sp)"
    and "sp_current_leaf sp' = sp_current_leaf sp" and "sp_revision sp' = sp_revision sp"
    and "\<And>t. sp_title_override sp' = Some t \<Longrightarrow>
      sp_title_override sp = Some t \<or> title_is_valid t \<and> trim t = t"
  using assms
  by (auto simp: advance_entry_def rres_simps title_is_valid_trim split: if_split_asm
      dest!: accept_title_Ok)

lemma advance_entries_Ok:
  assumes "advance_entries i p es sp = Ok sp'"
  shows "rfold lifecycle_accept (map entry_kind es) (sp_lifecycle sp) = Ok (sp_lifecycle sp')"
    and "sp_entry_count sp' = sp_entry_count sp + length es"
    and "sp_current_leaf sp' = sp_current_leaf sp" and "sp_revision sp' = sp_revision sp"
    and "context_inv (sp_entry_count sp) (sp_context sp) \<Longrightarrow>
      context_inv (sp_entry_count sp') (sp_context sp')"
    and "\<exists>ms. cp_source_messages (sp_context sp') = cp_source_messages (sp_context sp) @ ms"
    and "\<And>t. sp_title_override sp' = Some t \<Longrightarrow>
      sp_title_override sp = Some t \<or> title_is_valid t \<and> trim t = t"
  using assms
proof (induction es arbitrary: i p sp)
  case (Cons e es)
  {
    case 1
    then show ?case using Cons.IH(1) by (auto simp: rres_simps dest: advance_entry_Ok)
  next
    case 2
    then show ?case using Cons.IH(2) by (auto simp: rres_simps dest: advance_entry_Ok)
  next
    case 3
    then show ?case using Cons.IH(3) by (auto simp: rres_simps dest: advance_entry_Ok)
  next
    case 4
    then show ?case using Cons.IH(4) by (auto simp: rres_simps dest: advance_entry_Ok)
  next
    case 5
    from 5(2) obtain sp1 where sp1: "advance_entry i p e sp = Ok sp1"
      "advance_entries (Suc i) (Some (entry_id e)) es sp1 = Ok sp'"
      by (auto simp: rres_simps)
    have "context_inv (sp_entry_count sp1) (sp_context sp1)"
      using context_accept_inv [OF 5(1) advance_entry_Ok(3) [OF sp1(1)]]
        advance_entry_Ok(4) [OF sp1(1)] by simp
    then show ?case using Cons.IH(5) [OF _ sp1(2)] by simp
  next
    case 6
    from 6(1) obtain sp1 where sp1: "advance_entry i p e sp = Ok sp1"
      "advance_entries (Suc i) (Some (entry_id e)) es sp1 = Ok sp'"
      by (auto simp: rres_simps)
    from context_accept_appends [OF advance_entry_Ok(3) [OF sp1(1)]] Cons.IH(6) [OF sp1(2)]
    show ?case by auto
  next
    case (7 t)
    from 7(2) obtain sp1 where sp1: "advance_entry i p e sp = Ok sp1"
      "advance_entries (Suc i) (Some (entry_id e)) es sp1 = Ok sp'"
      by (auto simp: rres_simps)
    from Cons.IH(7) [OF 7(1) sp1(2)] advance_entry_Ok(7) [OF sp1(1), of t] show ?case by blast
  }
qed simp_all

lemma advance_transaction_Ok:
  assumes "advance_transaction es sp = Ok sp'"
  obtains sp1 where "es \<noteq> []" "validate_compaction_transaction es = Ok ()"
    "validate_transaction (sp_lifecycle sp) (map entry_kind es) = Ok ()"
    "advance_entries 0 (sp_current_leaf sp) es sp = Ok sp1"
    "sp' = sp1\<lparr>sp_current_leaf := Some (entry_id (last es)),
               sp_revision := SessionRevision (revision_get (sp_revision sp) + 1)\<rparr>"
proof -
  from assms have ne: "es \<noteq> []" by (auto simp: advance_transaction_eq)
  with assms obtain sp1 where sp1: "validate_compaction_transaction es = Ok ()"
    "validate_transaction (sp_lifecycle sp) (map entry_kind es) = Ok ()"
    "advance_entries 0 (sp_current_leaf sp) es sp = Ok sp1"
    "sp' = sp1\<lparr>sp_current_leaf := Some (entry_id (last es)),
               sp_revision := SessionRevision (revision_get (sp_revision sp1) + 1)\<rparr>"
    by (auto simp: advance_transaction_eq rres_simps)
  with advance_entries_Ok(4) [OF sp1(3)] ne that show thesis by simp
qed

theorem advance_transaction_inv:
  assumes "projection_inv sp" and "advance_transaction es sp = Ok sp'"
  shows "projection_inv sp'"
proof -
  from assms(2) obtain sp1 where sp1: "es \<noteq> []"
    "validate_transaction (sp_lifecycle sp) (map entry_kind es) = Ok ()"
    "advance_entries 0 (sp_current_leaf sp) es sp = Ok sp1"
    "sp' = sp1\<lparr>sp_current_leaf := Some (entry_id (last es)),
               sp_revision := SessionRevision (revision_get (sp_revision sp) + 1)\<rparr>"
    by (rule advance_transaction_Ok)
  note ok = advance_entries_Ok [OF sp1(3)]
  have "lifecycle_inv (sp_lifecycle sp1)"
    using assms(1) ok(1) lifecycle_fold_inv by (auto simp: projection_inv_def)
  moreover have "lifecycle_atomic (sp_lifecycle sp1)"
    using assms(1) ok(1) sp1(2) lifecycle_transaction_atomic by (auto simp: projection_inv_def)
  moreover have "context_inv (sp_entry_count sp1) (sp_context sp1)"
    using assms(1) ok(5) by (auto simp: projection_inv_def)
  moreover have "\<forall>t. sp_title_override sp1 = Some t \<longrightarrow> title_is_valid t \<and> trim t = t"
    using assms(1) ok(7) by (auto simp: projection_inv_def)
  ultimately show ?thesis
    using ok(2) sp1(1,4) by (auto simp: projection_inv_def)
qed

section \<open>No panics\<close>

lemma advance_entry_not_panic: "advance_entry i p e sp \<noteq> Panic"
  by (auto simp: advance_entry_def rres_simps accept_title_def lifecycle_accept_not_panic
      context_accept_not_panic split: session_entry_kind.splits)

lemma advance_entries_not_panic: "advance_entries i p es sp \<noteq> Panic"
  by (induction es arbitrary: i p sp) (auto simp: rres_simps advance_entry_not_panic)

lemma advance_transaction_not_panic:
  "projection_inv sp \<Longrightarrow> advance_transaction es sp \<noteq> Panic"
  using validate_transaction_not_panic [of "sp_lifecycle sp"]
  by (auto simp: advance_transaction_eq rres_simps advance_entries_not_panic projection_inv_def
      validate_compaction_transaction_def Let_def)

lemma materialize_not_panic: "materialize sp sid (length committed) committed ns \<noteq> Panic"
proof (induction ns arbitrary: committed)
  case (Cons n ns)
  have "materialize sp sid (Suc (length committed)) (committed @ [e]) ns \<noteq> Panic" for e
    using Cons.IH [of "committed @ [e]"] by simp
  moreover have "new_entry_parent_id sp committed n (length committed) \<noteq> Panic"
    by (auto simp: new_entry_parent_id_def split: new_entry_parent.splits)
  ultimately show ?case
    by (auto simp: rres_simps)
qed simp

lemma apply_transaction_not_panic:
  "projection_inv sp \<Longrightarrow> apply_transaction sp tx \<noteq> Panic"
  using materialize_not_panic [of sp "tx_session_id tx" "[]"]
  by (auto simp: apply_transaction_def rres_simps advance_transaction_not_panic)

lemma context_view_Ok:
  assumes "projection_inv sp"
  shows "\<exists>v. context_view sp sid = Ok v"
proof -
  have "lifecycle_inv (sp_lifecycle sp)" and "context_inv (sp_entry_count sp) (sp_context sp)"
    using assms by (auto simp: projection_inv_def)
  with open_turns_Ok context_messages_Ok show ?thesis
    by (fastforce simp: context_view_def)
qed

section \<open>Materialised entries\<close>

text \<open>A chain of entries: each entry's parent is the entry before it.\<close>

fun chained :: "rstring option \<Rightarrow> session_entry list \<Rightarrow> bool" where
  "chained p [] = True"
| "chained p (e # es) = (entry_parent e = p \<and> chained (Some (entry_id e)) es)"

definition chain_end :: "rstring option \<Rightarrow> session_entry list \<Rightarrow> rstring option" where
  "chain_end p es = (if es = [] then p else Some (entry_id (last es)))"

lemma chained_append: "chained p (xs @ ys) \<longleftrightarrow> chained p xs \<and> chained (chain_end p xs) ys"
  by (induction xs arbitrary: p) (auto simp: chain_end_def)

lemma advance_entries_chained: "advance_entries i p es sp = Ok sp' \<Longrightarrow> chained p es"
  by (induction es arbitrary: i p sp) (auto simp: rres_simps dest: advance_entry_Ok(1))

definition entry_name :: "rstring \<Rightarrow> nat \<Rightarrow> rstring" where
  "entry_name sid n = sid @ lit '':entry:'' @ dec n"

lemma entry_name_inject [simp]: "entry_name sid m = entry_name sid n \<longleftrightarrow> m = n"
  by (simp add: entry_name_def)

lemma materialize_ids:
  assumes "materialize sp sid index committed ns = Ok es"
  shows "map entry_id es = map entry_id committed @
      map (\<lambda>j. entry_name sid (sp_entry_count sp + j + 1)) [index..<index + length ns]"
    and "map entry_kind es = map entry_kind committed @ map ne_kind ns"
  using assms
proof (induction ns arbitrary: index committed)
  case (Cons n ns)
  {
    case 1
    then obtain p where "materialize sp sid (Suc index) (committed @
        [\<lparr>entry_id = allocate_entry_id sp sid index, entry_parent = p, entry_kind = ne_kind n\<rparr>]) ns = Ok es"
      by (auto simp: rres_simps)
    from Cons.IH(1) [OF this] show ?case
      by (simp add: allocate_entry_id_def entry_name_def upt_conv_Cons [of index] del: upt_Suc)
  next
    case 2
    then show ?case using Cons.IH(2) by (auto simp: rres_simps)
  }
qed simp_all

section \<open>Histories\<close>

inductive session_history :: "rstring \<Rightarrow> session_entry list list \<Rightarrow> session_projection \<Rightarrow> bool"
  for sid where
  history_start: "session_history sid [] projection_empty"
| history_commit: "session_history sid h sp \<Longrightarrow> tx_session_id tx = sid \<Longrightarrow>
    apply_transaction sp tx = Ok a \<Longrightarrow> session_history sid (h @ [at_entries a]) (at_projection a)"

lemma apply_transaction_Ok:
  assumes "apply_transaction sp tx = Ok a"
  shows "materialize sp (tx_session_id tx) 0 [] (tx_entries tx) = Ok (at_entries a)"
    and "advance_transaction (at_entries a) sp = Ok (at_projection a)"
    and "tx_entries tx \<noteq> []"
  using assms by (auto simp: apply_transaction_def rres_simps split: if_split_asm)

lemma history_inv: "session_history sid h sp \<Longrightarrow> projection_inv sp"
  by (induction rule: session_history.induct)
    (auto dest: apply_transaction_Ok intro: advance_transaction_inv)

lemma history_replay:
  "session_history sid h sp \<Longrightarrow> rfold (\<lambda>es sp. replay sp es) h projection_empty = Ok sp"
proof (induction rule: session_history.induct)
  case (history_commit h sp tx a)
  then show ?case
    by (simp add: rfold_append replay_def apply_transaction_Ok)
qed simp

lemma upt_Suc_append_shift:
  "[Suc 0..<Suc (n + k)] = [Suc 0..<Suc n] @ map (\<lambda>j. Suc (n + j)) [0..<k]"
  by (induction k) simp_all

lemma history_facts:
  assumes "session_history sid h sp"
  shows "map entry_id (concat h) = map (entry_name sid) [1..<Suc (sp_entry_count sp)]"
    and "chained None (concat h)" and "chain_end None (concat h) = sp_current_leaf sp"
    and "sp_revision sp = SessionRevision (of_nat (length h))"
  using assms
proof (induction rule: session_history.induct)
  case history_start
  {
    case 1 show ?case by (simp add: projection_empty_def)
  next
    case 2 show ?case by simp
  next
    case 3 show ?case by (simp add: chain_end_def projection_empty_def)
  next
    case 4 show ?case by (simp add: projection_empty_def revision_zero_def)
  }
next
  case (history_commit h sp tx a)
  let ?es = "at_entries a"
  note ok = apply_transaction_Ok [OF history_commit.hyps(3)]
  from ok(2) obtain sp1 where sp1: "?es \<noteq> []"
    "advance_entries 0 (sp_current_leaf sp) ?es sp = Ok sp1"
    "at_projection a = sp1\<lparr>sp_current_leaf := Some (entry_id (last ?es)),
       sp_revision := SessionRevision (revision_get (sp_revision sp) + 1)\<rparr>"
    by (rule advance_transaction_Ok)
  have ids: "map entry_id ?es =
      map (\<lambda>j. entry_name sid (sp_entry_count sp + j + 1)) [0..<length (tx_entries tx)]"
    using materialize_ids(1) [OF ok(1)] history_commit.hyps(2) by simp
  then have len: "length ?es = length (tx_entries tx)"
    by (metis length_map length_upt minus_nat.diff_0)
  have count: "sp_entry_count (at_projection a) = sp_entry_count sp + length ?es"
    using advance_entries_Ok(2) [OF sp1(2)] sp1(3) by simp
  {
    case 1
    from history_commit.IH(1) ids count len show ?case
      by (simp add: upt_Suc_append_shift comp_def del: upt_Suc)
  next
    case 2
    then show ?case
      using history_commit.IH(2,3) advance_entries_chained [OF sp1(2)] by (simp add: chained_append)
  next
    case 3
    then show ?case using sp1 by (simp add: chain_end_def)
  next
    case 4
    then show ?case using history_commit.IH(4) sp1(3) by simp
  }
qed

end
