(* ===== verification/Session_Store.thy ===== *)
theory Session_Store
  imports Session_Projection_Inv
begin

text \<open>
  The store contract (\<^verbatim>\<open>philo-session/src/store.rs\<close>) as a pair of locales, the in-memory backend
  (\<^verbatim>\<open>memory.rs\<close>) as their interpretation, and what every client of the contract may rely on:
  optimistic concurrency, isolation of sessions and the replayable history behind every view.

  A store is a state with two operations. \<open>contents\<close> is the abstract state behind it, one
  projection per session; an unknown session is the empty projection. The first locale has the
  safety half of the contract, which a backend that may be unavailable also keeps; the second
  adds that the backend answers.
\<close>

section \<open>The contract\<close>

type_synonym 's store_view = "'s \<Rightarrow> rstring \<Rightarrow> (session_context_view, session_error) rres"
type_synonym 's store_commit =
  "'s \<Rightarrow> session_transaction \<Rightarrow> (session_commit, session_error) rres \<times> 's"

locale session_store =
  fixes view :: "'s store_view" and commit :: "'s store_commit"
    and store_inv :: "'s \<Rightarrow> bool" and contents :: "'s \<Rightarrow> rstring \<Rightarrow> session_projection"
  assumes contents_history: "store_inv s \<Longrightarrow> \<exists>h. session_history sid h (contents s sid)"
    and commit_inv: "store_inv s \<Longrightarrow> store_inv (snd (commit s tx))"
    and commit_ok: "store_inv s \<Longrightarrow> commit s tx = (Ok c, s') \<Longrightarrow>
      tx_expected_revision tx = sp_revision (contents s (tx_session_id tx)) \<and>
      (\<exists>a. apply_transaction (contents s (tx_session_id tx)) tx = Ok a \<and> applied_commit a = Ok c
         \<and> contents s' = (contents s)(tx_session_id tx := at_projection a))"
    and commit_err: "store_inv s \<Longrightarrow> commit s tx = (Err e, s') \<Longrightarrow> contents s' = contents s"
    and commit_no_panic: "store_inv s \<Longrightarrow> fst (commit s tx) \<noteq> Panic"
    and view_ok: "store_inv s \<Longrightarrow> view s sid = Ok v \<Longrightarrow> context_view (contents s sid) sid = Ok v"
    and view_no_panic: "store_inv s \<Longrightarrow> view s sid \<noteq> Panic"

locale available_session_store = session_store +
  assumes view_available: "store_inv s \<Longrightarrow> view s sid = context_view (contents s sid) sid"
    and commit_stale: "store_inv s \<Longrightarrow>
      tx_expected_revision tx \<noteq> sp_revision (contents s (tx_session_id tx)) \<Longrightarrow>
      commit s tx = (Err (RevisionConflict (tx_expected_revision tx)
        (sp_revision (contents s (tx_session_id tx)))), s)"
    and commit_available: "store_inv s \<Longrightarrow>
      tx_expected_revision tx = sp_revision (contents s (tx_session_id tx)) \<Longrightarrow>
      apply_transaction (contents s (tx_session_id tx)) tx = Ok a \<Longrightarrow>
      \<exists>c s'. commit s tx = (Ok c, s')"

section \<open>What clients rely on\<close>

text \<open>A sequence of commits, whatever their results.\<close>

fun commit_all :: "'s store_commit \<Rightarrow> 's \<Rightarrow> session_transaction list \<Rightarrow> 's" where
  "commit_all commit s [] = s"
| "commit_all commit s (tx # txs) = commit_all commit (snd (commit s tx)) txs"

context session_store
begin

lemma contents_inv: "store_inv s \<Longrightarrow> projection_inv (contents s sid)"
  using contents_history history_inv by blast

lemma commit_cases:
  assumes "store_inv s"
  obtains (committed) c a s' where "commit s tx = (Ok c, s')"
      "tx_expected_revision tx = sp_revision (contents s (tx_session_id tx))"
      "apply_transaction (contents s (tx_session_id tx)) tx = Ok a" "applied_commit a = Ok c"
      "contents s' = (contents s)(tx_session_id tx := at_projection a)"
    | (refused) e s' where "commit s tx = (Err e, s')" "contents s' = contents s"
proof (cases "commit s tx")
  case (Pair r s')
  then show thesis
    using assms commit_ok commit_err commit_no_panic [OF assms, of tx] committed refused
    by (cases r) (metis, metis, simp)
qed

lemma commit_all_inv: "store_inv s \<Longrightarrow> store_inv (commit_all commit s txs)"
  by (induction txs arbitrary: s) (simp_all add: commit_inv)

lemma commit_other_session:
  "store_inv s \<Longrightarrow> tx_session_id tx \<noteq> sid \<Longrightarrow> contents (snd (commit s tx)) sid = contents s sid"
  by (cases rule: commit_cases [of s tx]) auto

lemma commit_all_other_session:
  "store_inv s \<Longrightarrow> \<forall>tx \<in> set txs. tx_session_id tx \<noteq> sid \<Longrightarrow>
    contents (commit_all commit s txs) sid = contents s sid"
  by (induction txs arbitrary: s) (simp_all add: commit_inv commit_other_session)

lemma commit_revision:
  assumes "store_inv s" "commit s tx = (Ok c, s')"
  shows "commit_revision c = revision_next (tx_expected_revision tx)"
    and "sp_revision (contents s' (tx_session_id tx)) = revision_next (tx_expected_revision tx)"
proof -
  from commit_ok [OF assms] obtain a where a: "apply_transaction (contents s (tx_session_id tx)) tx = Ok a"
    "applied_commit a = Ok c" "contents s' = (contents s)(tx_session_id tx := at_projection a)"
    "tx_expected_revision tx = sp_revision (contents s (tx_session_id tx))"
    by blast
  then have "sp_revision (at_projection a) = revision_next (tx_expected_revision tx)"
    using apply_transaction_Ok(2) [OF a(1)]
    by (auto simp: revision_next_def elim!: advance_transaction_Ok)
  with a show "commit_revision c = revision_next (tx_expected_revision tx)"
    "sp_revision (contents s' (tx_session_id tx)) = revision_next (tx_expected_revision tx)"
    by (auto simp: applied_commit_def split: option.split_asm)
qed

lemma commit_twice:
  assumes "store_inv s" "commit s tx = (Ok c, s')"
    and "tx_session_id tx' = tx_session_id tx" "tx_expected_revision tx' = tx_expected_revision tx"
  shows "fst (commit s' tx') \<noteq> Ok c'"
proof
  assume "fst (commit s' tx') = Ok c'"
  then obtain s2 where c2: "commit s' tx' = (Ok c', s2)" by (metis prod.collapse)
  have "store_inv s'" using commit_inv [OF assms(1), of tx] assms(2) by simp
  from commit_ok [OF this c2] commit_revision(2) [OF assms(1,2)] assms(3,4)
  show False by (metis revision_next_neq)
qed

end

section \<open>The in-memory backend\<close>

text \<open>The mutex is the flag that it is poisoned: a panic while it is held poisons it, and then
  every operation reports that the store is unavailable.\<close>

record memory_session_store =
  mem_sessions :: "(rstring, session_projection) hashmap"
  mem_poisoned :: bool

definition memory_new :: memory_session_store where
  "memory_new = \<lparr>mem_sessions = [], mem_poisoned = False\<rparr>"

definition unavailable :: session_error where
  "unavailable = StoreUnavailable (lit ''in-memory session store mutex poisoned'')"

definition memory_projection :: "memory_session_store \<Rightarrow> rstring \<Rightarrow> session_projection" where
  "memory_projection s sid =
     (case hm_get (mem_sessions s) sid of None \<Rightarrow> projection_empty | Some p \<Rightarrow> p)"

definition memory_context_view :: "memory_session_store store_view" where
  "memory_context_view s sid =
     (if mem_poisoned s then Err unavailable else context_view (memory_projection s sid) sid)"

definition memory_commit :: "memory_session_store store_commit" where
  "memory_commit s tx =
     (if mem_poisoned s then (Err unavailable, s)
      else
        (let projection = memory_projection s (tx_session_id tx) in
         if tx_expected_revision tx \<noteq> sp_revision projection then
           (Err (RevisionConflict (tx_expected_revision tx) (sp_revision projection)), s)
         else case apply_transaction projection tx of
             Err e \<Rightarrow> (Err e, s)
           | Panic \<Rightarrow> (Panic, s\<lparr>mem_poisoned := True\<rparr>)
           | Ok applied \<Rightarrow>
               (case applied_commit applied of
                  Ok c \<Rightarrow> (Ok c, s\<lparr>mem_sessions :=
                            hm_insert (tx_session_id tx) (at_projection applied) (mem_sessions s)\<rparr>)
                | Err e \<Rightarrow> (Err e, s)
                | Panic \<Rightarrow> (Panic, s\<lparr>mem_poisoned := True\<rparr>))))"

definition memory_list_sessions :: "memory_session_store \<Rightarrow> (rstring list, session_error) rres" where
  "memory_list_sessions s = (if mem_poisoned s then Err unavailable else Ok (hm_keys (mem_sessions s)))"

definition memory_list_session_summaries ::
    "memory_session_store \<Rightarrow> (session_summary list, session_error) rres" where
  "memory_list_session_summaries s =
     (if mem_poisoned s then Err unavailable
      else Ok (map (\<lambda>(session_id, projection).
                 \<lparr>sum_session_id = session_id, sum_title = title projection, sum_updated_at = None\<rparr>)
               (mem_sessions s)))"

definition memory_inv :: "memory_session_store \<Rightarrow> bool" where
  "memory_inv s \<longleftrightarrow>
     \<not> mem_poisoned s \<and> hm_wf (mem_sessions s)
     \<and> (\<forall>sid sp. hm_get (mem_sessions s) sid = Some sp \<longrightarrow> (\<exists>h. session_history sid h sp))"

lemma memory_inv_new [simp]: "memory_inv memory_new"
  by (simp add: memory_inv_def memory_new_def)

lemma memory_history: "memory_inv s \<Longrightarrow> \<exists>h. session_history sid h (memory_projection s sid)"
  using session_history.history_start [of sid]
  by (auto simp: memory_inv_def memory_projection_def split: option.split)

lemma applied_commit_Ok:
  assumes "apply_transaction sp tx = Ok a"
  shows "\<exists>c. applied_commit a = Ok c \<and> commit_entries c = at_entries a
    \<and> commit_revision c = sp_revision (at_projection a)"
  using apply_transaction_Ok(2) [OF assms]
  by (auto simp: applied_commit_def elim!: advance_transaction_Ok)

lemma memory_commit_Ok:
  assumes "memory_inv s" and "tx_expected_revision tx = sp_revision (memory_projection s (tx_session_id tx))"
    and "apply_transaction (memory_projection s (tx_session_id tx)) tx = Ok a"
    and "applied_commit a = Ok c"
  shows "memory_commit s tx = (Ok c, s\<lparr>mem_sessions :=
      hm_insert (tx_session_id tx) (at_projection a) (mem_sessions s)\<rparr>)"
  using assms by (simp add: memory_commit_def memory_inv_def)

lemma memory_commit_cases:
  assumes "memory_inv s"
  obtains (committed) a c where
      "tx_expected_revision tx = sp_revision (memory_projection s (tx_session_id tx))"
      "apply_transaction (memory_projection s (tx_session_id tx)) tx = Ok a" "applied_commit a = Ok c"
      "memory_commit s tx = (Ok c, s\<lparr>mem_sessions :=
         hm_insert (tx_session_id tx) (at_projection a) (mem_sessions s)\<rparr>)"
    | (refused) e where "memory_commit s tx = (Err e, s)"
proof (cases "tx_expected_revision tx = sp_revision (memory_projection s (tx_session_id tx))")
  case True
  have "projection_inv (memory_projection s (tx_session_id tx))"
    using memory_history [OF assms] history_inv by blast
  note np = apply_transaction_not_panic [OF this, of tx]
  show thesis
  proof (cases "apply_transaction (memory_projection s (tx_session_id tx)) tx")
    case (Ok a)
    then show thesis
      using applied_commit_Ok [OF Ok] memory_commit_Ok [OF assms True] committed True by blast
  next
    case (Err e)
    with True assms refused show thesis by (simp add: memory_commit_def memory_inv_def)
  qed (use np in simp)
next
  case False
  with assms refused show thesis by (simp add: memory_commit_def memory_inv_def)
qed

lemma memory_projection_insert:
  "memory_projection (s\<lparr>mem_sessions := hm_insert sid sp (mem_sessions s)\<rparr>) =
     (memory_projection s)(sid := sp)"
  by (auto simp: memory_projection_def fun_eq_iff)

lemma memory_commit_inv:
  assumes "memory_inv s"
  shows "memory_inv (snd (memory_commit s tx))"
  using assms
proof (cases rule: memory_commit_cases [of s tx])
  case (committed a c)
  obtain h where "session_history (tx_session_id tx) h (memory_projection s (tx_session_id tx))"
    using memory_history [OF assms] by blast
  then have "session_history (tx_session_id tx) (h @ [at_entries a]) (at_projection a)"
    using committed(2) by (intro session_history.history_commit) simp_all
  with assms committed(4) show ?thesis
    by (auto simp: memory_inv_def)
qed (use assms in simp)

interpretation memory: available_session_store memory_context_view memory_commit memory_inv
  memory_projection
proof
  fix s sid assume "memory_inv s"
  then show "\<exists>h. session_history sid h (memory_projection s sid)" by (rule memory_history)
next
  fix s tx assume "memory_inv s"
  then show "memory_inv (snd (memory_commit s tx))" by (rule memory_commit_inv)
next
  fix s tx c s' assume "memory_inv s" "memory_commit s tx = (Ok c, s')"
  then show "tx_expected_revision tx = sp_revision (memory_projection s (tx_session_id tx)) \<and>
      (\<exists>a. apply_transaction (memory_projection s (tx_session_id tx)) tx = Ok a \<and> applied_commit a = Ok c
         \<and> memory_projection s' = (memory_projection s)(tx_session_id tx := at_projection a))"
    by (cases rule: memory_commit_cases [of s tx]) (auto simp: memory_projection_insert)
next
  fix s tx e s' assume "memory_inv s" "memory_commit s tx = (Err e, s')"
  then show "memory_projection s' = memory_projection s"
    by (cases rule: memory_commit_cases [of s tx]) auto
next
  fix s tx assume "memory_inv s"
  then show "fst (memory_commit s tx) \<noteq> Panic"
    by (cases rule: memory_commit_cases [of s tx]) auto
next
  fix s sid v assume "memory_inv s" "memory_context_view s sid = Ok v"
  then show "context_view (memory_projection s sid) sid = Ok v"
    by (simp add: memory_context_view_def memory_inv_def)
next
  fix s sid assume inv: "memory_inv s"
  then have "projection_inv (memory_projection s sid)"
    using memory_history history_inv by blast
  from context_view_Ok [OF this, of sid] inv show "memory_context_view s sid \<noteq> Panic"
    by (auto simp: memory_context_view_def memory_inv_def)
next
  fix s sid assume "memory_inv s"
  then show "memory_context_view s sid = context_view (memory_projection s sid) sid"
    by (simp add: memory_context_view_def memory_inv_def)
next
  fix s and tx :: session_transaction
  assume "memory_inv s" "tx_expected_revision tx \<noteq> sp_revision (memory_projection s (tx_session_id tx))"
  then show "memory_commit s tx = (Err (RevisionConflict (tx_expected_revision tx)
        (sp_revision (memory_projection s (tx_session_id tx)))), s)"
    by (simp add: memory_commit_def memory_inv_def)
next
  fix s a and tx :: session_transaction
  assume "memory_inv s" "tx_expected_revision tx = sp_revision (memory_projection s (tx_session_id tx))"
    "apply_transaction (memory_projection s (tx_session_id tx)) tx = Ok a"
  then show "\<exists>c s'. memory_commit s tx = (Ok c, s')"
    using applied_commit_Ok memory_commit_Ok by blast
qed

end
