(* ===== verification/Session_Context_Spec.thy ===== *)
theory Session_Context_Spec
  imports Session_Projection_Inv "HOL-Library.Multiset"
begin

text \<open>
  What the model-visible part of a view means, stated over the committed entries alone: the
  messages are the messages of all entries, or the newest compaction's summary followed by the
  messages after the entry it covers; the boundaries are the settled operations in order; the
  usage and the generation are those of the last settled operation. The incremental projection
  computes this specification.
\<close>

section \<open>The specification\<close>

fun entry_message :: "session_entry_kind \<Rightarrow> context_message option" where
  "entry_message (UserMessage _ parts) = Some (CmUser parts)"
| "entry_message (AssistantMessage _ blocks) = Some (CmAssistant blocks)"
| "entry_message (AssistantToolCallBatch _ _ b blocks) = Some (CmAssistantToolCalls b blocks)"
| "entry_message (ToolResult _ _ r) = Some (CmToolResult (sresult_call_id r) (sresult_outcome r))"
| "entry_message _ = None"

definition messages_of :: "session_entry list \<Rightarrow> context_message list" where
  "messages_of es = List.map_filter (\<lambda>e. entry_message (entry_kind e)) es"

fun settled_kind :: "session_entry_kind \<Rightarrow> bool" where
  "settled_kind (OperationSettled _ _ _ _) = True"
| "settled_kind _ = False"

abbreviation is_settled :: "session_entry \<Rightarrow> bool" where
  "is_settled e \<equiv> settled_kind (entry_kind e)"

fun compaction_kind :: "session_entry_kind \<Rightarrow> (rstring \<times> rstring) option" where
  "compaction_kind (Compaction summary covers) = Some (summary, covers)"
| "compaction_kind _ = None"

definition last_compaction :: "session_entry list \<Rightarrow> (rstring \<times> rstring) option" where
  "last_compaction es = find_map (\<lambda>e. compaction_kind (entry_kind e)) (rev es)"

definition entries_after :: "rstring \<Rightarrow> session_entry list \<Rightarrow> session_entry list" where
  "entries_after i es = tl (dropWhile (\<lambda>e. entry_id e \<noteq> i) es)"

definition visible_messages :: "session_entry list \<Rightarrow> context_message list" where
  "visible_messages es =
     (case last_compaction es of
        None \<Rightarrow> messages_of es
      | Some (summary, covers) \<Rightarrow> CmSummary summary # messages_of (entries_after covers es))"

lemma messages_of_append [simp]: "messages_of (xs @ ys) = messages_of xs @ messages_of ys"
  by (simp add: messages_of_def map_filter_append)

lemma messages_of_single: "messages_of [e] = (case entry_message (entry_kind e) of None \<Rightarrow> [] | Some m \<Rightarrow> [m])"
  by (simp add: messages_of_def List.map_filter_simps split: option.split)

lemma last_compaction_snoc:
  "last_compaction (es @ [e]) = (case compaction_kind (entry_kind e) of
     Some c \<Rightarrow> Some c | None \<Rightarrow> last_compaction es)"
  by (simp add: last_compaction_def split: option.split)

section \<open>The simulation\<close>

definition boundary_at :: "session_entry list \<Rightarrow> nat \<Rightarrow> settled_boundary" where
  "boundary_at es i = \<lparr>sb_entry_ordinal = i, sb_message_count = length (messages_of (take i es))\<rparr>"

definition boundaries_of :: "session_entry list \<Rightarrow> (rstring, settled_boundary) hashmap" where
  "boundaries_of es =
     map (\<lambda>i. (entry_id (es ! i), boundary_at es i)) (filter (\<lambda>i. is_settled (es ! i)) [0..<length es])"

fun usage_of :: "session_entry_kind \<Rightarrow> session_token_usage option" where
  "usage_of (OperationSettled _ _ u _) = u"
| "usage_of _ = None"

fun generation_of :: "session_entry_kind \<Rightarrow> session_generation_choice option" where
  "generation_of (OperationSettled _ _ _ g) = g"
| "generation_of _ = None"

definition last_settled :: "session_entry list \<Rightarrow> session_entry option" where
  "last_settled es = find is_settled (rev es)"

definition context_of :: "session_entry list \<Rightarrow> context_projection \<Rightarrow> bool" where
  "context_of es cp \<longleftrightarrow>
     cp_source_messages cp = messages_of es
     \<and> cp_settled_boundaries cp = boundaries_of es
     \<and> map_option (\<lambda>c. (cs_summary c, cs_covers_up_to c)) (cp_latest_compaction cp) = last_compaction es
     \<and> (\<forall>c. cp_latest_compaction cp = Some c \<longrightarrow>
          (\<exists>i < length es. is_settled (es ! i) \<and> entry_id (es ! i) = cs_covers_up_to c
             \<and> cs_boundary c = boundary_at es i))
     \<and> cp_latest_usage cp = Option.bind (last_settled es) (\<lambda>e. usage_of (entry_kind e))
     \<and> cp_latest_generation cp = Option.bind (last_settled es) (\<lambda>e. generation_of (entry_kind e))"

lemma context_of_empty: "context_of [] context_empty"
  by (simp add: context_of_def context_empty_def messages_of_def boundaries_of_def last_settled_def
      last_compaction_def List.map_filter_simps)

lemma boundary_at_snoc: "i \<le> length es \<Longrightarrow> boundary_at (es @ [e]) i = boundary_at es i"
  by (simp add: boundary_at_def)

lemma boundaries_of_snoc:
  "boundaries_of (es @ [e]) =
     boundaries_of es @ (if is_settled e then [(entry_id e, boundary_at es (length es))] else [])"
proof -
  have "filter (\<lambda>i. is_settled ((es @ [e]) ! i)) [0..<length es] =
      filter (\<lambda>i. is_settled (es ! i)) [0..<length es]"
    by (rule filter_cong) (auto simp: nth_append)
  moreover have "map (\<lambda>i. (entry_id ((es @ [e]) ! i), boundary_at (es @ [e]) i)) xs =
      map (\<lambda>i. (entry_id (es ! i), boundary_at es i)) xs" if "set xs \<subseteq> {0..<length es}" for xs
    using that by (auto simp: nth_append boundary_at_snoc subset_iff)
  from this [of "filter (\<lambda>i. is_settled (es ! i)) [0..<length es]"]
  have "map (\<lambda>i. (entry_id ((es @ [e]) ! i), boundary_at (es @ [e]) i))
      (filter (\<lambda>i. is_settled (es ! i)) [0..<length es]) = boundaries_of es"
    by (simp add: boundaries_of_def subset_iff)
  ultimately show ?thesis
    by (simp add: boundaries_of_def [of "es @ [e]"] boundary_at_snoc)
qed

lemma keys_boundaries_of: "map fst (boundaries_of es) = map entry_id (filter is_settled es)"
  by (induction es rule: rev_induct) (auto simp: boundaries_of_snoc, simp add: boundaries_of_def)

lemma last_settled_snoc:
  "last_settled (es @ [e]) = (if is_settled e then Some e else last_settled es)"
  by (simp add: last_settled_def)

lemma boundaries_of_get:
  assumes "distinct (map entry_id es)" and "hm_get (boundaries_of es) k = Some sb"
  obtains i where "i < length es" "is_settled (es ! i)" "entry_id (es ! i) = k" "sb = boundary_at es i"
proof -
  from assms(2) have "(k, sb) \<in> set (boundaries_of es)"
    by (simp add: hm_get_def map_of_SomeD)
  with that show thesis by (auto simp: boundaries_of_def)
qed

lemma context_of_accept:
  assumes "context_of es cp" and "context_accept e (length es) cp = Ok cp'"
    and d: "distinct (map entry_id (es @ [e]))"
  shows "context_of (es @ [e]) cp'"
proof -
  have old: "\<exists>i < length (es @ [e]). is_settled ((es @ [e]) ! i)
      \<and> entry_id ((es @ [e]) ! i) = cs_covers_up_to c \<and> cs_boundary c = boundary_at (es @ [e]) i"
    if c: "cp_latest_compaction cp = Some c" for c
  proof -
    from assms(1) c obtain i where "i < length es" "is_settled (es ! i)"
      "entry_id (es ! i) = cs_covers_up_to c" "cs_boundary c = boundary_at es i"
      by (auto simp: context_of_def)
    then show ?thesis by (intro exI [of _ i]) (simp add: nth_append boundary_at_snoc)
  qed
  show ?thesis
  proof (cases "entry_kind e")
    case (OperationSettled oi oc u g)
    have "entry_id e \<notin> set (map fst (boundaries_of es))"
      using d by (auto simp: keys_boundaries_of)
    then have "hm_get (boundaries_of es) (entry_id e) = None"
      by (simp add: hm_get_def map_of_eq_None_iff)
    then have "hm_insert (entry_id e) sb (boundaries_of es) = boundaries_of es @ [(entry_id e, sb)]" for sb
      by (rule hm_insert_fresh)
    with OperationSettled assms old show ?thesis
      by (auto simp: context_of_def context_accept_def boundaries_of_snoc last_settled_snoc
          messages_of_single last_compaction_snoc boundary_at_def)
  next
    case (Compaction summary covers)
    with assms(2) have "accept_compaction summary covers cp = Ok cp'"
      by (simp add: context_accept_def)
    then obtain sb where sb: "hm_get (boundaries_of es) covers = Some sb"
      "cp' = cp\<lparr>cp_latest_compaction :=
         Some \<lparr>cs_summary = summary, cs_covers_up_to = covers, cs_boundary = sb\<rparr>\<rparr>"
      using assms(1) by (auto elim!: accept_compaction_Ok simp: context_of_def)
    from d sb(1) obtain i where "i < length es" "is_settled (es ! i)" "entry_id (es ! i) = covers"
      "sb = boundary_at es i"
      by (auto elim: boundaries_of_get)
    then have "\<exists>i < length (es @ [e]). is_settled ((es @ [e]) ! i)
      \<and> entry_id ((es @ [e]) ! i) = covers \<and> sb = boundary_at (es @ [e]) i"
      by (intro exI [of _ i]) (simp add: nth_append boundary_at_snoc)
    with Compaction assms(1) sb(2) show ?thesis
      by (simp add: context_of_def boundaries_of_snoc last_settled_snoc
          messages_of_single last_compaction_snoc)
  qed (use assms old in \<open>auto simp: context_of_def context_accept_def push_message_def
      boundaries_of_snoc last_settled_snoc messages_of_single last_compaction_snoc\<close>)
qed

lemma context_of_entries:
  assumes "advance_entries i p new sp = Ok sp'" and "context_of es (sp_context sp)"
    and "sp_entry_count sp = length es" and "distinct (map entry_id (es @ new))"
  shows "context_of (es @ new) (sp_context sp')"
  using assms
proof (induction new arbitrary: i p es sp)
  case (Cons e new)
  from Cons.prems(1) obtain sp1 where sp1: "advance_entry i p e sp = Ok sp1"
    "advance_entries (Suc i) (Some (entry_id e)) new sp1 = Ok sp'"
    by (auto simp: rres_simps)
  have "context_of (es @ [e]) (sp_context sp1)"
    using context_of_accept Cons.prems(2,3,4) advance_entry_Ok(3) [OF sp1(1)] by auto
  with Cons.IH [OF sp1(2), of "es @ [e]"] Cons.prems(3,4) advance_entry_Ok(4) [OF sp1(1)]
  show ?case by simp
qed simp

lemma history_ids_distinct: "session_history sid h sp \<Longrightarrow> distinct (map entry_id (concat h))"
  by (simp add: history_facts(1) distinct_map inj_on_def del: upt_Suc)

lemma history_count: "session_history sid h sp \<Longrightarrow> sp_entry_count sp = length (concat h)"
  using history_facts(1) by (metis diff_Suc_1 length_map length_upt)

theorem history_context: "session_history sid h sp \<Longrightarrow> context_of (concat h) (sp_context sp)"
proof (induction rule: session_history.induct)
  case history_start
  show ?case by (simp add: projection_empty_def context_of_empty)
next
  case (history_commit h sp tx a)
  from apply_transaction_Ok(2) [OF history_commit.hyps(3)] obtain sp1 where
    sp1: "advance_entries 0 (sp_current_leaf sp) (at_entries a) sp = Ok sp1"
      "sp_context (at_projection a) = sp_context sp1"
    by (auto elim: advance_transaction_Ok)
  have "distinct (map entry_id (concat (h @ [at_entries a])))"
    using history_ids_distinct session_history.history_commit history_commit.hyps by blast
  then show ?case
    using context_of_entries [OF sp1(1) history_commit.IH] history_count [OF history_commit.hyps(1)]
      sp1(2) by simp
qed

section \<open>What a view shows\<close>

lemma dropWhile_id_nth:
  assumes "distinct (map entry_id es)" and "i < length es"
  shows "dropWhile (\<lambda>e. entry_id e \<noteq> entry_id (es ! i)) es = drop i es"
  using assms
proof (induction es arbitrary: i)
  case (Cons e es)
  then show ?case by (cases i) auto
qed simp

lemma context_of_messages:
  assumes "context_of es cp" and "distinct (map entry_id es)"
  shows "context_messages_view cp = Ok (visible_messages es)"
proof (cases "cp_latest_compaction cp")
  case None
  with assms(1) show ?thesis
    by (auto simp: context_messages_view_def visible_messages_def context_of_def)
next
  case (Some c)
  with assms(1) obtain i where i: "i < length es" "is_settled (es ! i)"
    "entry_id (es ! i) = cs_covers_up_to c" "cs_boundary c = boundary_at es i"
    by (auto simp: context_of_def)
  have "entry_message (entry_kind (es ! i)) = None"
    using i(2) by (cases "entry_kind (es ! i)") auto
  then have "messages_of (drop i es) = messages_of (drop (Suc i) es)"
    by (simp add: Cons_nth_drop_Suc [OF i(1), symmetric] messages_of_def List.map_filter_simps)
  moreover have "messages_of es = messages_of (take i es) @ messages_of (drop i es)"
    by (metis append_take_drop_id messages_of_append)
  moreover have "entries_after (cs_covers_up_to c) es = drop (Suc i) es"
    using dropWhile_id_nth [OF assms(2) i(1)] i(3) by (simp add: entries_after_def drop_Suc tl_drop)
  moreover have "last_compaction es = Some (cs_summary c, cs_covers_up_to c)"
    using assms(1) Some by (simp add: context_of_def)
  ultimately show ?thesis
    using assms(1) Some i(4)
    by (simp add: context_messages_view_def visible_messages_def context_of_def boundary_at_def
        slice_from_def)
qed

lemma sorted_boundaries_of:
  "sorted (map (\<lambda>(_, b). sb_entry_ordinal b) (boundaries_of es))"
  "distinct (map (\<lambda>(_, b). sb_entry_ordinal b) (boundaries_of es))"
proof -
  have "map (\<lambda>(_, b). sb_entry_ordinal b) (boundaries_of es) =
      filter (\<lambda>i. is_settled (es ! i)) [0..<length es]"
    by (simp add: boundaries_of_def comp_def boundary_at_def)
  then show "sorted (map (\<lambda>(_, b). sb_entry_ordinal b) (boundaries_of es))"
    "distinct (map (\<lambda>(_, b). sb_entry_ordinal b) (boundaries_of es))"
    by (simp_all add: sorted_wrt_filter)
qed

text \<open>The sort makes the list independent of the map's iteration order.\<close>

lemma context_of_boundary_ids:
  assumes "context_of es cp" and "mset bs = mset (cp_settled_boundaries cp)"
  shows "settled_boundary_ids (cp\<lparr>cp_settled_boundaries := bs\<rparr>) = map entry_id (filter is_settled es)"
proof -
  let ?k = "\<lambda>(_ :: rstring, b). sb_entry_ordinal b"
  have m: "mset bs = mset (boundaries_of es)"
    using assms by (simp add: context_of_def)
  have "inj_on ?k (set bs)"
    using sorted_boundaries_of(2) [of es] mset_eq_setD [OF m] by (simp add: distinct_map)
  then have "sort_key ?k bs = boundaries_of es"
    using m sorted_boundaries_of(1) by (intro sort_key_inj_key_eq) auto
  then show ?thesis
    by (simp add: settled_boundary_ids_def keys_boundaries_of)
qed

section \<open>Compaction\<close>

lemma entries_after_nth:
  assumes "distinct (map entry_id es)" and "i < j" and "j < length es"
  shows "es ! j \<in> set (entries_after (entry_id (es ! i)) es)"
proof -
  have "entries_after (entry_id (es ! i)) es = drop (Suc i) es"
    using dropWhile_id_nth [OF assms(1), of i] assms(2,3)
    by (simp add: entries_after_def drop_Suc tl_drop)
  moreover have "drop (Suc i) es ! (j - Suc i) = es ! j" "j - Suc i < length (drop (Suc i) es)"
    using assms(2,3) by auto
  ultimately show ?thesis by (metis nth_mem)
qed

lemma compaction_singleton:
  assumes "validate_compaction_transaction es = Ok ()" and "e \<in> set es"
    and "entry_kind e = Compaction summary covers"
  shows "es = [e]"
proof -
  have "list_ex (\<lambda>e. case entry_kind e of Compaction _ _ \<Rightarrow> True | _ \<Rightarrow> False) es"
    using assms(2,3) by (auto simp: list_ex_iff intro!: bexI [of _ e])
  with assms(1) have "length es = 1"
    by (simp add: validate_compaction_transaction_def split: if_split_asm)
  with assms(2) show ?thesis by (auto simp: length_Suc_conv)
qed

lemma materialize_single:
  assumes "materialize sp sid 0 [] ns = Ok [e]"
  shows "\<exists>n. ns = [n] \<and> ne_parent n = CurrentLeaf \<and> ne_kind n = entry_kind e"
proof -
  have k: "map ne_kind ns = [entry_kind e]"
    using materialize_ids(2) [OF assms] by simp
  then obtain n where "ns = [n]" "ne_kind n = entry_kind e" by auto
  with assms show ?thesis
    by (auto simp: rres_simps new_entry_parent_id_def split: new_entry_parent.split_asm)
qed

lemma compaction_forward:
  assumes "session_history sid h sp" and "apply_transaction sp tx = Ok a"
    and "Compaction summary covers \<in> set (map ne_kind (tx_entries tx))"
  shows "tx_entries tx = [\<lparr>ne_parent = CurrentLeaf, ne_kind = Compaction summary covers\<rparr>]
    \<and> summary \<noteq> [] \<and> covers \<in> set (map entry_id (filter is_settled (concat h)))
    \<and> (\<forall>s p. last_compaction (concat h) = Some (s, p) \<longrightarrow>
         covers \<in> set (map entry_id (entries_after p (concat h))))
    \<and> cp_source_messages (sp_context (at_projection a)) = cp_source_messages (sp_context sp)"
proof -
  let ?es = "concat h"
  note ok = apply_transaction_Ok [OF assms(2)]
  note ctx = history_context [OF assms(1)] and d = history_ids_distinct [OF assms(1)]
  from ok(2) obtain sp1 where sp1: "validate_compaction_transaction (at_entries a) = Ok ()"
    "advance_entries 0 (sp_current_leaf sp) (at_entries a) sp = Ok sp1"
    "sp_context (at_projection a) = sp_context sp1"
    by (auto elim: advance_transaction_Ok)
  have "map entry_kind (at_entries a) = map ne_kind (tx_entries tx)"
    using materialize_ids(2) [OF ok(1)] by simp
  with assms(3) obtain e where e: "e \<in> set (at_entries a)" "entry_kind e = Compaction summary covers"
    by (metis (no_types, lifting) imageE list.set_map)
  then have es: "at_entries a = [e]" using compaction_singleton [OF sp1(1)] by blast
  then have tx: "tx_entries tx = [\<lparr>ne_parent = CurrentLeaf, ne_kind = Compaction summary covers\<rparr>]"
    using materialize_single ok(1) e(2) by fastforce
  from sp1(2) es have "context_accept e (sp_entry_count sp) (sp_context sp) = Ok (sp_context sp1)"
    by (auto simp: rres_simps dest: advance_entry_Ok(3))
  then have "accept_compaction summary covers (sp_context sp) = Ok (sp_context sp1)"
    using e(2) by (simp add: context_accept_def)
  then obtain sb where sb: "summary \<noteq> []" "hm_get (boundaries_of ?es) covers = Some sb"
    "\<And>c. cp_latest_compaction (sp_context sp) = Some c \<Longrightarrow>
       sb_entry_ordinal (cs_boundary c) < sb_entry_ordinal sb"
    "cp_source_messages (sp_context sp1) = cp_source_messages (sp_context sp)"
    using ctx by (auto elim!: accept_compaction_Ok simp: context_of_def)
  from d sb(2) obtain j where j: "j < length ?es" "is_settled (?es ! j)"
    "entry_id (?es ! j) = covers" "sb = boundary_at ?es j"
    by (rule boundaries_of_get)
  have "covers \<in> set (map entry_id (entries_after p ?es))" if "last_compaction ?es = Some (s, p)" for s p
  proof -
    from that ctx obtain c where c: "cp_latest_compaction (sp_context sp) = Some c" "cs_covers_up_to c = p"
      by (auto simp: context_of_def)
    with ctx obtain i where i: "i < length ?es" "entry_id (?es ! i) = p" "cs_boundary c = boundary_at ?es i"
      by (auto simp: context_of_def)
    have "i < j" using sb(3) [OF c(1)] i(3) j(4) by (simp add: boundary_at_def)
    from entries_after_nth [OF d this j(1)] i(2) j(3) show ?thesis by auto
  qed
  moreover have "covers \<in> set (map entry_id (filter is_settled ?es))"
    using nth_mem [OF j(1)] j(2,3) by (auto intro!: image_eqI [of _ _ "?es ! j"] simp del: set_concat)
  ultimately show ?thesis using tx sb(1,4) sp1(3) by simp
qed

end
