(* ===== verification/Session_Demo.thy ===== *)
theory Session_Demo
  imports Session_Store Session_Context_Spec
begin

text \<open>
  A concrete session the witnesses of the session properties share: one turn that calls a tool,
  receives its result and answers, then a compaction; and a second turn left open with an
  unanswered call.
\<close>

abbreviation "demo_sid \<equiv> lit ''s''"
abbreviation "demo_op \<equiv> lit ''o''"
abbreviation "demo_turn \<equiv> lit ''t''"
abbreviation "demo_batch \<equiv> lit ''b''"

definition demo_kinds1 :: "session_entry_kind list" where
  "demo_kinds1 =
     [OperationStarted demo_op, TurnStarted demo_op demo_turn,
      UserMessage demo_turn [SText (lit ''hi'')],
      AssistantToolCallBatch demo_turn (lit ''m'') demo_batch
        [SToolCall \<lparr>scall_id = lit ''c'', scall_name = lit ''read'', scall_arguments = []\<rparr>]]"

definition demo_kinds2 :: "session_entry_kind list" where
  "demo_kinds2 = [ToolResult demo_turn demo_batch (session_result_success (lit ''c'') (lit ''ok''))]"

definition demo_kinds3 :: "session_entry_kind list" where
  "demo_kinds3 =
     [AssistantMessage demo_turn [STextBlock (lit ''bye'')],
      TurnTerminated demo_turn TurnSucceeded,
      OperationSettled demo_op OpSucceeded None None]"

definition demo_kinds4 :: "session_entry_kind list" where
  "demo_kinds4 = [Compaction (lit ''sum'') (lit ''s:entry:8'')]"

definition demo_tx :: "nat \<Rightarrow> session_entry_kind list \<Rightarrow> session_transaction" where
  "demo_tx r kinds = transaction_linear demo_sid (SessionRevision (of_nat r)) kinds"

definition demo_applied1 :: applied_transaction where
  "demo_applied1 = the_ok (apply_transaction projection_empty (demo_tx 0 demo_kinds1))"

definition demo_applied2 :: applied_transaction where
  "demo_applied2 = the_ok (apply_transaction (at_projection demo_applied1) (demo_tx 1 demo_kinds2))"

definition demo_applied3 :: applied_transaction where
  "demo_applied3 = the_ok (apply_transaction (at_projection demo_applied2) (demo_tx 2 demo_kinds3))"

definition demo_applied4 :: applied_transaction where
  "demo_applied4 = the_ok (apply_transaction (at_projection demo_applied3) (demo_tx 3 demo_kinds4))"

lemma demo_ok1: "is_Ok (apply_transaction projection_empty (demo_tx 0 demo_kinds1))"
  by code_simp

lemma demo_ok2: "is_Ok (apply_transaction (at_projection demo_applied1) (demo_tx 1 demo_kinds2))"
  by code_simp

lemma demo_ok3: "is_Ok (apply_transaction (at_projection demo_applied2) (demo_tx 2 demo_kinds3))"
  by code_simp

lemma demo_ok4: "is_Ok (apply_transaction (at_projection demo_applied3) (demo_tx 3 demo_kinds4))"
  by code_simp

lemma history_commit_the:
  assumes "session_history sid h sp" and "tx_session_id tx = sid" and "is_Ok (apply_transaction sp tx)"
  shows "session_history sid (h @ [at_entries (the_ok (apply_transaction sp tx))])
    (at_projection (the_ok (apply_transaction sp tx)))"
  using assms by (intro session_history.history_commit) auto

lemma demo_tx_session [simp]: "tx_session_id (demo_tx r ks) = demo_sid"
  by (simp add: demo_tx_def)

abbreviation demo_h2 :: "session_entry list list" where
  "demo_h2 \<equiv> [at_entries demo_applied1, at_entries demo_applied2]"

abbreviation demo_h3 :: "session_entry list list" where
  "demo_h3 \<equiv> demo_h2 @ [at_entries demo_applied3]"

abbreviation demo_h4 :: "session_entry list list" where
  "demo_h4 \<equiv> demo_h3 @ [at_entries demo_applied4]"

lemma demo_history1: "session_history demo_sid [at_entries demo_applied1] (at_projection demo_applied1)"
  using history_commit_the [OF session_history.history_start demo_tx_session demo_ok1]
  by (simp add: demo_applied1_def)

lemma demo_history2: "session_history demo_sid demo_h2 (at_projection demo_applied2)"
  using history_commit_the [OF demo_history1 demo_tx_session demo_ok2] by (simp add: demo_applied2_def)

lemma demo_history3: "session_history demo_sid demo_h3 (at_projection demo_applied3)"
  using history_commit_the [OF demo_history2 demo_tx_session demo_ok3] by (simp add: demo_applied3_def)

lemma demo_history4: "session_history demo_sid demo_h4 (at_projection demo_applied4)"
  using history_commit_the [OF demo_history3 demo_tx_session demo_ok4] by (simp add: demo_applied4_def)

lemma demo_apply:
  "apply_transaction projection_empty (demo_tx 0 demo_kinds1) = Ok demo_applied1"
  "apply_transaction (at_projection demo_applied1) (demo_tx 1 demo_kinds2) = Ok demo_applied2"
  "apply_transaction (at_projection demo_applied2) (demo_tx 2 demo_kinds3) = Ok demo_applied3"
  "apply_transaction (at_projection demo_applied3) (demo_tx 3 demo_kinds4) = Ok demo_applied4"
  using demo_ok1 demo_ok2 demo_ok3 demo_ok4
  by (simp_all add: demo_applied1_def demo_applied2_def demo_applied3_def demo_applied4_def)

end
