(* ===== verification/Session_Titles.thy ===== *)
theory Session_Titles
  imports Session_Projection_Inv
begin

text \<open>Derived titles: the whitespace of the text is normalised and the length is capped.\<close>

lemma split_whitespace_words:
  "w \<in> set (split_whitespace s) \<Longrightarrow> w \<noteq> [] \<and> (\<forall>c \<in> set w. \<not> is_whitespace c)"
proof (induction s rule: split_whitespace.induct)
  case (2 c cs)
  show ?case
  proof (cases "is_whitespace c")
    case True
    with 2 show ?thesis by simp
  next
    case False
    with "2.prems" consider "w = c # takeWhile (\<lambda>d. \<not> is_whitespace d) cs"
      | "w \<in> set (split_whitespace (dropWhile (\<lambda>d. \<not> is_whitespace d) cs))"
      by auto
    then show ?thesis
    proof cases
      case 1
      with False show ?thesis by (auto dest!: set_takeWhileD)
    next
      case 2
      with "2.IH"(2) [OF False] show ?thesis by blast
    qed
  qed
qed simp

lemma filter_takeWhile_dropWhile:
  "takeWhile P cs @ filter P (dropWhile P cs) = filter P cs"
  by (induction cs) auto

lemma split_whitespace_chars: "concat (split_whitespace s) = filter (\<lambda>c. \<not> is_whitespace c) s"
proof (induction s rule: split_whitespace.induct)
  case (2 c cs)
  then show ?case
    by (cases "is_whitespace c") (simp_all add: filter_takeWhile_dropWhile)
qed simp

lemma split_whitespace_eq_Nil_iff: "split_whitespace s = [] \<longleftrightarrow> (\<forall>c \<in> set s. is_whitespace c)"
  by (induction s rule: split_whitespace.induct) auto

lemma set_join: "set (join sep ws) \<subseteq> set sep \<union> \<Union> (set ` set ws)"
  by (induction sep ws rule: join.induct) auto

lemma join_eq_Nil_iff:
  assumes "\<forall>w \<in> set ws. w \<noteq> []"
  shows "join sep ws = [] \<longleftrightarrow> ws = []"
  using assms by (induction sep ws rule: join.induct) auto

lemma filter_join:
  assumes "\<forall>c \<in> set sep. \<not> P c"
  shows "filter P (join sep ws) = concat (map (filter P) ws)"
  using assms by (induction sep ws rule: join.induct) auto

definition normalized :: "rstring \<Rightarrow> rstring" where
  "normalized t = join [32] (split_whitespace t)"

lemma whitespace_32 [simp]: "is_whitespace 32"
  by (simp add: is_whitespace_def)

lemma normalized_whitespace: "c \<in> set (normalized t) \<Longrightarrow> is_whitespace c \<Longrightarrow> c = 32"
  using set_join [of "[32]" "split_whitespace t"] split_whitespace_words
  by (fastforce simp: normalized_def)

lemma normalized_text:
  "filter (\<lambda>c. \<not> is_whitespace c) (normalized t) = filter (\<lambda>c. \<not> is_whitespace c) t"
proof -
  have "concat (map (filter (\<lambda>c. \<not> is_whitespace c)) (split_whitespace t)) = concat (split_whitespace t)"
    using split_whitespace_words [of _ t] by (intro arg_cong [of _ _ concat] map_idI) (simp add: filter_id_conv)
  then show ?thesis
    by (simp add: normalized_def filter_join split_whitespace_chars)
qed

lemma normalized_eq_Nil_iff: "normalized t = [] \<longleftrightarrow> (\<forall>c \<in> set t. is_whitespace c)"
  using join_eq_Nil_iff [of "split_whitespace t"] split_whitespace_words
  by (auto simp: normalized_def split_whitespace_eq_Nil_iff)

text \<open>Single-spaced text: it starts and ends with a visible character, every whitespace character
  in it is a space, and no two of them are adjacent.\<close>

definition single_spaced :: "rstring \<Rightarrow> bool" where
  "single_spaced s \<longleftrightarrow>
     (s \<noteq> [] \<longrightarrow> \<not> is_whitespace (hd s) \<and> \<not> is_whitespace (last s))
     \<and> (\<forall>c \<in> set s. is_whitespace c \<longrightarrow> c = 32)
     \<and> successively (\<lambda>c d. \<not> (is_whitespace c \<and> is_whitespace d)) s"

definition word :: "rstring \<Rightarrow> bool" where
  "word w \<longleftrightarrow> w \<noteq> [] \<and> (\<forall>c \<in> set w. \<not> is_whitespace c)"

lemma single_spaced_word: "word w \<Longrightarrow> single_spaced w"
proof -
  have "\<forall>c \<in> set w. \<not> is_whitespace c \<Longrightarrow>
      successively (\<lambda>c d. \<not> (is_whitespace c \<and> is_whitespace d)) w"
    by (induction w) (auto simp: successively_Cons)
  then show "word w \<Longrightarrow> single_spaced w" by (auto simp: word_def single_spaced_def)
qed

lemma single_spaced_glue:
  "single_spaced s \<Longrightarrow> single_spaced t \<Longrightarrow> s \<noteq> [] \<Longrightarrow> t \<noteq> [] \<Longrightarrow> single_spaced (s @ 32 # t)"
  by (auto simp: single_spaced_def successively_append_iff successively_Cons)

lemma single_spaced_join: "\<forall>w \<in> set ws. word w \<Longrightarrow> single_spaced (join [32] ws)"
proof (induction "[32] :: rstring" ws rule: join.induct)
  case 1
  then show ?case by (simp add: single_spaced_def)
next
  case (2 w)
  then show ?case by (simp add: single_spaced_word)
next
  case (3 w v ws)
  moreover from 3 have "join [32] (v # ws) \<noteq> []" by (subst join_eq_Nil_iff) (auto simp: word_def)
  ultimately show ?case
    using single_spaced_glue [of w "join [32] (v # ws)"] by (auto simp: single_spaced_word word_def)
qed

lemma words_of_split: "w \<in> set (split_whitespace s) \<Longrightarrow> word w"
  using split_whitespace_words by (simp add: word_def)

lemma single_spaced_normalized: "single_spaced (normalized t)"
  using words_of_split by (auto simp: normalized_def intro: single_spaced_join)

lemma single_spaced_cut:
  assumes "single_spaced s" and "\<not> is_whitespace c"
  shows "single_spaced (take n s @ [c])"
proof (cases "take n s = []")
  case True
  with assms(2) show ?thesis by (auto simp: single_spaced_def)
next
  case False
  then have "hd (take n s) = hd s" "s \<noteq> []" by auto
  moreover have "successively (\<lambda>c d. \<not> (is_whitespace c \<and> is_whitespace d)) (take n s)"
    using assms(1) by (metis append_take_drop_id single_spaced_def successively_append_iff)
  ultimately show ?thesis
    using assms False by (auto simp: single_spaced_def successively_append_iff dest: in_set_takeD)
qed

lemma split_whitespace_word:
  assumes "word w"
  shows "split_whitespace (w @ 32 # s) = w # split_whitespace s" "split_whitespace w = [w]"
proof -
  obtain c cs where w: "w = c # cs" "\<not> is_whitespace c" "\<forall>d \<in> set cs. \<not> is_whitespace d"
    using assms by (cases w) (auto simp: word_def)
  then have runs: "takeWhile (\<lambda>d. \<not> is_whitespace d) (cs @ 32 # s) = cs"
    "dropWhile (\<lambda>d. \<not> is_whitespace d) (cs @ 32 # s) = 32 # s"
    "takeWhile (\<lambda>d. \<not> is_whitespace d) cs = cs" "dropWhile (\<lambda>d. \<not> is_whitespace d) cs = []"
    by (auto simp: takeWhile_append2 dropWhile_append2 takeWhile_eq_all_conv dropWhile_eq_Nil_conv)
  from w(2) show "split_whitespace (w @ 32 # s) = w # split_whitespace s" "split_whitespace w = [w]"
    by (simp_all add: w(1) runs)
qed

lemma split_whitespace_join: "\<forall>w \<in> set ws. word w \<Longrightarrow> split_whitespace (join [32] ws) = ws"
  by (induction "[32] :: rstring" ws rule: join.induct) (simp_all add: split_whitespace_word)

lemma split_whitespace_normalized: "split_whitespace (normalized t) = split_whitespace t"
  using words_of_split by (auto simp: normalized_def intro: split_whitespace_join)

lemma derive_title_cases:
  "derive_title t =
     (if normalized t = [] then None
      else if length (normalized t) \<le> 48 then Some (normalized t)
      else Some (take 48 (normalized t) @ [8230]))"
  by (simp add: derive_title_def normalized_def derived_title_max_chars_def Let_def)

end
