(* ===== verification/Session_Properties.thy ===== *)
theory Session_Properties
  imports Session_Demo Session_Titles
begin

text \<open>
  The properties of the session component: what holds of every session that a sequence of
  accepted transactions can lead to, and of the stores that keep them.
\<close>

section \<open>Histories\<close>

text \<open>C15. Nothing in the session core panics. In the projection of any committed history, applying
  an arbitrary transaction either succeeds or returns an error, a successful application always
  has a leaf to commit, and the context view is always produced: every \<^verbatim>\<open>expect\<close>, index and slice
  of \<^verbatim>\<open>LifecycleProjection::accept\<close>, \<^verbatim>\<open>validate_transaction\<close>, \<^verbatim>\<open>open_turns\<close>,
  \<^verbatim>\<open>SessionProjection::apply\<close>, \<^verbatim>\<open>advance_transaction\<close>, \<^verbatim>\<open>AppliedTransaction::commit\<close> and
  \<^verbatim>\<open>ContextProjection::messages\<close> is a branch of the model that panics, and none is taken.\<close>

theorem session_never_panics:
  assumes "session_history sid h sp"
  shows "apply_transaction sp tx \<noteq> Panic \<and> (\<exists>v. context_view sp sid' = Ok v)
    \<and> (\<forall>a. apply_transaction sp tx = Ok a \<longrightarrow> (\<exists>c. applied_commit a = Ok c))"
  using history_inv [OF assms] apply_transaction_not_panic context_view_Ok applied_commit_Ok
  by blast

theorem session_never_panics_witness:
  "(\<exists>v. context_view (at_projection demo_applied2) demo_sid = Ok v)
    \<and> (\<exists>c. applied_commit demo_applied3 = Ok c)"
  using session_never_panics [OF demo_history2] demo_apply(3) by blast

text \<open>C3. Recovery by replay: replaying the committed entries of a session, transaction by
  transaction, from the empty projection succeeds and rebuilds exactly the projection the commits
  produced.\<close>

theorem session_replay_rebuilds:
  assumes "session_history sid h sp"
  shows "rfold (\<lambda>es p. replay p es) h projection_empty = Ok sp"
  using history_replay [OF assms] .

theorem session_replay_rebuilds_witness:
  "rfold (\<lambda>es p. replay p es) demo_h4 projection_empty = Ok (at_projection demo_applied4)"
  using session_replay_rebuilds [OF demo_history4] .

text \<open>C16. The log of a session is one linear chain: entry \<open>n\<close> has the identifier
  \<open>sid:entry:n\<close>, so that identifiers are never reused; the parent of each entry is the entry
  before it; the current leaf is the last entry; and the revision counts the transactions.\<close>

theorem session_log_linear:
  assumes "session_history sid h sp"
  shows "map entry_id (concat h) = map (\<lambda>n. sid @ lit '':entry:'' @ dec n) [1..<length (concat h) + 1]
    \<and> distinct (map entry_id (concat h)) \<and> chained None (concat h)
    \<and> sp_current_leaf sp = chain_end None (concat h)
    \<and> sp_revision sp = SessionRevision (of_nat (length h))"
  using history_facts [OF assms] history_ids_distinct [OF assms] history_count [OF assms]
  by (simp add: entry_name_def [abs_def] del: upt_Suc)

theorem session_log_linear_witness:
  "distinct (map entry_id (concat demo_h4))
    \<and> sp_revision (at_projection demo_applied4) = SessionRevision 4"
proof -
  have "length demo_h4 = 4" by simp
  with session_log_linear [OF demo_history4] show ?thesis by (metis of_nat_numeral)
qed

text \<open>C4. Tool results are atomic. In a committed history a tool batch has either none of its
  results or one result for each of its calls in order, and only the newest batch of a turn can be
  without results; what the view reports as the unfilled part of an open turn's batch is the
  batch's complete list of calls.\<close>

theorem session_tool_results_atomic:
  assumes "session_history sid h sp" and "hm_get (lc_turns (sp_lifecycle sp)) ti = Some t"
  shows "(\<forall>b \<in> set (tn_tool_batches t). tb_results b = [] \<or> tb_results b = tb_call_ids b)
    \<and> (\<forall>b \<in> set (butlast (tn_tool_batches t)). tb_results b = tb_call_ids b)
    \<and> (\<forall>ub. unfilled_batch_of t = Ok (Some ub) \<longrightarrow>
      ub_unfilled_call_ids ub = tb_call_ids (last (tn_tool_batches t)) \<and> ub_unfilled_call_ids ub \<noteq> [])"
proof (intro conjI allI impI)
  let ?last = "last (tn_tool_batches t)"
  have inv: "lifecycle_inv (sp_lifecycle sp)" "lifecycle_atomic (sp_lifecycle sp)"
    using history_inv [OF assms(1)] by (auto simp: projection_inv_def)
  have t: "turn_inv t" using inv(1) assms(2) by (rule lifecycle_inv_turnD)
  show atomic: "\<forall>b \<in> set (tn_tool_batches t). tb_results b = [] \<or> tb_results b = tb_call_ids b"
    using inv(2) assms(2) by (auto simp: lifecycle_atomic_def batch_atomic_def)
  show "\<forall>b \<in> set (butlast (tn_tool_batches t)). tb_results b = tb_call_ids b"
    using t batch_inv_complete by (meson in_set_butlastD turn_inv_def)
  fix ub assume ub: "unfilled_batch_of t = Ok (Some ub)"
  then have "tn_tool_batches t \<noteq> []" "\<not> batch_is_complete ?last"
    by (auto simp: unfilled_batch_of_def Let_def split: if_split_asm)
  moreover from this have "tb_results ?last = []"
    using atomic last_in_set by (fastforce simp: batch_is_complete_def)
  ultimately show "ub_unfilled_call_ids ub = tb_call_ids ?last" "ub_unfilled_call_ids ub \<noteq> []"
    using ub turn_inv_last [OF t] by (auto simp: unfilled_batch_of_def Let_def batch_inv_def)
qed

theorem session_tool_results_atomic_witness:
  "\<exists>t ub. hm_get (lc_turns (sp_lifecycle (at_projection demo_applied1))) demo_turn = Some t
    \<and> unfilled_batch_of t = Ok (Some ub)
    \<and> ub_unfilled_call_ids ub = tb_call_ids (last (tn_tool_batches t))"
proof -
  let ?t = "the (hm_get (lc_turns (sp_lifecycle (at_projection demo_applied1))) demo_turn)"
  have t: "hm_get (lc_turns (sp_lifecycle (at_projection demo_applied1))) demo_turn = Some ?t"
    by code_simp
  have ub: "unfilled_batch_of ?t = Ok (Some (the (the_ok (unfilled_batch_of ?t))))"
    by code_simp
  from session_tool_results_atomic [OF demo_history1 t] t ub show ?thesis by blast
qed

text \<open>C17. Terminal facts are final: no accepted transaction changes the record of a terminated
  turn or of a settled operation in any field.\<close>

theorem session_terminal_facts_final:
  assumes "apply_transaction sp tx = Ok a"
  shows "(\<forall>ti t. hm_get (lc_turns (sp_lifecycle sp)) ti = Some t \<and> tn_outcome t \<noteq> None \<longrightarrow>
      hm_get (lc_turns (sp_lifecycle (at_projection a))) ti = Some t)
    \<and> (\<forall>oi p. hm_get (lc_operations (sp_lifecycle sp)) oi = Some p \<and> op_outcome p \<noteq> None \<longrightarrow>
      hm_get (lc_operations (sp_lifecycle (at_projection a))) oi = Some p)"
proof -
  from apply_transaction_Ok(2) [OF assms] obtain sp1 where
    "advance_entries 0 (sp_current_leaf sp) (at_entries a) sp = Ok sp1"
    "sp_lifecycle (at_projection a) = sp_lifecycle sp1"
    by (auto elim: advance_transaction_Ok)
  then have "rfold lifecycle_accept (map entry_kind (at_entries a)) (sp_lifecycle sp) =
      Ok (sp_lifecycle (at_projection a))"
    using advance_entries_Ok(1) by fastforce
  from fold_keeps_terminal [OF this] show ?thesis by blast
qed

theorem session_terminal_facts_final_witness:
  "hm_get (lc_turns (sp_lifecycle (at_projection demo_applied4))) demo_turn =
     hm_get (lc_turns (sp_lifecycle (at_projection demo_applied3))) demo_turn"
proof -
  let ?t = "the (hm_get (lc_turns (sp_lifecycle (at_projection demo_applied3))) demo_turn)"
  have t: "hm_get (lc_turns (sp_lifecycle (at_projection demo_applied3))) demo_turn = Some ?t"
    by code_simp
  moreover have "tn_outcome ?t \<noteq> None" by code_simp
  ultimately show ?thesis using session_terminal_facts_final [OF demo_apply(4)] by metis
qed

lemma settled_consistent:
  assumes "session_history sid h sp"
    and "hm_get (lc_operations (sp_lifecycle sp)) oi = Some p" and "op_outcome p = Some oc"
  shows "\<exists>ti t. op_turn_id p = Some ti \<and> hm_get (lc_turns (sp_lifecycle sp)) ti = Some t
    \<and> tn_operation_id t = oi \<and> tn_outcome t = Some (expected_turn_outcome oc)
    \<and> turn_outcome_valid t (expected_turn_outcome oc)
    \<and> (oc \<noteq> OpFailed \<longrightarrow> tool_rounds_complete t)"
proof -
  have inv: "lifecycle_inv (sp_lifecycle sp)"
    using history_inv [OF assms(1)] by (auto simp: projection_inv_def)
  then obtain ti t where t: "op_turn_id p = Some ti" "hm_get (lc_turns (sp_lifecycle sp)) ti = Some t"
    "tn_outcome t = Some (expected_turn_outcome oc)"
    using assms(2,3) by (fastforce simp: lifecycle_inv_def ops_settled_def)
  have "tn_operation_id t = oi"
    using inv t(1,2) assms(2) by (fastforce simp: lifecycle_inv_def ops_linked_def)
  moreover have ti: "turn_inv t" using inv t(2) by (rule lifecycle_inv_turnD)
  then have "turn_outcome_valid t (expected_turn_outcome oc)"
    using t(3) by (simp add: turn_inv_def)
  moreover have "oc \<noteq> OpFailed \<longrightarrow> tool_rounds_complete t"
    using calculation(2) ti
    by (cases oc) (auto simp: expected_turn_outcome_def turn_outcome_valid_def turn_inv_def)
  ultimately show ?thesis using t by blast
qed

lemma open_turns_exact:
  assumes "session_history sid h sp"
  shows "distinct (lc_open_turn_ids (sp_lifecycle sp))"
    and "ti \<in> set (lc_open_turn_ids (sp_lifecycle sp)) \<longleftrightarrow>
      (\<exists>t. hm_get (lc_turns (sp_lifecycle sp)) ti = Some t \<and> tn_outcome t = None)"
    and "hm_get (lc_turns (sp_lifecycle sp)) ti = Some t \<Longrightarrow> tn_outcome t = None \<Longrightarrow>
      hm_get (lc_operations (sp_lifecycle sp)) (tn_operation_id t) = Some p \<Longrightarrow>
      op_outcome p = None \<and> op_turn_id p = Some ti"
proof -
  have inv: "lifecycle_inv (sp_lifecycle sp)"
    using history_inv [OF assms] by (auto simp: projection_inv_def)
  then show "distinct (lc_open_turn_ids (sp_lifecycle sp))"
    "ti \<in> set (lc_open_turn_ids (sp_lifecycle sp)) \<longleftrightarrow>
      (\<exists>t. hm_get (lc_turns (sp_lifecycle sp)) ti = Some t \<and> tn_outcome t = None)"
    by (auto simp: lifecycle_inv_def opens_exact_def)
  assume t: "hm_get (lc_turns (sp_lifecycle sp)) ti = Some t" "tn_outcome t = None"
    and p: "hm_get (lc_operations (sp_lifecycle sp)) (tn_operation_id t) = Some p"
  have link: "op_turn_id p = Some ti"
    using inv t(1) p by (fastforce simp: lifecycle_inv_def turns_linked_def)
  moreover have "op_outcome p = None"
  proof (rule ccontr)
    assume "op_outcome p \<noteq> None"
    then obtain oc where "op_outcome p = Some oc" by blast
    with settled_consistent [OF assms p] link t show False by force
  qed
  ultimately show "op_outcome p = None \<and> op_turn_id p = Some ti" by blast
qed

text \<open>C14. The outcome of a settled operation is the outcome of its one turn, and the turn's outcome
  is what its messages show: a succeeded turn has an assistant message, no failure and every tool
  batch answered, a failed one has a recorded failure and no assistant message, a cancelled one
  has neither and every batch answered. The list of open turns has no duplicates and is exactly
  the turns without an outcome, so no turn is lost from it and none stays in it; the operation of
  an open turn is never settled.\<close>

theorem session_settled_consistent:
  assumes "session_history sid h sp"
  shows "(\<forall>oi p oc. hm_get (lc_operations (sp_lifecycle sp)) oi = Some p \<and> op_outcome p = Some oc \<longrightarrow>
      (\<exists>ti t. op_turn_id p = Some ti \<and> hm_get (lc_turns (sp_lifecycle sp)) ti = Some t
        \<and> tn_operation_id t = oi \<and> tn_outcome t = Some (expected_turn_outcome oc)
        \<and> turn_outcome_valid t (expected_turn_outcome oc)
        \<and> (oc \<noteq> OpFailed \<longrightarrow> tool_rounds_complete t)))
    \<and> distinct (lc_open_turn_ids (sp_lifecycle sp))
    \<and> (\<forall>ti. ti \<in> set (lc_open_turn_ids (sp_lifecycle sp)) \<longleftrightarrow>
        (\<exists>t. hm_get (lc_turns (sp_lifecycle sp)) ti = Some t \<and> tn_outcome t = None))
    \<and> (\<forall>ti t p. hm_get (lc_turns (sp_lifecycle sp)) ti = Some t \<and> tn_outcome t = None
        \<and> hm_get (lc_operations (sp_lifecycle sp)) (tn_operation_id t) = Some p \<longrightarrow>
        op_outcome p = None \<and> op_turn_id p = Some ti)"
  using settled_consistent [OF assms] open_turns_exact [OF assms] by blast

theorem session_settled_consistent_witness:
  "\<exists>ti t. hm_get (lc_turns (sp_lifecycle (at_projection demo_applied3))) ti = Some t
    \<and> tn_outcome t = Some TurnSucceeded \<and> tool_rounds_complete t"
proof -
  let ?p = "the (hm_get (lc_operations (sp_lifecycle (at_projection demo_applied3))) demo_op)"
  have p: "hm_get (lc_operations (sp_lifecycle (at_projection demo_applied3))) demo_op = Some ?p"
    by code_simp
  have oc: "op_outcome ?p = Some OpSucceeded" by code_simp
  from session_settled_consistent [OF demo_history3] p oc show ?thesis
    by (fastforce simp: expected_turn_outcome_def)
qed

section \<open>Views\<close>

text \<open>C7. The context view of a session is the specification over its committed entries: the
  messages are those of all entries, or, after a compaction, its summary followed by the messages
  of the entries after the one it covers; the boundaries are the settled operations in commit
  order, whatever the iteration order of the map that holds them; usage and generation are those
  of the last settled operation.\<close>

theorem session_view_refines_log:
  assumes "session_history sid h sp" and "context_view sp sid' = Ok v"
    and "mset bs = mset (cp_settled_boundaries (sp_context sp))"
  shows "view_messages v = visible_messages (concat h)
    \<and> view_settled_turn_boundaries v = map entry_id (filter is_settled (concat h))
    \<and> settled_boundary_ids ((sp_context sp)\<lparr>cp_settled_boundaries := bs\<rparr>) = view_settled_turn_boundaries v
    \<and> view_latest_compaction_boundary v = map_option snd (last_compaction (concat h))
    \<and> view_latest_usage v = Option.bind (last_settled (concat h)) (\<lambda>e. usage_of (entry_kind e))
    \<and> view_latest_generation v = Option.bind (last_settled (concat h)) (\<lambda>e. generation_of (entry_kind e))"
proof -
  note ctx = history_context [OF assms(1)]
  note msgs = context_of_messages [OF ctx history_ids_distinct [OF assms(1)]]
  have "map_option snd (map_option (\<lambda>c. (cs_summary c, cs_covers_up_to c)) (cp_latest_compaction (sp_context sp)))
      = map_option snd (last_compaction (concat h))"
    using ctx by (simp add: context_of_def)
  then have "latest_compaction_boundary (sp_context sp) = map_option snd (last_compaction (concat h))"
    by (simp add: latest_compaction_boundary_def option.map_comp comp_def)
  moreover have "settled_boundary_ids (sp_context sp) = map entry_id (filter is_settled (concat h))"
    using context_of_boundary_ids [OF ctx refl] by simp
  ultimately
  show ?thesis
    using ctx context_of_boundary_ids [OF ctx assms(3)] assms(2) msgs
    by (auto simp: context_view_def rres_simps context_of_def)
qed

theorem session_view_refines_log_witness:
  "\<exists>v. context_view (at_projection demo_applied4) demo_sid = Ok v
     \<and> view_messages v = [CmSummary (lit ''sum'')]"
proof -
  obtain v where v: "context_view (at_projection demo_applied4) demo_sid = Ok v"
    using context_view_Ok [OF history_inv [OF demo_history4]] by blast
  have "visible_messages (concat demo_h4) = [CmSummary (lit ''sum'')]" by code_simp
  with session_view_refines_log [OF demo_history4 v refl] v show ?thesis by simp
qed

text \<open>C18. Compaction only moves forward: an accepted compaction is alone in its transaction, has a
  non-empty summary and covers a settled operation of this session that lies strictly after the
  entry the previous compaction covered; the log itself is not changed.\<close>

theorem session_compaction_forward:
  assumes "session_history sid h sp" and "apply_transaction sp tx = Ok a"
    and "Compaction summary covers \<in> set (map ne_kind (tx_entries tx))"
  shows "tx_entries tx = [\<lparr>ne_parent = CurrentLeaf, ne_kind = Compaction summary covers\<rparr>]
    \<and> summary \<noteq> [] \<and> covers \<in> set (map entry_id (filter is_settled (concat h)))
    \<and> (\<forall>s p. last_compaction (concat h) = Some (s, p) \<longrightarrow>
         covers \<in> set (map entry_id (entries_after p (concat h))))
    \<and> cp_source_messages (sp_context (at_projection a)) = cp_source_messages (sp_context sp)"
  using compaction_forward [OF assms] .

theorem session_compaction_forward_witness:
  "lit ''s:entry:8'' \<in> set (map entry_id (filter is_settled (concat demo_h3)))"
proof -
  have "Compaction (lit ''sum'') (lit ''s:entry:8'') \<in> set (map ne_kind (tx_entries (demo_tx 3 demo_kinds4)))"
    by code_simp
  from session_compaction_forward [OF demo_history3 demo_apply(4) this] show ?thesis by blast
qed

text \<open>C24. Token totals are exact: a total is reported exactly when both counts are known and their
  sum fits in 64 bits, and then it is that sum; it never wraps.\<close>

theorem session_total_tokens_exact:
  "total_tokens u = Some t \<longleftrightarrow>
    (\<exists>i out. su_input_tokens u = Some i \<and> su_output_tokens u = Some out \<and>
       unat t = unat i + unat out)"
  by (rule total_tokens_exact)

text \<open>C25. A derived title is the text with its whitespace normalised: it exists exactly when the
  text has a visible character and has at most 48 characters and an ellipsis; truncated or not, it
  starts and ends with a visible character and has no whitespace but spaces, never two of them
  together; when it is not truncated its words are exactly the words of the text, and when it is,
  the ellipsis follows the first 48 characters of the single-spaced text with these words.\<close>

theorem session_derived_title:
  "(derive_title t = None \<longleftrightarrow> (\<forall>c \<in> set t. is_whitespace c)) \<and>
   (\<forall>r. derive_title t = Some r \<longrightarrow>
     r \<noteq> [] \<and> length r \<le> 49 \<and> single_spaced r
     \<and> (length r \<le> 48 \<longrightarrow> split_whitespace r = split_whitespace t
          \<and> filter (\<lambda>c. \<not> is_whitespace c) r = filter (\<lambda>c. \<not> is_whitespace c) t)
     \<and> (48 < length r \<longrightarrow> last r = 8230 \<and> butlast r = take 48 (normalized t)))
   \<and> single_spaced (normalized t) \<and> split_whitespace (normalized t) = split_whitespace t"
proof (intro conjI allI)
  show "derive_title t = None \<longleftrightarrow> (\<forall>c \<in> set t. is_whitespace c)"
    by (simp add: derive_title_cases normalized_eq_Nil_iff)
  have "\<not> is_whitespace 8230" by (simp add: is_whitespace_def)
  then show "derive_title t = Some r \<longrightarrow> r \<noteq> [] \<and> length r \<le> 49 \<and> single_spaced r
     \<and> (length r \<le> 48 \<longrightarrow> split_whitespace r = split_whitespace t
          \<and> filter (\<lambda>c. \<not> is_whitespace c) r = filter (\<lambda>c. \<not> is_whitespace c) t)
     \<and> (48 < length r \<longrightarrow> last r = 8230 \<and> butlast r = take 48 (normalized t))" for r
    using single_spaced_normalized [of t] split_whitespace_normalized [of t] normalized_text [of t]
    by (auto simp: derive_title_cases single_spaced_cut split: if_split_asm)
qed (rule single_spaced_normalized split_whitespace_normalized)+

theorem session_derived_title_witness:
  "derive_title (lit '' a  b '') = Some (lit ''a b'') \<and> single_spaced (lit ''a b'')"
proof -
  have t: "derive_title (lit '' a  b '') = Some (lit ''a b'')" by code_simp
  with session_derived_title [of "lit '' a  b ''"] show ?thesis by blast
qed

section \<open>Stores\<close>

text \<open>C9. Optimistic concurrency: in the in-memory store, of two transactions prepared against the
  same revision of a session at most one is accepted; the other is refused with the revision
  conflict that names both revisions, and leaves the store unchanged, whatever transactions on
  other sessions come between them. A transaction refused for any reason, a revision conflict or a
  validation error, leaves the store as it was, and an accepted one changes no other session.\<close>

theorem memory_optimistic_concurrency:
  assumes "memory_inv s" and "memory_commit s tx = (Ok c, s1)"
    and "tx_session_id tx' = tx_session_id tx" "tx_expected_revision tx' = tx_expected_revision tx"
    and "\<forall>other \<in> set others. tx_session_id other \<noteq> tx_session_id tx"
  shows "commit_revision c = revision_next (tx_expected_revision tx) \<and>
    (let s2 = commit_all memory_commit s1 others in
      memory_commit s2 tx' =
        (Err (RevisionConflict (tx_expected_revision tx) (revision_next (tx_expected_revision tx))), s2))
    \<and> (\<forall>any e s'. memory_commit s any = (Err e, s') \<longrightarrow> s' = s)
    \<and> (\<forall>sid. sid \<noteq> tx_session_id tx \<longrightarrow> memory_projection s1 sid = memory_projection s sid)"
proof (intro conjI allI impI)
  show "s' = s" if "memory_commit s any = (Err e, s')" for any e s'
    using that by (cases rule: memory_commit_cases [OF assms(1), of any]) auto
  show "memory_projection s1 sid = memory_projection s sid" if "sid \<noteq> tx_session_id tx" for sid
    using memory.commit_other_session [OF assms(1), of tx sid] assms(2) that by simp
  show "commit_revision c = revision_next (tx_expected_revision tx)"
    by (rule memory.commit_revision(1) [OF assms(1,2)])
  have inv: "memory_inv s1" using memory.commit_inv [OF assms(1), of tx] assms(2) by simp
  have "sp_revision (memory_projection (commit_all memory_commit s1 others) (tx_session_id tx)) =
      revision_next (tx_expected_revision tx)"
    using memory.commit_all_other_session [OF inv assms(5)] memory.commit_revision(2) [OF assms(1,2)]
    by simp
  moreover have "tx_expected_revision tx \<noteq> revision_next (tx_expected_revision tx)"
    using revision_next_neq by metis
  ultimately show "let s2 = commit_all memory_commit s1 others in memory_commit s2 tx' =
      (Err (RevisionConflict (tx_expected_revision tx) (revision_next (tx_expected_revision tx))), s2)"
    using memory.commit_stale [OF memory.commit_all_inv [OF inv], of tx' others] assms(3,4)
    by (simp add: Let_def)
qed

theorem memory_optimistic_concurrency_witness:
  "fst (memory_commit (snd (memory_commit memory_new (demo_tx 0 demo_kinds1))) (demo_tx 0 demo_kinds2)) =
     Err (RevisionConflict revision_zero (revision_next revision_zero))"
proof -
  have ok: "memory_commit memory_new (demo_tx 0 demo_kinds1) =
      (Ok (the_ok (fst (memory_commit memory_new (demo_tx 0 demo_kinds1)))),
       snd (memory_commit memory_new (demo_tx 0 demo_kinds1)))"
    using applied_commit_Ok [OF demo_apply(1)] demo_apply(1)
    by (auto simp: memory_commit_def memory_new_def memory_projection_def demo_tx_def
        projection_empty_def revision_zero_def)
  from memory_optimistic_concurrency [OF memory_inv_new ok, of "demo_tx 0 demo_kinds2" "[]"]
  show ?thesis by (simp add: demo_tx_def revision_zero_def Let_def)
qed

end
