(* ===== verification/Runtime_Types.thy ===== *)
theory Runtime_Types
  imports Kernel_Transition Session_Entry
begin

text \<open>
  The vocabulary of the agent runtime (\<^verbatim>\<open>philo-agent-runtime/src\<close>: \<^verbatim>\<open>message.rs\<close>, \<^verbatim>\<open>model.rs\<close>,
  \<^verbatim>\<open>outcome.rs\<close>, \<^verbatim>\<open>event.rs\<close>, \<^verbatim>\<open>config.rs\<close>, \<^verbatim>\<open>snapshot.rs\<close>, \<^verbatim>\<open>error.rs\<close>) and of the tool port
  (\<^verbatim>\<open>philo-tools/src/result.rs\<close>, \<^verbatim>\<open>port.rs\<close>). Durations and instants are numbers of time units.
  Tool definitions and \<^verbatim>\<open>f32\<close> values are type
  parameters, since the engine copies them without looking inside.
\<close>

section \<open>Messages\<close>

datatype runtime_part = RText rstring | RImage rstring "u8 list"

datatype runtime_message_error = REmptyParts | REmptyTextPart

record runtime_user_message =
  rum_parts :: "runtime_part list"

definition runtime_text_empty :: "runtime_part \<Rightarrow> bool" where
  "runtime_text_empty p = (case p of RText t \<Rightarrow> t = [] | RImage _ _ \<Rightarrow> False)"

definition runtime_from_parts ::
    "runtime_part list \<Rightarrow> (runtime_user_message, runtime_message_error) rres" where
  "runtime_from_parts parts =
     (if parts = [] then Err REmptyParts
      else if list_ex runtime_text_empty parts then Err REmptyTextPart
      else Ok \<lparr>rum_parts = parts\<rparr>)"

record assistant_message =
  am_content :: rstring

section \<open>The model port\<close>

record model_tool_call =
  mcall_id :: rstring
  mcall_name :: rstring
  mcall_arguments :: rstring

datatype model_tool_result_outcome =
    MSuccess rstring
  | MError rstring rstring
  | MCancelled
  | MInterrupted

datatype model_assistant_block = MText rstring | MToolCall model_tool_call

datatype model_message =
    MmSystem rstring
  | MmSummary rstring
  | MmUser "runtime_part list"
  | MmAssistant "model_assistant_block list"
  | MmToolResult rstring model_tool_result_outcome

record tool_call_delta =
  td_index :: nat
  td_id :: "rstring option"
  td_name :: "rstring option"
  td_arguments :: rstring

record token_usage =
  tu_input_tokens :: "u64 option"
  tu_output_tokens :: "u64 option"
  tu_cache_read_tokens :: "u64 option"
  tu_cache_write_tokens :: "u64 option"
  tu_reasoning_tokens :: "u64 option"

datatype model_event =
    MeResponseStarted "rstring option" "rstring option"
  | MeTextDelta rstring
  | MeReasoningDelta rstring
  | MeToolCallDelta nat "rstring option" "rstring option" rstring
  | MeUsageUpdated token_usage
  | MeCompleted "model_assistant_block list"

section \<open>Failures\<close>

datatype failure_domain = DomainProvider | DomainNetwork | DomainCaller | DomainStorage | DomainInternal

datatype failure_stage =
    StageModelPort
  | StageTurnEngine
  | StageKernel
  | StageSessionStore
  | StageToolPort
  | StageEpochSupervisor

datatype retry_disposition = RetryNever | RetrySafe "u64 option" | RetryMayDuplicate "u64 option"

definition is_retryable :: "retry_disposition \<Rightarrow> bool" where
  "is_retryable r = (r \<noteq> RetryNever)"

record model_error =
  me_code :: rstring
  me_domain :: failure_domain
  me_retry :: retry_disposition
  me_summary :: rstring
  me_diagnostic :: rstring

record agent_failure =
  af_code :: rstring
  af_domain :: failure_domain
  af_stage :: failure_stage
  af_retry :: retry_disposition
  af_summary :: rstring
  af_diagnostic :: rstring

definition agent_failure_new ::
    "rstring \<Rightarrow> failure_domain \<Rightarrow> failure_stage \<Rightarrow> retry_disposition \<Rightarrow> rstring \<Rightarrow> rstring \<Rightarrow> agent_failure" where
  "agent_failure_new code domain stage retry summary diagnostic =
     \<lparr>af_code = code, af_domain = domain, af_stage = stage, af_retry = retry,
      af_summary = summary, af_diagnostic = diagnostic\<rparr>"

definition from_model_error :: "model_error \<Rightarrow> agent_failure" where
  "from_model_error e =
     agent_failure_new (me_code e) (me_domain e) StageModelPort (me_retry e) (me_summary e)
       (me_diagnostic e)"

definition with_appended_diagnostic :: "agent_failure \<Rightarrow> rstring \<Rightarrow> agent_failure" where
  "with_appended_diagnostic f suffix =
     f\<lparr>af_diagnostic := af_diagnostic f @ lit ''; failure settlement unconfirmed: '' @ suffix\<rparr>"

datatype durable_failure_kind =
  DkModelCall | DkInvalidModelOutput | DkToolExecution | DkPersistence | DkRuntimeDriver

text \<open>\<^verbatim>\<open>str::starts_with\<close>.\<close>

definition starts_with :: "rstring \<Rightarrow> rstring \<Rightarrow> bool" where
  "starts_with s p = (take (length p) s = p)"

definition durable_kind :: "agent_failure \<Rightarrow> durable_failure_kind" where
  "durable_kind f =
     (case af_stage f of
        StageToolPort \<Rightarrow> DkToolExecution
      | StageSessionStore \<Rightarrow> DkPersistence
      | StageEpochSupervisor \<Rightarrow> DkRuntimeDriver
      | StageKernel \<Rightarrow>
          if af_code f = lit ''kernel.transition_rejected'' then DkRuntimeDriver
          else DkInvalidModelOutput
      | StageTurnEngine \<Rightarrow>
          if af_code f = lit ''engine.invariant_violation'' then DkRuntimeDriver
          else DkPersistence
      | StageModelPort \<Rightarrow>
          if starts_with (af_code f) (lit ''model.port.'')
             \<or> starts_with (af_code f) (lit ''model.output.'')
          then DkInvalidModelOutput else DkModelCall)"

definition invariant_failure :: "rstring \<Rightarrow> agent_failure" where
  "invariant_failure diagnostic =
     agent_failure_new (lit ''engine.invariant_violation'') DomainInternal StageTurnEngine RetryNever
       (lit ''an internal driver invariant was violated'') diagnostic"

section \<open>The tool port\<close>

datatype tool_result = TrSuccess rstring | TrError rstring rstring

record tool_fact =
  fact_name :: rstring
  fact_value :: rstring

record tool_display =
  display_detail :: rstring
  display_facts :: "tool_fact list"

record rich_tool_result =
  rich_result :: tool_result
  rich_display :: "tool_display option"

record tool_port_error =
  tpe_message :: rstring

datatype tool_invoke_end = EndDone rich_tool_result | EndStopped

record tool_invocation =
  inv_call_id :: rstring
  inv_name :: rstring
  inv_arguments :: rstring

section \<open>Operation phases and outcomes\<close>

datatype operation_status = StSucceeded | StFailed | StCancelled

datatype settlement_durability = Confirmed | Unconfirmed

datatype settlement_revision = Committed session_revision | Unchanged

datatype model_call_phase = Starting | WaitingForFirstOutput | Streaming

datatype running_tool_batch_phase = Preparing | Executing nat nat | CommittingResults

datatype operation_phase =
    Queued
  | PreparingTurn
  | RunningModelCall model_call_phase
  | RunningToolBatch running_tool_batch_phase
  | Finalizing
  | Settled operation_status

datatype runtime_outcome =
    OutSucceeded assistant_message
  | OutFailed agent_failure settlement_durability
  | OutCancelled

datatype driver_exit =
    ExitSucceeded
  | ExitFailedConfirmed
  | ExitFailedUnconfirmed
  | ExitCancelledConfirmed
  | ExitPanicked rstring
  | ExitAborted rstring

section \<open>Events\<close>

datatype agent_event =
    EvOperationQueued rstring
  | EvOperationStarted rstring
  | EvTurnStarted rstring
  | EvModelCallStarted rstring
  | EvModelResponseStarted rstring "rstring option" "rstring option"
  | EvTextDelta rstring
  | EvReasoningDelta rstring rstring
  | EvModelUsageUpdated rstring token_usage
  | EvToolBatchRequested rstring nat
  | EvToolExecutionStarted rstring rstring nat rstring rstring
  | EvToolExecutionProgress rstring rstring nat rstring
  | EvToolExecutionCompleted rstring rstring nat rstring tool_result "tool_display option"
  | EvAssistantMessageCompleted rstring assistant_message
  | EvTurnFailed rstring agent_failure
  | EvPriorTurnSealed rstring
  | EvContextCompactionStarted
  | EvContextCompactionCompleted rstring
  | EvContextCompactionFailed rstring
  | EvCancellationRequested rstring cancel_reason
  | EvModelRetryScheduled rstring u32 u32 u64 agent_failure
  | EvTurnCancelled rstring cancel_reason
  | EvOperationSettled rstring operation_status settlement_durability settlement_revision

section \<open>Configuration and snapshots\<close>

datatype reasoning_effort = Minimal | Low | Medium | High | Xhigh | EffortMax

datatype tool_choice = ChoiceAuto | ChoiceNone | ChoiceRequired | ChoiceSpecific rstring

text \<open>\<open>'f\<close> is the type of \<^verbatim>\<open>f32\<close> values, which the engine only copies and compares.\<close>

record 'f generation_config =
  gcfg_max_output_tokens :: u32
  gcfg_temperature :: 'f
  gcfg_reasoning_effort :: "reasoning_effort option"
  gcfg_tool_choice :: tool_choice

record 'f compaction_config =
  cc_context_budget :: "u64 option"
  cc_auto_threshold :: 'f
  cc_keep_recent_turns :: u32
  cc_estimate_bytes_per_token :: u32

record recovery_config =
  rc_enabled :: bool
  rc_max_retries :: u32
  rc_backoff_base_ms :: u64
  rc_backoff_max_ms :: u64

text \<open>\<^verbatim>\<open>u64::saturating_mul\<close> and \<^verbatim>\<open>u64::saturating_add\<close>.\<close>

definition saturating_mul :: "u64 \<Rightarrow> u64 \<Rightarrow> u64" where
  "saturating_mul a b = (if unat a * unat b < 2 ^ 64 then a * b else - 1)"

definition saturating_add :: "u64 \<Rightarrow> u64 \<Rightarrow> u64" where
  "saturating_add a b = (if unat a + unat b < 2 ^ 64 then a + b else - 1)"

text \<open>The delay in milliseconds before a retry; \<open>jitter_value\<close> is the pseudo-random value the
  jitter generator draws, before it is reduced modulo its bound.\<close>

definition backoff_delay :: "recovery_config \<Rightarrow> u32 \<Rightarrow> u64 \<Rightarrow> u64" where
  "backoff_delay rc retry jitter_value =
     (let exponent = min (unat retry - 1) 16;
          cap = max (rc_backoff_max_ms rc) (rc_backoff_base_ms rc);
          bounded = min (saturating_mul (rc_backoff_base_ms rc) (2 ^ exponent)) cap;
          jitter = bounded div 4
      in if jitter = 0 then bounded
         else bounded - ucast (ucast (jitter_value mod max jitter 1) :: u32))"

record 'f runtime_config =
  cfg_system_prompt :: rstring
  cfg_model_target :: rstring
  cfg_generation :: "'f generation_config"
  cfg_max_tool_rounds :: u32
  cfg_max_parallel_tool_calls :: u32
  cfg_operation_timeout :: "nat option"
  cfg_tool_cancel_grace :: nat
  cfg_compaction :: "'f compaction_config"
  cfg_recovery :: recovery_config

record generation_display =
  gd_provider :: "rstring option"
  gd_model_name :: rstring
  gd_model_id :: rstring
  gd_image_input :: bool

text \<open>\<open>'t\<close> is a tool definition, which the engine copies.\<close>

record ('f, 't) turn_snapshot =
  ts_session_id :: rstring
  ts_session_revision :: session_revision
  ts_context_messages :: "model_message list"
  ts_system_prompt :: rstring
  ts_model_target :: rstring
  ts_generation :: "'f generation_config"
  ts_tools :: "'t list"
  ts_max_tool_rounds :: u32
  ts_max_parallel_tool_calls :: u32

record ('f, 't) model_call_snapshot =
  mc_session_id :: rstring
  mc_context_fingerprint :: rstring
  mc_persist_replay :: bool
  mc_operation_id :: rstring
  mc_turn_id :: rstring
  mc_model_call_id :: rstring
  mc_model_call_index :: u32
  mc_session_revision :: session_revision
  mc_messages :: "model_message list"
  mc_tools :: "'t list"
  mc_model_target :: rstring
  mc_generation :: "'f generation_config"
  mc_max_parallel_tool_calls :: u32

end
