(* ===== verification/Runtime_Mapping.thy ===== *)
theory Runtime_Mapping
  imports Runtime_Types
begin

text \<open>
  The pure mappings between the layers (\<^verbatim>\<open>philo-agent-runtime/src/mapping\<close>): kernel observations to
  durable entries, context and turn messages to model messages, tool results, user parts, usage,
  the generation choice and failures.
\<close>

section \<open>User parts\<close>

definition kernel_user_part :: "runtime_part \<Rightarrow> user_part" where
  "kernel_user_part p = (case p of RText t \<Rightarrow> KText t | RImage m b \<Rightarrow> KImage m b)"

definition kernel_user_parts :: "runtime_part list \<Rightarrow> user_part list" where
  "kernel_user_parts ps = map kernel_user_part ps"

definition session_user_part_of :: "user_part \<Rightarrow> session_user_part" where
  "session_user_part_of p = (case p of KText t \<Rightarrow> SText t | KImage m b \<Rightarrow> SImage m b)"

definition session_user_parts :: "user_part list \<Rightarrow> session_user_part list" where
  "session_user_parts ps = map session_user_part_of ps"

definition runtime_part_from_session :: "session_user_part \<Rightarrow> runtime_part" where
  "runtime_part_from_session p = (case p of SText t \<Rightarrow> RText t | SImage m b \<Rightarrow> RImage m b)"

definition runtime_parts_from_session :: "session_user_part list \<Rightarrow> runtime_part list" where
  "runtime_parts_from_session ps = map runtime_part_from_session ps"

definition runtime_part_from_kernel :: "user_part \<Rightarrow> runtime_part" where
  "runtime_part_from_kernel p = (case p of KText t \<Rightarrow> RText t | KImage m b \<Rightarrow> RImage m b)"

definition runtime_parts_from_kernel :: "user_part list \<Rightarrow> runtime_part list" where
  "runtime_parts_from_kernel ps = map runtime_part_from_kernel ps"

section \<open>Usage and generation\<close>

definition session_usage :: "token_usage \<Rightarrow> session_token_usage" where
  "session_usage u =
     \<lparr>su_input_tokens = tu_input_tokens u, su_output_tokens = tu_output_tokens u,
      su_cache_read_tokens = tu_cache_read_tokens u, su_cache_write_tokens = tu_cache_write_tokens u,
      su_reasoning_tokens = tu_reasoning_tokens u\<rparr>"

text \<open>The lower-cased \<^verbatim>\<open>Debug\<close> name of the effort.\<close>

definition effort_label :: "reasoning_effort \<Rightarrow> rstring" where
  "effort_label e =
     (case e of
        Minimal \<Rightarrow> lit ''minimal''
      | Low \<Rightarrow> lit ''low''
      | Medium \<Rightarrow> lit ''medium''
      | High \<Rightarrow> lit ''high''
      | Xhigh \<Rightarrow> lit ''xhigh''
      | EffortMax \<Rightarrow> lit ''max'')"

definition generation_choice_of ::
    "generation_display \<Rightarrow> 'f runtime_config \<Rightarrow> session_generation_choice" where
  "generation_choice_of display config =
     \<lparr>gc_provider = gd_provider display,
      gc_model_id = gd_model_id display,
      gc_reasoning_effort = map_option effort_label (gcfg_reasoning_effort (cfg_generation config))\<rparr>"

section \<open>Durable entries\<close>

definition begun_observation :: "kernel_observation \<Rightarrow> (rstring \<times> user_message) option" where
  "begun_observation obs = (case obs of ObTurnBegan t u \<Rightarrow> Some (t, u) | _ \<Rightarrow> None)"

definition start_entries ::
    "kernel_observation list \<Rightarrow> rstring \<Rightarrow> rstring \<Rightarrow> (session_entry_kind list, agent_failure) rres" where
  "start_entries obs operation_id turn_id =
     (case find_map begun_observation obs of
        None \<Rightarrow> Err (invariant_failure (lit ''missing TurnBegan observation''))
      | Some (observed, user) \<Rightarrow>
          if observed \<noteq> turn_id then
            Err (invariant_failure (lit ''unexpected TurnBegan turn id''))
          else Ok
            [OperationStarted operation_id,
             TurnStarted operation_id turn_id,
             UserMessage turn_id (session_user_parts (um_parts user))])"

definition session_text_block :: "assistant_block \<Rightarrow> session_assistant_block option" where
  "session_text_block b = (case b of KTextBlock t \<Rightarrow> Some (STextBlock t) | KToolCall _ \<Rightarrow> None)"

definition output_observation :: "kernel_observation \<Rightarrow> assistant_output option" where
  "output_observation obs = (case obs of ObAssistantOutputAccepted _ out \<Rightarrow> Some out | _ \<Rightarrow> None)"

definition success_entries ::
    "kernel_observation list \<Rightarrow> rstring \<Rightarrow> rstring \<Rightarrow> token_usage option \<Rightarrow> session_generation_choice
      \<Rightarrow> (session_entry_kind list, agent_failure) rres" where
  "success_entries obs operation_id turn_id usage generation =
     (case find_map output_observation obs of
        None \<Rightarrow> Err (invariant_failure (lit ''missing accepted assistant output''))
      | Some out \<Rightarrow>
          if \<not> list_ex (\<lambda>ob. ob = ObTurnTerminated KSucceeded) obs then
            Err (invariant_failure (lit ''missing successful termination''))
          else Ok
            [AssistantMessage turn_id (List.map_filter session_text_block (ao_blocks out)),
             TurnTerminated turn_id TurnSucceeded,
             OperationSettled operation_id OpSucceeded (map_option session_usage usage)
               (Some generation)])"

definition kernel_failure :: "agent_failure \<Rightarrow> kernel_turn_failure" where
  "kernel_failure f =
     (case durable_kind f of
        DkModelCall \<Rightarrow> ModelCallFailed (af_diagnostic f)
      | DkInvalidModelOutput \<Rightarrow> InvalidModelOutput (af_diagnostic f)
      | DkToolExecution \<Rightarrow> ToolExecutionFailed (af_diagnostic f)
      | DkPersistence \<Rightarrow> PersistenceFailed (af_diagnostic f)
      | DkRuntimeDriver \<Rightarrow> RuntimeDriverFailed (af_diagnostic f))"

definition session_failure_from_kernel :: "kernel_turn_failure \<Rightarrow> turn_failure" where
  "session_failure_from_kernel f =
     (case f of
        ModelCallFailed m \<Rightarrow> \<lparr>tf_kind = FkModelCall, tf_message = m\<rparr>
      | InvalidModelOutput m \<Rightarrow> \<lparr>tf_kind = FkInvalidModelOutput, tf_message = m\<rparr>
      | ToolExecutionFailed m \<Rightarrow> \<lparr>tf_kind = FkToolExecution, tf_message = m\<rparr>
      | PersistenceFailed m \<Rightarrow> \<lparr>tf_kind = FkPersistence, tf_message = m\<rparr>
      | RuntimeDriverFailed m \<Rightarrow> \<lparr>tf_kind = FkRuntimeDriver, tf_message = m\<rparr>)"

definition failure_observation :: "kernel_observation \<Rightarrow> kernel_turn_failure option" where
  "failure_observation obs = (case obs of ObTurnFailureAccepted _ f \<Rightarrow> Some f | _ \<Rightarrow> None)"

definition failure_entries ::
    "kernel_observation list \<Rightarrow> rstring \<Rightarrow> rstring \<Rightarrow> token_usage option \<Rightarrow> session_generation_choice
      \<Rightarrow> (session_entry_kind list, agent_failure) rres" where
  "failure_entries obs operation_id turn_id usage generation =
     (case find_map failure_observation obs of
        None \<Rightarrow> Err (invariant_failure (lit ''missing accepted failure''))
      | Some failure \<Rightarrow> Ok
          [TurnFailureEntry turn_id (session_failure_from_kernel failure),
           TurnTerminated turn_id TurnFailed,
           OperationSettled operation_id OpFailed (map_option session_usage usage)
             (Some generation)])"

definition session_block :: "assistant_block \<Rightarrow> session_assistant_block" where
  "session_block b =
     (case b of
        KTextBlock t \<Rightarrow> STextBlock t
      | KToolCall c \<Rightarrow> SToolCall \<lparr>scall_id = kcall_id c, scall_name = kcall_name c,
                                  scall_arguments = kcall_arguments c\<rparr>)"

definition batch_entry ::
    "rstring \<Rightarrow> rstring \<Rightarrow> rstring \<Rightarrow> assistant_block list \<Rightarrow> session_entry_kind" where
  "batch_entry turn_id model_call_id batch_id blocks =
     AssistantToolCallBatch turn_id model_call_id batch_id (map session_block blocks)"

section \<open>Failures of the store\<close>

definition session_failure :: "(session_error \<Rightarrow> rstring) \<Rightarrow> rstring \<Rightarrow> session_error \<Rightarrow> agent_failure" where
  "session_failure describe context error =
     (let (code, domain, retry, summary) =
        (case error of
           StoreBusy _ \<Rightarrow> (lit ''session.store_busy'', DomainStorage, RetrySafe None,
             lit ''the local session store queue is full'')
         | StoreUnavailable _ \<Rightarrow> (lit ''session.store_unavailable'', DomainStorage, RetryNever,
             lit ''the local session store is unavailable'')
         | RevisionConflict _ _ \<Rightarrow> (lit ''session.revision_conflict'', DomainInternal, RetryNever,
             lit ''the session changed concurrently'')
         | Validation _ \<Rightarrow> (lit ''session.validation_rejected'', DomainInternal, RetryNever,
             lit ''the session rejected the transaction''))
      in agent_failure_new code domain StageSessionStore retry summary
           (context @ lit '': '' @ describe error))"

definition commit_summary :: "rstring \<Rightarrow> rstring" where
  "commit_summary code =
     (if code = lit ''engine.barrier_a_commit_failed'' then lit ''the turn start could not be recorded''
      else if code = lit ''engine.barrier_b_commit_failed'' then
        lit ''the tool call batch could not be recorded''
      else if code = lit ''engine.barrier_c_commit_failed'' then
        lit ''the tool results could not be recorded''
      else if code = lit ''engine.settlement_commit_failed'' then
        lit ''the successful settlement could not be recorded''
      else if code = lit ''engine.cancel_commit_failed'' then
        lit ''the cancellation could not be recorded''
      else if code = lit ''engine.seal_commit_failed'' then
        lit ''a stale unfinished turn could not be sealed''
      else lit ''a session commit failed'')"

definition commit_failure ::
    "(session_error \<Rightarrow> rstring) \<Rightarrow> rstring \<Rightarrow> retry_disposition \<Rightarrow> rstring \<Rightarrow> session_error
      \<Rightarrow> agent_failure" where
  "commit_failure describe code retry context error =
     agent_failure_new code DomainStorage StageTurnEngine retry (commit_summary code)
       (context @ lit '': '' @ describe error)"

section \<open>Tool results\<close>

definition kernel_result :: "kernel_tool_call \<Rightarrow> tool_result \<Rightarrow> kernel_tool_result" where
  "kernel_result call result =
     (case result of
        TrSuccess content \<Rightarrow> kernel_result_success (kcall_id call) content
      | TrError code message \<Rightarrow> kernel_result_error (kcall_id call) code message)"

definition session_result :: "kernel_tool_call \<Rightarrow> tool_result \<Rightarrow> session_tool_result" where
  "session_result call result =
     (case result of
        TrSuccess content \<Rightarrow> session_result_success (kcall_id call) content
      | TrError code message \<Rightarrow> session_result_error (kcall_id call) code message)"

section \<open>Messages\<close>

definition model_call_of_session :: "session_tool_call \<Rightarrow> model_tool_call" where
  "model_call_of_session c =
     \<lparr>mcall_id = scall_id c, mcall_name = scall_name c, mcall_arguments = scall_arguments c\<rparr>"

definition model_blocks_from_session :: "session_assistant_block list \<Rightarrow> model_assistant_block list" where
  "model_blocks_from_session bs =
     map (\<lambda>b. case b of STextBlock t \<Rightarrow> MText t | SToolCall c \<Rightarrow> MToolCall (model_call_of_session c)) bs"

definition model_call_of_kernel :: "kernel_tool_call \<Rightarrow> model_tool_call" where
  "model_call_of_kernel c =
     \<lparr>mcall_id = kcall_id c, mcall_name = kcall_name c, mcall_arguments = kcall_arguments c\<rparr>"

definition model_blocks_from_kernel :: "assistant_block list \<Rightarrow> model_assistant_block list" where
  "model_blocks_from_kernel bs =
     map (\<lambda>b. case b of KTextBlock t \<Rightarrow> MText t | KToolCall c \<Rightarrow> MToolCall (model_call_of_kernel c)) bs"

definition kernel_call_of_model :: "model_tool_call \<Rightarrow> kernel_tool_call" where
  "kernel_call_of_model c =
     \<lparr>kcall_id = mcall_id c, kcall_name = mcall_name c, kcall_arguments = mcall_arguments c\<rparr>"

definition kernel_blocks_from_model :: "model_assistant_block list \<Rightarrow> assistant_block list" where
  "kernel_blocks_from_model bs =
     map (\<lambda>b. case b of MText t \<Rightarrow> KTextBlock t | MToolCall c \<Rightarrow> KToolCall (kernel_call_of_model c)) bs"

definition tool_call_ids_from_session :: "session_assistant_block list \<Rightarrow> rstring list" where
  "tool_call_ids_from_session bs =
     List.map_filter (\<lambda>b. case b of SToolCall c \<Rightarrow> Some (scall_id c) | STextBlock _ \<Rightarrow> None) bs"

definition model_outcome_of_session :: "tool_result_outcome \<Rightarrow> model_tool_result_outcome" where
  "model_outcome_of_session oc =
     (case oc of
        SSuccess content \<Rightarrow> MSuccess content
      | SError code message \<Rightarrow> MError code message
      | SCancelled \<Rightarrow> MCancelled
      | SInterrupted \<Rightarrow> MInterrupted)"

definition flush_interrupted_placeholders :: "rstring list \<Rightarrow> model_message list" where
  "flush_interrupted_placeholders pending = map (\<lambda>i. MmToolResult i MInterrupted) pending"

text \<open>The loop of \<^verbatim>\<open>context_messages\<close>: \<open>pending\<close> are the ids of the calls not answered yet,
  the list returned is what is pushed from here on.\<close>

fun context_messages_loop :: "context_message list \<Rightarrow> rstring list \<Rightarrow> model_message list" where
  "context_messages_loop [] pending = flush_interrupted_placeholders pending"
| "context_messages_loop (CmToolResult call_id oc # ms) pending =
     MmToolResult call_id (model_outcome_of_session oc) # context_messages_loop ms (drop 1 pending)"
| "context_messages_loop (CmSummary text # ms) pending =
     flush_interrupted_placeholders pending @ MmSummary text # context_messages_loop ms []"
| "context_messages_loop (CmUser parts # ms) pending =
     flush_interrupted_placeholders pending @
       MmUser (runtime_parts_from_session parts) # context_messages_loop ms []"
| "context_messages_loop (CmAssistant blocks # ms) pending =
     flush_interrupted_placeholders pending @
       MmAssistant (model_blocks_from_session blocks) # context_messages_loop ms []"
| "context_messages_loop (CmAssistantToolCalls _ blocks # ms) pending =
     flush_interrupted_placeholders pending @
       MmAssistant (model_blocks_from_session blocks)
         # context_messages_loop ms (tool_call_ids_from_session blocks)"

definition context_messages :: "session_context_view \<Rightarrow> model_message list" where
  "context_messages v = context_messages_loop (view_messages v) []"

definition model_outcome_of_kernel :: "kernel_tool_result_outcome \<Rightarrow> model_tool_result_outcome" where
  "model_outcome_of_kernel oc =
     (case oc of KSuccess content \<Rightarrow> MSuccess content | KError code message \<Rightarrow> MError code message)"

definition model_turn_message :: "turn_message \<Rightarrow> model_message" where
  "model_turn_message m =
     (case m of
        TmUser user \<Rightarrow> MmUser (runtime_parts_from_kernel (um_parts user))
      | TmAssistant out \<Rightarrow> MmAssistant (model_blocks_from_kernel (ao_blocks out))
      | TmAssistantToolCalls _ blocks \<Rightarrow> MmAssistant (model_blocks_from_kernel blocks)
      | TmToolResult r \<Rightarrow> MmToolResult (kresult_call_id r) (model_outcome_of_kernel (kresult_outcome r)))"

definition model_turn_messages :: "turn_message list \<Rightarrow> model_message list" where
  "model_turn_messages ms = map model_turn_message ms"

definition build_messages :: "('f, 't) turn_snapshot \<Rightarrow> turn_message list \<Rightarrow> model_message list" where
  "build_messages turn ms =
     [MmSystem (ts_system_prompt turn)] @ ts_context_messages turn @ model_turn_messages ms"

end
