(* ===== verification/Operation_Shared.thy ===== *)
theory Operation_Shared
  imports Runtime_Mapping Session_Store
begin

text \<open>
  The state a driver shares with the coordinator (\<^verbatim>\<open>operation/shared.rs\<close>), the publisher that
  settles an operation once (\<^verbatim>\<open>operation/publisher.rs\<close>), and the world a driver runs in: the
  session store, the shared state and a clock of interactions with the environment.

  Everything the driver does not decide itself is an answer of the environment, a function of the
  number of interactions so far: concurrent cancel requests, the time, what the model port and
  the tools answer. A theorem about all environments is a theorem about all interleavings of
  those answers with the driver's steps.
\<close>

section \<open>Shared state\<close>

record operation_shared =
  sh_operation_id :: rstring
  sh_turn_id :: rstring
  sh_cancel_requested :: bool
  sh_tool_cancel :: bool
  sh_cancel_reason :: "cancel_reason option"
  sh_deadline :: "nat option"
  sh_phase :: operation_phase
  sh_exit :: "driver_exit option"
  sh_failure :: "agent_failure option"
  sh_events :: "agent_event list"
  sh_transient :: "agent_event list"
  sh_settlement_revision :: "settlement_revision option"
  sh_last_usage :: "token_usage option"

definition shared_new :: "rstring \<Rightarrow> rstring \<Rightarrow> operation_phase \<Rightarrow> operation_shared" where
  "shared_new operation_id turn_id ph =
     \<lparr>sh_operation_id = operation_id, sh_turn_id = turn_id, sh_cancel_requested = False,
      sh_tool_cancel = False, sh_cancel_reason = None, sh_deadline = None, sh_phase = ph,
      sh_exit = None, sh_failure = None, sh_events = [], sh_transient = [],
      sh_settlement_revision = None, sh_last_usage = None\<rparr>"

text \<open>\<^verbatim>\<open>is_transient_agent\<close> of \<^verbatim>\<open>transient.rs\<close>.\<close>

definition is_transient_agent :: "agent_event \<Rightarrow> bool" where
  "is_transient_agent ev =
     (case ev of
        EvTextDelta _ \<Rightarrow> True
      | EvReasoningDelta _ _ \<Rightarrow> True
      | EvModelUsageUpdated _ _ \<Rightarrow> True
      | EvToolExecutionProgress _ _ _ _ \<Rightarrow> True
      | _ \<Rightarrow> False)"

text \<open>Events handed to the coordinator's channel, and to the latest-wins transient store, in the
  order of publication.\<close>

definition shared_publish :: "agent_event \<Rightarrow> operation_shared \<Rightarrow> operation_shared" where
  "shared_publish ev sh =
     (if is_transient_agent ev then
        (let sh1 = (case ev of EvModelUsageUpdated _ usage \<Rightarrow> sh\<lparr>sh_last_usage := Some usage\<rparr>
                     | _ \<Rightarrow> sh)
         in sh1\<lparr>sh_transient := sh_transient sh1 @ [ev]\<rparr>)
      else
        (let sh1 = (case ev of EvOperationSettled _ _ _ revision \<Rightarrow> sh\<lparr>sh_settlement_revision := Some revision\<rparr>
                     | _ \<Rightarrow> sh)
         in sh1\<lparr>sh_events := sh_events sh1 @ [ev]\<rparr>))"

definition shared_set_phase :: "operation_phase \<Rightarrow> operation_shared \<Rightarrow> operation_shared" where
  "shared_set_phase ph sh = sh\<lparr>sh_phase := ph\<rparr>"

definition shared_request_cancel :: "cancel_reason \<Rightarrow> operation_shared \<Rightarrow> operation_shared" where
  "shared_request_cancel reason sh =
     (if sh_cancel_reason sh = None then
        sh\<lparr>sh_cancel_reason := Some reason, sh_cancel_requested := True, sh_tool_cancel := True\<rparr>
      else sh)"

definition shared_cancel_reason :: "operation_shared \<Rightarrow> cancel_reason" where
  "shared_cancel_reason sh = (case sh_cancel_reason sh of Some r \<Rightarrow> r | None \<Rightarrow> ReasonUser)"

definition shared_arm_deadline :: "nat \<Rightarrow> nat option \<Rightarrow> operation_shared \<Rightarrow> operation_shared" where
  "shared_arm_deadline now timeout sh = sh\<lparr>sh_deadline := map_option (\<lambda>t. now + t) timeout\<rparr>"

text \<open>\<^verbatim>\<open>is_cancel_requested\<close> when the clock reads \<open>now\<close>.\<close>

definition shared_check_cancel :: "nat \<Rightarrow> operation_shared \<Rightarrow> bool \<times> operation_shared" where
  "shared_check_cancel now sh =
     (let sh1 =
        (if \<not> sh_cancel_requested sh
            \<and> (case sh_deadline sh of Some deadline \<Rightarrow> deadline \<le> now | None \<Rightarrow> False)
         then shared_request_cancel ReasonTimeout sh else sh)
      in (sh_cancel_requested sh1, sh1))"

definition outcome_status :: "runtime_outcome \<Rightarrow> operation_status" where
  "outcome_status oc =
     (case oc of
        OutSucceeded _ \<Rightarrow> StSucceeded
      | OutFailed _ _ \<Rightarrow> StFailed
      | OutCancelled \<Rightarrow> StCancelled)"

definition outcome_exit :: "runtime_outcome \<Rightarrow> driver_exit" where
  "outcome_exit oc =
     (case oc of
        OutSucceeded _ \<Rightarrow> ExitSucceeded
      | OutFailed _ Confirmed \<Rightarrow> ExitFailedConfirmed
      | OutFailed _ Unconfirmed \<Rightarrow> ExitFailedUnconfirmed
      | OutCancelled \<Rightarrow> ExitCancelledConfirmed)"

fun is_settled_phase :: "operation_phase \<Rightarrow> bool" where
  "is_settled_phase (Settled _) = True"
| "is_settled_phase _ = False"

definition shared_settle :: "runtime_outcome \<Rightarrow> operation_shared \<Rightarrow> bool \<times> operation_shared" where
  "shared_settle oc sh =
     (if is_settled_phase (sh_phase sh) then (False, sh)
      else
        (let sh1 = sh\<lparr>sh_phase := Settled (outcome_status oc)\<rparr>;
             sh2 = (case oc of OutFailed failure _ \<Rightarrow> sh1\<lparr>sh_failure := Some failure\<rparr> | _ \<Rightarrow> sh1)
         in (True, sh2\<lparr>sh_exit := Some (outcome_exit oc)\<rparr>)))"

definition has_committed_settlement :: "operation_shared \<Rightarrow> bool" where
  "has_committed_settlement sh \<longleftrightarrow>
     is_settled_phase (sh_phase sh)
     \<and> (case sh_settlement_revision sh of Some (Committed _) \<Rightarrow> True | _ \<Rightarrow> False)"

definition shared_take_exit :: "operation_shared \<Rightarrow> driver_exit \<times> operation_shared" where
  "shared_take_exit sh =
     (case sh_exit sh of
        Some e \<Rightarrow> (e, sh\<lparr>sh_exit := None\<rparr>)
      | None \<Rightarrow> (ExitAborted (lit ''driver-missing-exit''), sh))"

section \<open>The publisher\<close>

definition publish_settled ::
    "operation_status \<Rightarrow> settlement_durability \<Rightarrow> settlement_revision \<Rightarrow> operation_shared
      \<Rightarrow> operation_shared" where
  "publish_settled status dur revision sh =
     shared_publish (EvOperationSettled (sh_operation_id sh) status dur revision) sh"

definition publisher_begin :: "nat \<Rightarrow> nat option \<Rightarrow> operation_shared \<Rightarrow> operation_shared" where
  "publisher_begin now timeout sh =
     shared_set_phase PreparingTurn
       (shared_publish (EvOperationStarted (sh_operation_id sh)) (shared_arm_deadline now timeout sh))"

definition turn_started :: "operation_shared \<Rightarrow> operation_shared" where
  "turn_started sh = shared_publish (EvTurnStarted (sh_turn_id sh)) sh"

definition prior_turn_sealed :: "rstring \<Rightarrow> operation_shared \<Rightarrow> operation_shared" where
  "prior_turn_sealed turn_id sh = shared_publish (EvPriorTurnSealed turn_id) sh"

definition cancellation_observed :: "operation_shared \<Rightarrow> operation_shared" where
  "cancellation_observed sh =
     shared_publish (EvCancellationRequested (sh_operation_id sh) (shared_cancel_reason sh)) sh"

definition publisher_succeed ::
    "assistant_message \<Rightarrow> session_revision \<Rightarrow> operation_shared \<Rightarrow> operation_shared" where
  "publisher_succeed assistant revision sh =
     (case shared_settle (OutSucceeded assistant) sh of
        (False, sh1) \<Rightarrow> sh1
      | (True, sh1) \<Rightarrow>
          publish_settled StSucceeded Confirmed (Committed revision)
            (shared_publish (EvAssistantMessageCompleted (sh_turn_id sh1) assistant) sh1))"

definition fail_confirmed ::
    "agent_failure \<Rightarrow> session_revision \<Rightarrow> operation_shared \<Rightarrow> operation_shared" where
  "fail_confirmed failure revision sh =
     (case shared_settle (OutFailed failure Confirmed) sh of
        (False, sh1) \<Rightarrow> sh1
      | (True, sh1) \<Rightarrow>
          publish_settled StFailed Confirmed (Committed revision)
            (shared_publish (EvTurnFailed (sh_turn_id sh1) failure) sh1))"

definition publisher_fail ::
    "agent_failure \<Rightarrow> settlement_durability \<Rightarrow> settlement_revision \<Rightarrow> operation_shared
      \<Rightarrow> operation_shared" where
  "publisher_fail failure dur revision sh =
     (case shared_settle (OutFailed failure dur) sh of
        (False, sh1) \<Rightarrow> sh1
      | (True, sh1) \<Rightarrow> publish_settled StFailed dur revision sh1)"

definition fail_unconfirmed :: "agent_failure \<Rightarrow> operation_shared \<Rightarrow> operation_shared" where
  "fail_unconfirmed failure = publisher_fail failure Unconfirmed Unchanged"

definition cancel_zero_trace :: "operation_shared \<Rightarrow> operation_shared" where
  "cancel_zero_trace sh =
     (case shared_settle OutCancelled sh of
        (False, sh1) \<Rightarrow> sh1
      | (True, sh1) \<Rightarrow> publish_settled StCancelled Confirmed Unchanged sh1)"

definition cancel_committed :: "session_revision \<Rightarrow> operation_shared \<Rightarrow> operation_shared" where
  "cancel_committed revision sh =
     (case shared_settle OutCancelled sh of
        (False, sh1) \<Rightarrow> sh1
      | (True, sh1) \<Rightarrow>
          publish_settled StCancelled Confirmed (Committed revision)
            (shared_publish (EvTurnCancelled (sh_turn_id sh1) (shared_cancel_reason sh1)) sh1))"

section \<open>The environment and the world\<close>

text \<open>The model port answers a request with an error or a stream, the list of the items it yields
  before it ends. A tool call ends with \<open>Some\<close> answer or, \<open>None\<close>, does not end by itself.\<close>

datatype stream_item = ItemEvent model_event | ItemError model_error

type_synonym invoke_answer = "tool_invoke_end + tool_port_error"

record ('f, 't) environment =
  env_request :: "nat \<Rightarrow> cancel_reason option"
  env_now :: "nat \<Rightarrow> nat"
  env_start :: "nat \<Rightarrow> ('f, 't) model_call_snapshot \<Rightarrow> stream_item list + model_error"
  env_invoke :: "nat \<Rightarrow> tool_invocation \<Rightarrow> invoke_answer option"
  env_next :: "nat \<Rightarrow> nat \<Rightarrow> (nat \<times> invoke_answer) option"
  env_maintenance_cancel :: "nat \<Rightarrow> bool"
  env_jitter :: "nat \<Rightarrow> u64"

datatype ('f, 't) trace_action =
    ActCommitted session_transaction
  | ActModelStarted "('f, 't) model_call_snapshot"
  | ActInvoked rstring rstring

record ('s, 'f, 't) world =
  w_tick :: nat
  w_store :: 's
  w_shared :: operation_shared
  w_last_input_tokens :: "(rstring, u64) hashmap"
  w_trace :: "('f, 't) trace_action list"
  w_panicked :: bool
  w_blocked :: bool

text \<open>The owned dependencies of a driver. \<open>ec_describe\<close> is the derived \<^verbatim>\<open>Debug\<close> rendering of a
  session error, \<open>ec_over_threshold\<close> the \<^verbatim>\<open>f32\<close> comparison of the observed size with the
  threshold share of the budget.\<close>

record ('s, 'f, 't) engine_context =
  ec_view :: "'s store_view"
  ec_commit :: "'s store_commit"
  ec_config :: "'f runtime_config"
  ec_display :: generation_display
  ec_tools :: "'t list"
  ec_describe :: "session_error \<Rightarrow> rstring"
  ec_over_threshold :: "u64 \<Rightarrow> 'f \<Rightarrow> u64 \<Rightarrow> bool"

definition on_shared ::
    "(operation_shared \<Rightarrow> operation_shared) \<Rightarrow> ('s, 'f, 't) world \<Rightarrow> ('s, 'f, 't) world" where
  "on_shared f w = w\<lparr>w_shared := f (w_shared w)\<rparr>"

definition push :: "agent_event \<Rightarrow> ('s, 'f, 't) world \<Rightarrow> ('s, 'f, 't) world" where
  "push ev = on_shared (shared_publish ev)"

definition set_phase :: "operation_phase \<Rightarrow> ('s, 'f, 't) world \<Rightarrow> ('s, 'f, 't) world" where
  "set_phase ph = on_shared (shared_set_phase ph)"

text \<open>One interaction: a concurrent cancel request may have been stored meanwhile.\<close>

definition tick :: "('f, 't) environment \<Rightarrow> ('s, 'f, 't) world \<Rightarrow> ('s, 'f, 't) world" where
  "tick env w =
     w\<lparr>w_tick := Suc (w_tick w),
       w_shared :=
         (case env_request env (w_tick w) of
            Some reason \<Rightarrow> shared_request_cancel reason (w_shared w)
          | None \<Rightarrow> w_shared w)\<rparr>"

definition is_cancel_requested ::
    "('f, 't) environment \<Rightarrow> ('s, 'f, 't) world \<Rightarrow> bool \<times> ('s, 'f, 't) world" where
  "is_cancel_requested env w =
     (let w1 = tick env w;
          (requested, sh) = shared_check_cancel (env_now env (w_tick w)) (w_shared w1)
      in (requested, w1\<lparr>w_shared := sh\<rparr>))"

text \<open>A commit through the store, with a panic of the store as a panic of the driver.\<close>

definition do_commit ::
    "('s, 'f, 't) engine_context \<Rightarrow> session_transaction \<Rightarrow> ('s, 'f, 't) world
      \<Rightarrow> (session_commit, session_error) rres \<times> ('s, 'f, 't) world" where
  "do_commit ctx tx w =
     (case ec_commit ctx (w_store w) tx of
        (r, s) \<Rightarrow>
          (r, w\<lparr>w_store := s,
                w_trace := w_trace w @ (case r of Ok _ \<Rightarrow> [ActCommitted tx] | _ \<Rightarrow> []),
                w_panicked := (w_panicked w \<or> r = Panic)\<rparr>))"

definition driver_panic :: "('s, 'f, 't) world \<Rightarrow> ('s, 'f, 't) world" where
  "driver_panic w = w\<lparr>w_panicked := True\<rparr>"

definition do_view ::
    "('s, 'f, 't) engine_context \<Rightarrow> rstring \<Rightarrow> ('s, 'f, 't) world
      \<Rightarrow> (session_context_view, session_error) rres \<times> ('s, 'f, 't) world" where
  "do_view ctx sid w =
     (let r = ec_view ctx (w_store w) sid
      in (r, w\<lparr>w_panicked := (w_panicked w \<or> r = Panic)\<rparr>))"

end
