(* ===== verification/Engine_Settlement.thy ===== *)
theory Engine_Settlement
  imports Operation_Shared
begin

text \<open>
  The terminal settlement paths of a turn whose start is durable (\<^verbatim>\<open>engine/settlement.rs\<close>) and
  the seal step for turns an earlier process left open (\<^verbatim>\<open>engine/seal.rs\<close>).
\<close>

section \<open>The driving context of a started turn\<close>

record turn_cx =
  cx_session_id :: rstring
  cx_revision :: session_revision
  cx_current_leaf :: rstring
  cx_state :: kernel_state

abbreviation (input) ec_generation_choice ::
    "('s, 'f, 't) engine_context \<Rightarrow> session_generation_choice" where
  "ec_generation_choice ctx \<equiv> generation_choice_of (ec_display ctx) (ec_config ctx)"

definition turn_fail ::
    "('s, 'f, 't) engine_context \<Rightarrow> turn_cx \<Rightarrow> rstring \<Rightarrow> agent_failure \<Rightarrow> ('s, 'f, 't) world
      \<Rightarrow> ('s, 'f, 't) world" where
  "turn_fail ctx cx effect_id failure w =
     (let usage = sh_last_usage (w_shared w) in
      case transition (cx_state cx) (TerminationRequested effect_id (kernel_failure failure)) of
        Panic \<Rightarrow> driver_panic w
      | Err _ \<Rightarrow> on_shared (fail_unconfirmed failure) w
      | Ok termination \<Rightarrow>
          (case failure_entries (observations termination) (sh_operation_id (w_shared w))
                  (sh_turn_id (w_shared w)) usage (ec_generation_choice ctx) of
             Panic \<Rightarrow> driver_panic w
           | Err _ \<Rightarrow> on_shared (fail_unconfirmed failure) w
           | Ok entries \<Rightarrow>
               (case do_commit ctx (transaction_linear (cx_session_id cx) (cx_revision cx) entries) w of
                  (Ok c, w1) \<Rightarrow> on_shared (fail_confirmed failure (commit_revision c)) w1
                | (Err e, w1) \<Rightarrow>
                    on_shared (fail_unconfirmed (with_appended_diagnostic failure (ec_describe ctx e))) w1
                | (Panic, w1) \<Rightarrow> w1)))"

definition cancel_entries ::
    "('s, 'f, 't) engine_context \<Rightarrow> operation_shared \<Rightarrow> session_entry_kind list
      \<Rightarrow> session_entry_kind list" where
  "cancel_entries ctx sh completion_marks =
     (let reason = shared_cancel_reason sh in
      completion_marks @
        [TurnTerminated (sh_turn_id sh) (TurnCancelled reason),
         OperationSettled (sh_operation_id sh) (OpCancelled reason)
           (map_option session_usage (sh_last_usage sh)) (Some (ec_generation_choice ctx))])"

definition turn_cancel ::
    "('s, 'f, 't) engine_context \<Rightarrow> turn_cx \<Rightarrow> rstring \<Rightarrow> session_entry_kind list \<Rightarrow> agent_event list
      \<Rightarrow> ('s, 'f, 't) world \<Rightarrow> ('s, 'f, 't) world" where
  "turn_cancel ctx cx effect_id completion_marks executed_events w =
     (case transition (cx_state cx) (CancelRequested effect_id) of
        Panic \<Rightarrow> driver_panic w
      | Err _ \<Rightarrow>
          turn_fail ctx cx effect_id (invariant_failure (lit ''kernel rejected CancelRequested'')) w
      | Ok _ \<Rightarrow>
          (let entries = cancel_entries ctx (w_shared w) completion_marks in
           case do_commit ctx (transaction_linear (cx_session_id cx) (cx_revision cx) entries) w of
             (Ok c, w1) \<Rightarrow>
               on_shared (cancel_committed (commit_revision c)) (fold push executed_events w1)
           | (Err e, w1) \<Rightarrow>
               turn_fail ctx cx effect_id
                 (commit_failure (ec_describe ctx) (lit ''engine.cancel_commit_failed'')
                    (RetryMayDuplicate None) (lit ''committing cancellation'') e) w1
           | (Panic, w1) \<Rightarrow> w1))"

text \<open>\<^verbatim>\<open>cancellation_observed\<close> followed by the cancellation settlement.\<close>

definition observe_and_cancel ::
    "('s, 'f, 't) engine_context \<Rightarrow> turn_cx \<Rightarrow> rstring \<Rightarrow> session_entry_kind list \<times> agent_event list
      \<Rightarrow> ('s, 'f, 't) world \<Rightarrow> ('s, 'f, 't) world" where
  "observe_and_cancel ctx cx effect_id marks_events w =
     turn_cancel ctx cx effect_id (fst marks_events) (snd marks_events)
       (on_shared cancellation_observed w)"

section \<open>Cancelled batches\<close>

datatype batch_slot = SlotDone rich_tool_result | SlotStopped | SlotUnstarted

definition cancellation_mark ::
    "rstring \<Rightarrow> rstring \<Rightarrow> kernel_tool_call \<Rightarrow> batch_slot \<Rightarrow> session_entry_kind" where
  "cancellation_mark turn_id batch_id call slot =
     ToolResult turn_id batch_id
       (case slot of
          SlotDone rich \<Rightarrow> session_result call (rich_result rich)
        | SlotStopped \<Rightarrow> session_result_interrupted (kcall_id call)
        | SlotUnstarted \<Rightarrow> session_result_cancelled (kcall_id call))"

definition completed_event ::
    "rstring \<Rightarrow> nat \<Rightarrow> kernel_tool_call \<Rightarrow> rich_tool_result \<Rightarrow> agent_event" where
  "completed_event batch_id index call rich =
     EvToolExecutionCompleted batch_id (kcall_id call) index (kcall_name call) (rich_result rich)
       (rich_display rich)"

definition cancellation_event ::
    "rstring \<Rightarrow> nat \<times> kernel_tool_call \<times> batch_slot \<Rightarrow> agent_event option" where
  "cancellation_event batch_id x =
     (case x of (index, call, slot) \<Rightarrow>
        (case slot of SlotDone rich \<Rightarrow> Some (completed_event batch_id index call rich) | _ \<Rightarrow> None))"

definition cancellation_batch ::
    "rstring \<Rightarrow> rstring \<Rightarrow> kernel_tool_call list \<Rightarrow> batch_slot list
      \<Rightarrow> session_entry_kind list \<times> agent_event list" where
  "cancellation_batch turn_id batch_id calls slots =
     (map (\<lambda>(call, slot). cancellation_mark turn_id batch_id call slot) (zip calls slots),
      List.map_filter (cancellation_event batch_id) (enumerate 0 (zip calls slots)))"

section \<open>Sealing stale turns\<close>

definition seal_entries :: "open_turn_info \<Rightarrow> session_entry_kind list" where
  "seal_entries ot =
     (case ot_unfilled_batch ot of
        None \<Rightarrow> []
      | Some batch \<Rightarrow>
          map (\<lambda>call_id. ToolResult (ot_turn_id ot) (ub_tool_batch_id batch)
                 (session_result_interrupted call_id)) (ub_unfilled_call_ids batch))
     @ [TurnTerminated (ot_turn_id ot) (TurnCancelled ReasonAbandoned),
        OperationSettled (ot_operation_id ot) (OpCancelled ReasonAbandoned) None None]"

datatype seal_failure = SealCommit session_error | SealRefresh session_error

text \<open>The loop over the open turns, with the revision the next seal expects and the turns sealed so
  far.\<close>

fun seal_loop ::
    "('s, 'f, 't) engine_context \<Rightarrow> rstring \<Rightarrow> session_revision \<Rightarrow> rstring list \<Rightarrow> open_turn_info list
      \<Rightarrow> ('s, 'f, 't) world \<Rightarrow> (rstring list, seal_failure) rres \<times> ('s, 'f, 't) world" where
  "seal_loop ctx sid seal_revision sealed [] w = (Ok sealed, w)"
| "seal_loop ctx sid seal_revision sealed (ot # ots) w =
     (case do_commit ctx (transaction_linear sid seal_revision (seal_entries ot)) w of
        (Ok c, w1) \<Rightarrow> seal_loop ctx sid (commit_revision c) (sealed @ [ot_turn_id ot]) ots w1
      | (Err e, w1) \<Rightarrow> (Err (SealCommit e), w1)
      | (Panic, w1) \<Rightarrow> (Panic, w1))"

definition seal_stale_turns_with ::
    "('s, 'f, 't) engine_context \<Rightarrow> rstring \<Rightarrow> session_context_view \<Rightarrow> ('s, 'f, 't) world
      \<Rightarrow> (rstring list \<times> session_context_view, seal_failure) rres \<times> ('s, 'f, 't) world" where
  "seal_stale_turns_with ctx sid context w =
     (if view_open_turns context = [] then (Ok ([], context), w)
      else
        (case seal_loop ctx sid (view_revision context) [] (view_open_turns context) w of
           (Err f, w1) \<Rightarrow> (Err f, w1)
         | (Panic, w1) \<Rightarrow> (Panic, w1)
         | (Ok sealed, w1) \<Rightarrow>
             (case do_view ctx sid w1 of
                (Ok v, w2) \<Rightarrow> (Ok (sealed, v), w2)
              | (Err e, w2) \<Rightarrow> (Err (SealRefresh e), w2)
              | (Panic, w2) \<Rightarrow> (Panic, w2))))"

definition seal_stale_turns ::
    "('s, 'f, 't) engine_context \<Rightarrow> rstring \<Rightarrow> session_context_view \<Rightarrow> ('s, 'f, 't) world
      \<Rightarrow> session_context_view option \<times> ('s, 'f, 't) world" where
  "seal_stale_turns ctx sid context w =
     (case seal_stale_turns_with ctx sid context w of
        (Ok (sealed, v), w1) \<Rightarrow>
          (Some v, fold (\<lambda>turn_id. on_shared (prior_turn_sealed turn_id)) sealed w1)
      | (Err (SealCommit e), w1) \<Rightarrow>
          (None, on_shared (fail_unconfirmed
             (commit_failure (ec_describe ctx) (lit ''engine.seal_commit_failed'') (RetrySafe None)
                (lit ''sealing stale turn'') e)) w1)
      | (Err (SealRefresh e), w1) \<Rightarrow>
          (None, on_shared (fail_unconfirmed
             (session_failure (ec_describe ctx) (lit ''re-reading sealed context'') e)) w1)
      | (Panic, w1) \<Rightarrow> (None, w1))"

end
