(* ===== verification/Engine_Model_Call.thy ===== *)
theory Engine_Model_Call
  imports Engine_Settlement
begin

text \<open>
  One logical model call: the output assembler (\<^verbatim>\<open>engine/stream.rs\<close>), the cancellable
  consumption of a model stream (\<^verbatim>\<open>engine/model_call.rs\<close>) and the recovery loop around it
  (\<^verbatim>\<open>drive_model_call_with_recovery\<close> of \<^verbatim>\<open>engine/mod.rs\<close>).
\<close>

section \<open>The output assembler\<close>

record call_parts =
  part_id :: rstring
  part_name :: rstring
  part_arguments :: rstring

record output_assembler =
  oa_text :: rstring
  oa_calls :: "(nat, call_parts) hashmap"
  oa_order :: "nat list"

definition assembler_default :: output_assembler where
  "assembler_default = \<lparr>oa_text = [], oa_calls = [], oa_order = []\<rparr>"

definition assembler_text :: "rstring \<Rightarrow> output_assembler \<Rightarrow> output_assembler" where
  "assembler_text delta oa = oa\<lparr>oa_text := oa_text oa @ delta\<rparr>"

definition opt_str :: "rstring option \<Rightarrow> rstring" where
  "opt_str o' = (case o' of Some s \<Rightarrow> s | None \<Rightarrow> [])"

definition assembler_tool :: "tool_call_delta \<Rightarrow> output_assembler \<Rightarrow> output_assembler" where
  "assembler_tool d oa =
     (let order = (if hm_get (oa_calls oa) (td_index d) = None then oa_order oa @ [td_index d]
                   else oa_order oa);
          parts = (case hm_get (oa_calls oa) (td_index d) of
                     Some p \<Rightarrow> p
                   | None \<Rightarrow> \<lparr>part_id = [], part_name = [], part_arguments = []\<rparr>)
      in oa\<lparr>oa_order := order,
            oa_calls := hm_insert (td_index d)
              \<lparr>part_id = part_id parts @ opt_str (td_id d),
               part_name = part_name parts @ opt_str (td_name d),
               part_arguments = part_arguments parts @ td_arguments d\<rparr> (oa_calls oa)\<rparr>)"

definition invalid_block_failure :: "rstring \<Rightarrow> agent_failure" where
  "invalid_block_failure diagnostic =
     agent_failure_new (lit ''model.output.invalid_block'') DomainProvider StageModelPort
       (RetryMayDuplicate None) (lit ''the model produced an invalid assistant block'') diagnostic"

fun finish_calls ::
    "(nat, call_parts) hashmap \<Rightarrow> nat list \<Rightarrow> rstring list \<Rightarrow> (kernel_tool_call list, agent_failure) rres"
where
  "finish_calls calls [] ids = Ok []"
| "finish_calls calls (index # order) ids =
     (case hm_get calls index of
        None \<Rightarrow> Err (invalid_block_failure (lit ''assembler missing recorded call index''))
      | Some parts \<Rightarrow>
          if part_id parts = [] \<or> trim (part_name parts) = [] \<or> part_id parts \<in> set ids then
            Err (invalid_block_failure (lit ''model produced incomplete or duplicate tool calls''))
          else
            rbind (finish_calls calls order (part_id parts # ids)) (\<lambda>rest.
              Ok (\<lparr>kcall_id = part_id parts, kcall_name = part_name parts,
                   kcall_arguments = part_arguments parts\<rparr> # rest)))"

definition assembler_finish ::
    "output_assembler \<Rightarrow> (rstring \<times> kernel_tool_call list, agent_failure) rres" where
  "assembler_finish oa =
     rbind (finish_calls (oa_calls oa) (oa_order oa) []) (\<lambda>calls. Ok (oa_text oa, calls))"

section \<open>One attempt\<close>

record attempt_failure =
  att_failure :: agent_failure
  att_recoverable :: bool

definition classify :: "model_error \<Rightarrow> attempt_failure" where
  "classify e =
     \<lparr>att_failure = from_model_error e, att_recoverable = is_retryable (me_retry e)\<rparr>"

definition port_violation :: "rstring \<Rightarrow> rstring \<Rightarrow> attempt_failure" where
  "port_violation code diagnostic =
     \<lparr>att_failure = agent_failure_new code DomainInternal StageModelPort RetryNever
         (lit ''the model stream violated its port contract'') diagnostic,
      att_recoverable = False\<rparr>"

datatype model_call_outcome =
    McCompleted "model_assistant_block list"
  | McFailed attempt_failure
  | McSettled
  | McPanicked

definition record_input_tokens ::
    "rstring \<Rightarrow> u64 \<Rightarrow> ('s, 'f, 't) world \<Rightarrow> ('s, 'f, 't) world" where
  "record_input_tokens sid tokens w =
     w\<lparr>w_last_input_tokens := hm_insert sid tokens (w_last_input_tokens w)\<rparr>"

text \<open>What the loop keeps: the assembler, whether \<^verbatim>\<open>Completed\<close> and \<^verbatim>\<open>ResponseStarted\<close> were seen, and
  the authoritative blocks.\<close>

record stream_state =
  ss_assembler :: output_assembler
  ss_completed_seen :: bool
  ss_completed_blocks :: "model_assistant_block list option"
  ss_response_started :: bool

definition stream_state_new :: stream_state where
  "stream_state_new =
     \<lparr>ss_assembler = assembler_default, ss_completed_seen = False, ss_completed_blocks = None,
      ss_response_started = False\<rparr>"

text \<open>The effect of one model event: the attempt fails, or the loop goes on.\<close>

definition on_model_event ::
    "rstring \<Rightarrow> rstring \<Rightarrow> model_event \<Rightarrow> stream_state \<Rightarrow> ('s, 'f, 't) world
      \<Rightarrow> attempt_failure option \<times> stream_state \<times> ('s, 'f, 't) world" where
  "on_model_event sid model_call_id ev st w =
     (if ss_completed_seen st then
        (case ev of
           MeCompleted _ \<Rightarrow>
             (Some (port_violation (lit ''model.port.stream_after_completed'')
                (lit ''model stream emitted Completed more than once'')), st, w)
         | _ \<Rightarrow>
             (Some (port_violation (lit ''model.port.stream_after_completed'')
                (lit ''model stream emitted output after Completed'')), st, w))
      else
        (case ev of
           MeCompleted blocks \<Rightarrow>
             (None, st\<lparr>ss_completed_seen := True, ss_completed_blocks := Some blocks\<rparr>, w)
         | MeResponseStarted response_model response_id \<Rightarrow>
             if ss_response_started st then
               (Some (port_violation (lit ''model.port.response_started_twice'')
                  (lit ''model stream emitted ResponseStarted more than once'')), st, w)
             else
               (None, st\<lparr>ss_response_started := True\<rparr>,
                push (EvModelResponseStarted model_call_id response_model response_id) w)
         | MeTextDelta delta \<Rightarrow>
             (None, st\<lparr>ss_assembler := assembler_text delta (ss_assembler st)\<rparr>,
              push (EvTextDelta delta) (set_phase (RunningModelCall Streaming) w))
         | MeReasoningDelta text \<Rightarrow> (None, st, push (EvReasoningDelta model_call_id text) w)
         | MeUsageUpdated usage \<Rightarrow>
             (None, st,
              push (EvModelUsageUpdated model_call_id usage)
                (case tu_input_tokens usage of
                   Some tokens \<Rightarrow> record_input_tokens sid tokens w
                 | None \<Rightarrow> w))
         | MeToolCallDelta index i name arguments \<Rightarrow>
             (None, st\<lparr>ss_assembler := assembler_tool
                \<lparr>td_index = index, td_id = i, td_name = name, td_arguments = arguments\<rparr>
                (ss_assembler st)\<rparr>, w)))"

text \<open>The loop over the stream; each poll observes a pending cancel request first.\<close>

fun stream_loop ::
    "('f, 't) environment \<Rightarrow> ('s, 'f, 't) engine_context \<Rightarrow> turn_cx \<Rightarrow> rstring \<Rightarrow> rstring \<Rightarrow> rstring
      \<Rightarrow> stream_item list \<Rightarrow> stream_state \<Rightarrow> ('s, 'f, 't) world
      \<Rightarrow> model_call_outcome \<times> ('s, 'f, 't) world" where
  "stream_loop env ctx cx sid effect_id model_call_id [] st w =
     (case is_cancel_requested env w of
        (True, w1) \<Rightarrow> (McSettled, observe_and_cancel ctx cx effect_id ([], []) w1)
      | (False, w1) \<Rightarrow>
          if ss_completed_seen st then
            (case ss_completed_blocks st of
               Some blocks \<Rightarrow> (McCompleted blocks, w1)
             | None \<Rightarrow> (McPanicked, driver_panic w1))
          else (McFailed (port_violation (lit ''model.port.stream_closed_early'')
                  (lit ''model stream ended before Completed'')), w1))"
| "stream_loop env ctx cx sid effect_id model_call_id (item # items) st w =
     (case is_cancel_requested env w of
        (True, w1) \<Rightarrow> (McSettled, observe_and_cancel ctx cx effect_id ([], []) w1)
      | (False, w1) \<Rightarrow>
          (case item of
             ItemError e \<Rightarrow> (McFailed (classify e), w1)
           | ItemEvent ev \<Rightarrow>
               (case on_model_event sid model_call_id ev st w1 of
                  (Some failure, st1, w2) \<Rightarrow> (McFailed failure, w2)
                | (None, st1, w2) \<Rightarrow>
                    stream_loop env ctx cx sid effect_id model_call_id items st1 w2)))"

definition model_request ::
    "turn_cx \<Rightarrow> ('f, 't) turn_snapshot \<Rightarrow> rstring \<Rightarrow> u32 \<Rightarrow> turn_message list \<Rightarrow> bool \<Rightarrow> operation_shared
      \<Rightarrow> ('f, 't) model_call_snapshot" where
  "model_request cx turn model_call_id model_call_index messages tools_allowed sh =
     \<lparr>mc_session_id = ts_session_id turn,
      mc_context_fingerprint = cx_current_leaf cx,
      mc_persist_replay = True,
      mc_operation_id = sh_operation_id sh,
      mc_turn_id = sh_turn_id sh,
      mc_model_call_id = model_call_id,
      mc_model_call_index = model_call_index,
      mc_session_revision = cx_revision cx,
      mc_messages = build_messages turn messages,
      mc_tools = (if tools_allowed then ts_tools turn else []),
      mc_model_target = ts_model_target turn,
      mc_generation = ts_generation turn,
      mc_max_parallel_tool_calls = ts_max_parallel_tool_calls turn\<rparr>"

definition log_action ::
    "('f, 't) trace_action \<Rightarrow> ('s, 'f, 't) world \<Rightarrow> ('s, 'f, 't) world" where
  "log_action a w = w\<lparr>w_trace := w_trace w @ [a]\<rparr>"

definition model_call_run ::
    "('f, 't) environment \<Rightarrow> ('s, 'f, 't) engine_context \<Rightarrow> turn_cx \<Rightarrow> ('f, 't) turn_snapshot
      \<Rightarrow> rstring \<Rightarrow> rstring \<Rightarrow> u32 \<Rightarrow> turn_message list \<Rightarrow> bool \<Rightarrow> ('s, 'f, 't) world
      \<Rightarrow> model_call_outcome \<times> ('s, 'f, 't) world" where
  "model_call_run env ctx cx turn effect_id model_call_id model_call_index messages tools_allowed w =
     (case is_cancel_requested env w of
        (True, w1) \<Rightarrow> (McSettled, observe_and_cancel ctx cx effect_id ([], []) w1)
      | (False, w1) \<Rightarrow>
          (let w2 = push (EvModelCallStarted model_call_id) (set_phase (RunningModelCall Starting) w1);
               request = model_request cx turn model_call_id model_call_index messages tools_allowed
                 (w_shared w2);
               w3 = log_action (ActModelStarted request) (tick env w2)
           in case env_start env (w_tick w2) request of
                Inr e \<Rightarrow> (McFailed (classify e), w3)
              | Inl items \<Rightarrow>
                  stream_loop env ctx cx (ts_session_id turn) effect_id model_call_id items
                    stream_state_new (set_phase (RunningModelCall WaitingForFirstOutput) w3)))"

section \<open>Recovery\<close>

definition attempts_exhausted :: "recovery_config \<Rightarrow> attempt_failure \<Rightarrow> u32 \<Rightarrow> bool" where
  "attempts_exhausted rc failure attempt \<longleftrightarrow>
     \<not> rc_enabled rc \<or> \<not> att_recoverable failure \<or> rc_max_retries rc \<le> attempt"

text \<open>\<^verbatim>\<open>backoff_or_cancel\<close>: the wait ends with a cancel request or when the delay is over.\<close>

definition backoff_or_cancel ::
    "('f, 't) environment \<Rightarrow> ('s, 'f, 't) world \<Rightarrow> bool \<times> ('s, 'f, 't) world" where
  "backoff_or_cancel env w =
     (case is_cancel_requested env w of (requested, w1) \<Rightarrow> (\<not> requested, w1))"

text \<open>\<open>None\<close> as the result marks an operation that settled inside.\<close>

function recovery_loop ::
    "('f, 't) environment \<Rightarrow> ('s, 'f, 't) engine_context \<Rightarrow> turn_cx \<Rightarrow> ('f, 't) turn_snapshot
      \<Rightarrow> rstring \<Rightarrow> rstring \<Rightarrow> u32 \<Rightarrow> turn_message list \<Rightarrow> bool \<Rightarrow> u32 \<Rightarrow> ('s, 'f, 't) world
      \<Rightarrow> model_assistant_block list option \<times> ('s, 'f, 't) world" where
  "recovery_loop env ctx cx turn effect_id model_call_id model_call_index messages tools_allowed
       attempt w =
     (case model_call_run env ctx cx turn effect_id model_call_id model_call_index messages
             tools_allowed w of
        (McCompleted blocks, w1) \<Rightarrow> (Some blocks, w1)
      | (McSettled, w1) \<Rightarrow> (None, w1)
      | (McPanicked, w1) \<Rightarrow> (None, w1)
      | (McFailed failure, w1) \<Rightarrow>
          if attempts_exhausted (cfg_recovery (ec_config ctx)) failure attempt then
            (None, turn_fail ctx cx effect_id (att_failure failure) w1)
          else
            (case is_cancel_requested env w1 of
               (True, w2) \<Rightarrow> (None, observe_and_cancel ctx cx effect_id ([], []) w2)
             | (False, w2) \<Rightarrow>
                 (let attempt1 = attempt + 1;
                      delay = backoff_delay (cfg_recovery (ec_config ctx)) attempt1
                        (env_jitter env (w_tick w2));
                      w3 = push (EvModelRetryScheduled model_call_id attempt1
                             (rc_max_retries (cfg_recovery (ec_config ctx))) delay
                             (att_failure failure)) w2
                  in case backoff_or_cancel env w3 of
                       (False, w4) \<Rightarrow> (None, observe_and_cancel ctx cx effect_id ([], []) w4)
                     | (True, w4) \<Rightarrow>
                         recovery_loop env ctx cx turn effect_id model_call_id model_call_index
                           messages tools_allowed attempt1 w4)))"
  by pat_completeness auto

lemma attempt_measure:
  assumes "\<not> m \<le> (attempt :: u32)"
  shows "unat m - unat (attempt + 1) < unat m - unat attempt"
proof -
  have lt: "unat attempt < unat m" using assms by (simp add: word_le_nat_alt)
  then have "unat (attempt + 1) = Suc (unat attempt)"
    using unat_u32_less [of m] by (simp add: unat_word_ariths)
  with lt show ?thesis by simp
qed

termination recovery_loop
  by (relation "measure (\<lambda>(env, ctx, cx, turn, e, m, i, ms, ta, attempt, w).
        unat (rc_max_retries (cfg_recovery (ec_config ctx))) - unat attempt)")
    (auto simp: attempts_exhausted_def intro: attempt_measure)

declare recovery_loop.simps [simp del]

definition drive_model_call_with_recovery ::
    "('f, 't) environment \<Rightarrow> ('s, 'f, 't) engine_context \<Rightarrow> turn_cx \<Rightarrow> ('f, 't) turn_snapshot
      \<Rightarrow> rstring \<Rightarrow> rstring \<Rightarrow> u32 \<Rightarrow> turn_message list \<Rightarrow> bool \<Rightarrow> ('s, 'f, 't) world
      \<Rightarrow> model_assistant_block list option \<times> ('s, 'f, 't) world" where
  "drive_model_call_with_recovery env ctx cx turn effect_id model_call_id model_call_index messages
       tools_allowed w =
     recovery_loop env ctx cx turn effect_id model_call_id model_call_index messages tools_allowed 0 w"

end
