(* ===== verification/Engine_Tool_Batch.thy ===== *)
theory Engine_Tool_Batch
  imports Engine_Model_Call
begin

text \<open>
  One committed tool batch (\<^verbatim>\<open>engine/tool_batch.rs\<close>): serial or bounded-parallel execution, then
  the results barrier. A result \<open>None\<close> marks an operation that settled (or whose driver is
  blocked for good) inside.
\<close>

section \<open>Results\<close>

type_synonym batch_results = "(kernel_tool_call \<times> rich_tool_result) list"

definition port_failure :: "tool_port_error \<Rightarrow> agent_failure" where
  "port_failure e =
     agent_failure_new (lit ''tool.port_failed'') DomainInternal StageToolPort (RetryMayDuplicate None)
       (lit ''a tool execution infrastructure fault occurred'') (tpe_message e)"

definition completed_count :: "batch_slot list \<Rightarrow> nat" where
  "completed_count slots = length (filter (\<lambda>slot. slot \<noteq> SlotUnstarted) slots)"

definition done_result :: "kernel_tool_call \<times> batch_slot \<Rightarrow> (kernel_tool_call \<times> rich_tool_result) option"
where
  "done_result p =
     (case p of (call, slot) \<Rightarrow>
        (case slot of SlotDone result \<Rightarrow> Some (call, result) | _ \<Rightarrow> None))"

definition done_results :: "kernel_tool_call list \<Rightarrow> batch_slot list \<Rightarrow> batch_results" where
  "done_results calls slots = List.map_filter done_result (zip calls slots)"

definition result_entry_of ::
    "rstring \<Rightarrow> rstring \<Rightarrow> kernel_tool_call \<times> rich_tool_result \<Rightarrow> session_entry_kind" where
  "result_entry_of turn_id batch_id p =
     ToolResult turn_id batch_id (session_result (fst p) (rich_result (snd p)))"

definition commit_results ::
    "('f, 't) environment \<Rightarrow> ('s, 'f, 't) engine_context \<Rightarrow> turn_cx \<Rightarrow> rstring \<Rightarrow> rstring
      \<Rightarrow> batch_results \<Rightarrow> ('s, 'f, 't) world
      \<Rightarrow> (turn_cx \<times> batch_results) option \<times> ('s, 'f, 't) world" where
  "commit_results env ctx cx effect_id batch_id results w =
     (case is_cancel_requested env w of
        (True, w1) \<Rightarrow>
          (None, observe_and_cancel ctx cx effect_id
             (cancellation_batch (sh_turn_id (w_shared w1)) batch_id (map fst results)
                (map (\<lambda>(_, rich). SlotDone rich) results)) w1)
      | (False, w1) \<Rightarrow>
          (let w2 = set_phase (RunningToolBatch CommittingResults) w1;
               entries = map (result_entry_of (sh_turn_id (w_shared w2)) batch_id) results
           in case do_commit ctx (transaction_linear (cx_session_id cx) (cx_revision cx) entries) w2 of
                (Ok c, w3) \<Rightarrow>
                  (Some (cx\<lparr>cx_revision := commit_revision c,
                            cx_current_leaf := commit_current_leaf c\<rparr>, results),
                   fold (\<lambda>(index, call, rich). push (completed_event batch_id index call rich))
                     (enumerate 0 results) w3)
              | (Err e, w3) \<Rightarrow>
                  (None, turn_fail ctx cx effect_id
                     (commit_failure (ec_describe ctx) (lit ''engine.barrier_c_commit_failed'')
                        (RetryMayDuplicate None) (lit ''committing tool results'') e) w3)
              | (Panic, w3) \<Rightarrow> (None, w3)))"

section \<open>Invocation\<close>

definition invocation_of :: "kernel_tool_call \<Rightarrow> tool_invocation" where
  "invocation_of call =
     \<lparr>inv_call_id = kcall_id call, inv_name = kcall_name call, inv_arguments = kcall_arguments call\<rparr>"

definition publish_started ::
    "rstring \<Rightarrow> kernel_tool_call \<Rightarrow> nat \<Rightarrow> ('s, 'f, 't) world \<Rightarrow> ('s, 'f, 't) world" where
  "publish_started batch_id call index =
     push (EvToolExecutionStarted batch_id (kcall_id call) index (kcall_name call)
       (kcall_arguments call))"

definition set_executing :: "nat \<Rightarrow> nat \<Rightarrow> ('s, 'f, 't) world \<Rightarrow> ('s, 'f, 't) world" where
  "set_executing in_flight completed = set_phase (RunningToolBatch (Executing in_flight completed))"

datatype invoke_wait =
    WaitFinished tool_invoke_end
  | WaitDropped
  | WaitPortError tool_port_error
  | WaitForever

text \<open>The future wins over the cancel grace; a call that never ends is dropped when a cancel is
  requested while it runs, and is waited for forever otherwise.\<close>

definition await_invoke ::
    "('f, 't) environment \<Rightarrow> rstring \<Rightarrow> kernel_tool_call \<Rightarrow> ('s, 'f, 't) world
      \<Rightarrow> invoke_wait \<times> ('s, 'f, 't) world" where
  "await_invoke env batch_id call w =
     (let w0 = log_action (ActInvoked batch_id (kcall_id call)) w in
      case env_invoke env (w_tick w) (invocation_of call) of
        Some (Inl e) \<Rightarrow> (WaitFinished e, tick env w0)
      | Some (Inr err) \<Rightarrow> (WaitPortError err, tick env w0)
      | None \<Rightarrow>
          (case is_cancel_requested env w0 of
             (True, w1) \<Rightarrow> (WaitDropped, w1)
           | (False, w1) \<Rightarrow> (WaitForever, w1\<lparr>w_blocked := True\<rparr>)))"

section \<open>Serial execution\<close>

definition stopped_without_cancel_failure :: agent_failure where
  "stopped_without_cancel_failure =
     agent_failure_new (lit ''tool.stopped_without_cancel'') DomainInternal StageToolPort RetryNever
       (lit ''a tool stopped on its own without a cancel request'')
       (lit ''tool stopped without a cancel request'')"

text \<open>The loop over the calls not invoked yet (\<open>rest\<close>, the calls from \<open>index\<close> on).\<close>

fun serial_loop ::
    "('f, 't) environment \<Rightarrow> ('s, 'f, 't) engine_context \<Rightarrow> turn_cx \<Rightarrow> rstring \<Rightarrow> rstring
      \<Rightarrow> kernel_tool_call list \<Rightarrow> kernel_tool_call list \<Rightarrow> nat \<Rightarrow> batch_slot list \<Rightarrow> ('s, 'f, 't) world
      \<Rightarrow> (turn_cx \<times> batch_results) option \<times> ('s, 'f, 't) world" where
  "serial_loop env ctx cx effect_id batch_id calls [] index slots w =
     commit_results env ctx cx effect_id batch_id (done_results calls slots) w"
| "serial_loop env ctx cx effect_id batch_id calls (call # rest) index slots w =
     (let cancel_with = (\<lambda>slots w. (None, observe_and_cancel ctx cx effect_id
            (cancellation_batch (sh_turn_id (w_shared w)) batch_id calls slots) w))
      in case is_cancel_requested env w of
        (True, w1) \<Rightarrow> cancel_with slots w1
      | (False, w1) \<Rightarrow>
          (case await_invoke env batch_id call (publish_started batch_id call index (set_executing 1 index w1)) of
             (WaitForever, w2) \<Rightarrow> (None, w2)
           | (WaitPortError err, w2) \<Rightarrow>
               (case is_cancel_requested env w2 of
                  (True, w3) \<Rightarrow> cancel_with (slots[index := SlotStopped]) w3
                | (False, w3) \<Rightarrow> (None, turn_fail ctx cx effect_id (port_failure err) w3))
           | (WaitFinished (EndDone result), w2) \<Rightarrow>
               serial_loop env ctx cx effect_id batch_id calls rest (Suc index)
                 (slots[index := SlotDone result]) w2
           | (_, w2) \<Rightarrow>
               (case is_cancel_requested env w2 of
                  (True, w3) \<Rightarrow> cancel_with (slots[index := SlotStopped]) w3
                | (False, w3) \<Rightarrow> (None, turn_fail ctx cx effect_id stopped_without_cancel_failure w3))))"

definition run_serial ::
    "('f, 't) environment \<Rightarrow> ('s, 'f, 't) engine_context \<Rightarrow> turn_cx \<Rightarrow> rstring \<Rightarrow> rstring
      \<Rightarrow> kernel_tool_call list \<Rightarrow> ('s, 'f, 't) world
      \<Rightarrow> (turn_cx \<times> batch_results) option \<times> ('s, 'f, 't) world" where
  "run_serial env ctx cx effect_id batch_id calls w =
     serial_loop env ctx cx effect_id batch_id calls calls 0 (map (\<lambda>_. SlotUnstarted) calls) w"

section \<open>Parallel execution\<close>

record parallel_state =
  ps_slots :: "batch_slot list"
  ps_in_flight :: "nat list"
  ps_next :: nat
  ps_stop_starting :: bool
  ps_port_error :: "tool_port_error option"
  ps_grace_deadline :: "nat option"

definition parallel_init :: "kernel_tool_call list \<Rightarrow> parallel_state" where
  "parallel_init calls =
     \<lparr>ps_slots = map (\<lambda>_. SlotUnstarted) calls, ps_in_flight = [], ps_next = 0,
      ps_stop_starting = False, ps_port_error = None, ps_grace_deadline = None\<rparr>"

text \<open>The check at the head of the loop.\<close>

definition observe_cancel ::
    "('f, 't) environment \<Rightarrow> nat \<Rightarrow> parallel_state \<Rightarrow> ('s, 'f, 't) world
      \<Rightarrow> parallel_state \<times> ('s, 'f, 't) world" where
  "observe_cancel env grace ps w =
     (case is_cancel_requested env w of
        (True, w1) \<Rightarrow>
          (ps\<lparr>ps_stop_starting := True,
              ps_grace_deadline :=
                (case ps_grace_deadline ps of
                   None \<Rightarrow> Some (env_now env (w_tick w) + grace)
                 | Some d \<Rightarrow> Some d)\<rparr>, w1)
      | (False, w1) \<Rightarrow> (ps, w1))"

text \<open>The inner loop that starts calls while the limit allows.\<close>

function start_calls ::
    "('f, 't) environment \<Rightarrow> rstring \<Rightarrow> kernel_tool_call list \<Rightarrow> nat \<Rightarrow> parallel_state
      \<Rightarrow> ('s, 'f, 't) world \<Rightarrow> parallel_state \<times> ('s, 'f, 't) world" where
  "start_calls env batch_id calls limit ps w =
     (if \<not> ps_stop_starting ps \<and> length (ps_in_flight ps) < limit \<and> ps_next ps < length calls then
        (case is_cancel_requested env w of
           (True, w1) \<Rightarrow> (ps\<lparr>ps_stop_starting := True\<rparr>, w1)
         | (False, w1) \<Rightarrow>
             (let index = ps_next ps; call = calls ! index;
                  w2 = publish_started batch_id call index
                         (set_executing (length (ps_in_flight ps) + 1) (completed_count (ps_slots ps)) w1);
                  w3 = log_action (ActInvoked batch_id (kcall_id call)) w2
              in start_calls env batch_id calls limit
                   (ps\<lparr>ps_next := Suc index, ps_in_flight := ps_in_flight ps @ [index]\<rparr>) w3))
      else (ps, w))"
  by pat_completeness auto

termination
  by (relation "measure (\<lambda>(env, b, calls, limit, ps, w). length calls - ps_next ps)") auto

declare start_calls.simps [simp del]

datatype next_wait = NextReady nat invoke_answer | NextDeadline | NextForever

text \<open>\<^verbatim>\<open>Vec::swap_remove\<close>.\<close>

definition swap_remove :: "nat \<Rightarrow> 'a list \<Rightarrow> 'a list" where
  "swap_remove i xs = butlast (xs[i := last xs])"

definition next_finished ::
    "('f, 't) environment \<Rightarrow> parallel_state \<Rightarrow> ('s, 'f, 't) world
      \<Rightarrow> next_wait \<times> parallel_state \<times> ('s, 'f, 't) world" where
  "next_finished env ps w =
     (case env_next env (w_tick w) (length (ps_in_flight ps)) of
        Some (pos, answer) \<Rightarrow>
          (let i = pos mod length (ps_in_flight ps)
           in (NextReady (ps_in_flight ps ! i) answer,
               ps\<lparr>ps_in_flight := swap_remove i (ps_in_flight ps)\<rparr>, tick env w))
      | None \<Rightarrow>
          (case ps_grace_deadline ps of
             Some _ \<Rightarrow> (NextDeadline, ps, tick env w)
           | None \<Rightarrow> (NextForever, ps, (tick env w)\<lparr>w_blocked := True\<rparr>)))"

definition stopped_or_error ::
    "('f, 't) environment \<Rightarrow> nat \<Rightarrow> tool_port_error \<Rightarrow> parallel_state \<Rightarrow> ('s, 'f, 't) world
      \<Rightarrow> parallel_state \<times> ('s, 'f, 't) world" where
  "stopped_or_error env index err ps w =
     (case is_cancel_requested env w of
        (True, w1) \<Rightarrow>
          (ps\<lparr>ps_slots := (ps_slots ps)[index := SlotStopped], ps_stop_starting := True\<rparr>, w1)
      | (False, w1) \<Rightarrow> (ps\<lparr>ps_port_error := Some err, ps_stop_starting := True\<rparr>, w1))"

definition on_finished ::
    "('f, 't) environment \<Rightarrow> nat \<Rightarrow> invoke_answer \<Rightarrow> parallel_state \<Rightarrow> ('s, 'f, 't) world
      \<Rightarrow> parallel_state \<times> ('s, 'f, 't) world" where
  "on_finished env index answer ps w =
     (case answer of
        Inl (EndDone result) \<Rightarrow> (ps\<lparr>ps_slots := (ps_slots ps)[index := SlotDone result]\<rparr>, w)
      | Inl EndStopped \<Rightarrow>
          stopped_or_error env index
            \<lparr>tpe_message = lit ''tool stopped without a cancel request''\<rparr> ps w
      | Inr err \<Rightarrow> stopped_or_error env index err ps w)"

lemma start_calls_measure:
  "start_calls env b calls limit ps w = (ps', w') \<Longrightarrow>
    length calls - ps_next ps' + length (ps_in_flight ps') =
    length calls - ps_next ps + length (ps_in_flight ps)"
proof (induction env b calls limit ps w rule: start_calls.induct)
  case (1 env b calls limit ps w)
  from 1(2) 1(1) show ?case
    by (subst (asm) start_calls.simps)
      (fastforce simp: Let_def split: if_split_asm prod.split_asm bool.split_asm)
qed

lemma length_swap_remove [simp]: "length (swap_remove i xs) = length xs - 1"
  by (simp add: swap_remove_def)

text \<open>The outer loop; it returns no state when the driver is blocked for good.\<close>

function parallel_loop ::
    "('f, 't) environment \<Rightarrow> nat \<Rightarrow> rstring \<Rightarrow> kernel_tool_call list \<Rightarrow> nat \<Rightarrow> parallel_state
      \<Rightarrow> ('s, 'f, 't) world \<Rightarrow> parallel_state option \<times> ('s, 'f, 't) world" where
  "parallel_loop env grace batch_id calls limit ps w =
     (case observe_cancel env grace ps w of
        (ps1, w1) \<Rightarrow>
          (case start_calls env batch_id calls limit ps1 w1 of
             (ps2, w2) \<Rightarrow>
               if ps_in_flight ps2 = [] then (Some ps2, w2)
               else
                 (case next_finished env ps2 w2 of
                    (NextForever, ps3, w3) \<Rightarrow> (None, w3)
                  | (NextDeadline, ps3, w3) \<Rightarrow>
                      (Some (ps3\<lparr>ps_slots := fold (\<lambda>i slots. slots[i := SlotStopped])
                                (ps_in_flight ps3) (ps_slots ps3),
                              ps_in_flight := []\<rparr>), w3)
                  | (NextReady index answer, ps3, w3) \<Rightarrow>
                      (case on_finished env index answer ps3 w3 of
                         (ps4, w4) \<Rightarrow>
                           parallel_loop env grace batch_id calls limit ps4
                             (set_executing (length (ps_in_flight ps4))
                                (completed_count (ps_slots ps4)) w4)))))"
  by pat_completeness auto

lemma observe_cancel_fields [simp]:
  "observe_cancel env grace ps w = (ps', w') \<Longrightarrow>
    ps_next ps' = ps_next ps \<and> ps_in_flight ps' = ps_in_flight ps \<and> ps_slots ps' = ps_slots ps"
  by (auto simp: observe_cancel_def split: prod.split_asm bool.split_asm)

lemma on_finished_fields [simp]:
  "on_finished env index answer ps w = (ps', w') \<Longrightarrow>
    ps_next ps' = ps_next ps \<and> ps_in_flight ps' = ps_in_flight ps"
  by (auto simp: on_finished_def stopped_or_error_def
      split: prod.split_asm bool.split_asm sum.split_asm tool_invoke_end.split_asm)

lemma next_finished_ready:
  "next_finished env ps w = (NextReady index answer, ps', w') \<Longrightarrow>
    ps_next ps' = ps_next ps \<and> length (ps_in_flight ps') = length (ps_in_flight ps) - 1"
  by (auto simp: next_finished_def Let_def split: option.split_asm)

lemma parallel_round_measure:
  assumes "(ps1, w1) = observe_cancel env grace ps w"
    and "(ps2, w2) = start_calls env batch_id calls limit ps1 w1" and "ps_in_flight ps2 \<noteq> []"
    and "(NextReady index answer, ps3, w3) = next_finished env ps2 w2"
    and "(ps4, w4) = on_finished env index answer ps3 w3"
  shows "length calls - ps_next ps4 + length (ps_in_flight ps4) <
    length calls - ps_next ps + length (ps_in_flight ps)"
proof -
  have "length calls - ps_next ps2 + length (ps_in_flight ps2) =
      length calls - ps_next ps + length (ps_in_flight ps)"
    using start_calls_measure [OF assms(2) [symmetric]] observe_cancel_fields [OF assms(1) [symmetric]]
    by simp
  moreover have "ps_next ps4 = ps_next ps2" "length (ps_in_flight ps4) = length (ps_in_flight ps2) - 1"
    using next_finished_ready [OF assms(4) [symmetric]] on_finished_fields [OF assms(5) [symmetric]]
    by simp_all
  moreover have "0 < length (ps_in_flight ps2)" using assms(3) by simp
  ultimately show ?thesis by linarith
qed

termination parallel_loop
  by (relation "measure (\<lambda>(env, grace, b, calls, limit, ps, w).
      length calls - ps_next ps + length (ps_in_flight ps))")
    (rule wf_measure, simp only: in_measure prod.case, erule parallel_round_measure, auto)

declare parallel_loop.simps [simp del]

definition run_parallel ::
    "('f, 't) environment \<Rightarrow> ('s, 'f, 't) engine_context \<Rightarrow> turn_cx \<Rightarrow> rstring \<Rightarrow> rstring
      \<Rightarrow> kernel_tool_call list \<Rightarrow> nat \<Rightarrow> ('s, 'f, 't) world
      \<Rightarrow> (turn_cx \<times> batch_results) option \<times> ('s, 'f, 't) world" where
  "run_parallel env ctx cx effect_id batch_id calls limit w =
     (case parallel_loop env (cfg_tool_cancel_grace (ec_config ctx)) batch_id calls limit
             (parallel_init calls) w of
        (None, w1) \<Rightarrow> (None, w1)
      | (Some ps, w1) \<Rightarrow>
          (case ps_port_error ps of
             Some err \<Rightarrow> (None, turn_fail ctx cx effect_id (port_failure err) w1)
           | None \<Rightarrow>
               (let unfinished = list_ex (\<lambda>slot. case slot of SlotDone _ \<Rightarrow> False | _ \<Rightarrow> True) (ps_slots ps);
                    (cancelled, w2) =
                      (if unfinished then (True, w1) else is_cancel_requested env w1)
                in if cancelled then
                     (None, observe_and_cancel ctx cx effect_id
                        (cancellation_batch (sh_turn_id (w_shared w2)) batch_id calls (ps_slots ps)) w2)
                   else commit_results env ctx cx effect_id batch_id
                          (done_results calls (ps_slots ps)) w2)))"

definition tool_batch_run ::
    "('f, 't) environment \<Rightarrow> ('s, 'f, 't) engine_context \<Rightarrow> turn_cx \<Rightarrow> rstring \<Rightarrow> rstring
      \<Rightarrow> kernel_tool_call list \<Rightarrow> u32 \<Rightarrow> ('s, 'f, 't) world
      \<Rightarrow> (turn_cx \<times> batch_results) option \<times> ('s, 'f, 't) world" where
  "tool_batch_run env ctx cx effect_id batch_id calls max_parallel_tool_calls w =
     (let limit = max max_parallel_tool_calls 1
      in if limit = 1 then run_serial env ctx cx effect_id batch_id calls w
         else run_parallel env ctx cx effect_id batch_id calls (unat limit) w)"

end
