(* ===== verification/Engine_Compaction.thy ===== *)
theory Engine_Compaction
  imports Engine_Model_Call
begin

text \<open>
  Context compaction (\<^verbatim>\<open>engine/compaction.rs\<close>): when it runs, which settled prefix it replaces,
  the summary call and the atomic commit; before a turn, and as manual maintenance.
\<close>

section \<open>Sizes\<close>

text \<open>\<^verbatim>\<open>u64::try_from(n).unwrap_or(u64::MAX)\<close>.\<close>

definition len_u64 :: "nat \<Rightarrow> u64" where
  "len_u64 n = (if n < 2 ^ 64 then of_nat n else - 1)"

definition byte_len :: "rstring \<Rightarrow> u64" where
  "byte_len s = len_u64 (utf8_bytes s)"

definition user_part_bytes :: "session_user_part \<Rightarrow> u64" where
  "user_part_bytes p =
     (case p of SText t \<Rightarrow> byte_len t | SImage m b \<Rightarrow> saturating_add (byte_len m) (len_u64 (length b)))"

definition session_block_bytes :: "session_assistant_block \<Rightarrow> u64" where
  "session_block_bytes b =
     (case b of
        STextBlock t \<Rightarrow> byte_len t
      | SToolCall c \<Rightarrow> saturating_add (saturating_add (byte_len (scall_id c)) (byte_len (scall_name c)))
                         (byte_len (scall_arguments c)))"

definition outcome_bytes :: "tool_result_outcome \<Rightarrow> u64" where
  "outcome_bytes oc =
     (case oc of
        SSuccess content \<Rightarrow> byte_len content
      | SError code message \<Rightarrow> saturating_add (byte_len code) (byte_len message)
      | SCancelled \<Rightarrow> 0
      | SInterrupted \<Rightarrow> 0)"

definition saturating_sum :: "u64 list \<Rightarrow> u64" where
  "saturating_sum xs = foldl saturating_add 0 xs"

definition message_bytes :: "context_message \<Rightarrow> u64" where
  "message_bytes m =
     (case m of
        CmSummary text \<Rightarrow> byte_len text
      | CmUser parts \<Rightarrow> saturating_sum (map user_part_bytes parts)
      | CmAssistant blocks \<Rightarrow> saturating_sum (map session_block_bytes blocks)
      | CmAssistantToolCalls _ blocks \<Rightarrow> saturating_sum (map session_block_bytes blocks)
      | CmToolResult call_id oc \<Rightarrow> saturating_add (byte_len call_id) (outcome_bytes oc))"

definition context_bytes :: "session_context_view \<Rightarrow> u64" where
  "context_bytes v = saturating_sum (map message_bytes (view_messages v))"

section \<open>Policy\<close>

definition should_auto_compact ::
    "('s, 'f, 't) engine_context \<Rightarrow> rstring \<Rightarrow> session_context_view \<Rightarrow> ('s, 'f, 't) world \<Rightarrow> bool" where
  "should_auto_compact ctx sid v w =
     (case cc_context_budget (cfg_compaction (ec_config ctx)) of
        None \<Rightarrow> False
      | Some budget \<Rightarrow>
          (let observed =
             (case hm_get (w_last_input_tokens w) sid of
                Some tokens \<Rightarrow> tokens
              | None \<Rightarrow> context_bytes v div
                  ucast (max (cc_estimate_bytes_per_token (cfg_compaction (ec_config ctx))) 1))
           in ec_over_threshold ctx observed (cc_auto_threshold (cfg_compaction (ec_config ctx))) budget))"

definition select_boundary :: "session_context_view \<Rightarrow> u32 \<Rightarrow> rstring option" where
  "select_boundary v keep_recent_turns =
     (let boundaries = view_settled_turn_boundaries v; keep = unat keep_recent_turns
      in if length boundaries \<le> keep then None
         else
           (let candidate_index = length boundaries - keep - 1
            in case view_latest_compaction_boundary v of
                 None \<Rightarrow> Some (boundaries ! candidate_index)
               | Some previous \<Rightarrow>
                   (case position (\<lambda>e. e = previous) boundaries of
                      None \<Rightarrow> None
                    | Some previous_index \<Rightarrow>
                        if candidate_index \<le> previous_index then None
                        else Some (boundaries ! candidate_index))))"

section \<open>The summary call\<close>

datatype compaction_error =
    CeUnavailable
  | CeSession rstring
  | CeModel rstring
  | CeInvalidModelOutput rstring

definition compaction_error_message :: "compaction_error \<Rightarrow> rstring" where
  "compaction_error_message e =
     (case e of
        CeUnavailable \<Rightarrow> lit ''runtime is not available for compaction''
      | CeSession m \<Rightarrow> m
      | CeModel m \<Rightarrow> m
      | CeInvalidModelOutput m \<Rightarrow> m)"

datatype summary_failure = SfCancelled | SfFailed compaction_error

definition invalid_summary :: "rstring \<Rightarrow> summary_failure" where
  "invalid_summary m = SfFailed (CeInvalidModelOutput m)"

definition summary_instruction :: rstring where
  "summary_instruction =
     lit ''Summarize the earlier conversation for a continuation. Preserve decisions, constraints, unresolved work, and concrete identifiers. Return only the summary text.''"

definition is_model_tool_call :: "model_assistant_block \<Rightarrow> bool" where
  "is_model_tool_call b = (case b of MToolCall _ \<Rightarrow> True | MText _ \<Rightarrow> False)"

definition model_text :: "model_assistant_block \<Rightarrow> rstring option" where
  "model_text b = (case b of MText t \<Rightarrow> Some t | MToolCall _ \<Rightarrow> None)"

definition summary_of_blocks :: "model_assistant_block list \<Rightarrow> (rstring, summary_failure) rres" where
  "summary_of_blocks blocks =
     (if list_ex is_model_tool_call blocks then
        Err (invalid_summary (lit ''summary model returned tool calls instead of FinalText''))
      else
        (let summary = concat (List.map_filter model_text blocks)
         in if summary = [] then Err (invalid_summary (lit ''summary model returned empty FinalText''))
            else Ok summary))"

text \<open>The loop over the summary stream; \<open>poll\<close> is the cancel observation of the operation or of the
  maintenance task.\<close>

fun summary_loop ::
    "(('s, 'f, 't) world \<Rightarrow> bool \<times> ('s, 'f, 't) world) \<Rightarrow> stream_item list
      \<Rightarrow> model_assistant_block list option \<Rightarrow> bool \<Rightarrow> ('s, 'f, 't) world
      \<Rightarrow> (rstring, summary_failure) rres \<times> ('s, 'f, 't) world" where
  "summary_loop poll [] completed_blocks response_started w =
     (case poll w of
        (True, w1) \<Rightarrow> (Err SfCancelled, w1)
      | (False, w1) \<Rightarrow>
          (case completed_blocks of
             Some blocks \<Rightarrow> (summary_of_blocks blocks, w1)
           | None \<Rightarrow> (Err (invalid_summary (lit ''summary stream ended before Completed'')), w1)))"
| "summary_loop poll (item # items) completed_blocks response_started w =
     (case poll w of
        (True, w1) \<Rightarrow> (Err SfCancelled, w1)
      | (False, w1) \<Rightarrow>
          (case item of
             ItemError e \<Rightarrow> (Err (SfFailed (CeModel (me_diagnostic e))), w1)
           | ItemEvent ev \<Rightarrow>
               if completed_blocks \<noteq> None then
                 (Err (invalid_summary
                    (case ev of
                       MeCompleted _ \<Rightarrow> lit ''summary stream emitted Completed more than once''
                     | _ \<Rightarrow> lit ''summary stream emitted output after Completed'')), w1)
               else
                 (case ev of
                    MeCompleted blocks \<Rightarrow> summary_loop poll items (Some blocks) response_started w1
                  | MeResponseStarted _ _ \<Rightarrow>
                      if response_started then
                        (Err (invalid_summary
                           (lit ''summary stream emitted ResponseStarted more than once'')), w1)
                      else summary_loop poll items completed_blocks True w1
                  | _ \<Rightarrow> summary_loop poll items completed_blocks response_started w1)))"

definition summary_request ::
    "('s, 'f, 't) engine_context \<Rightarrow> rstring \<Rightarrow> session_context_view \<Rightarrow> ('f, 't) model_call_snapshot" where
  "summary_request ctx sid v =
     (let synthetic_prefix = lit ''compaction:'' @ sid @ lit '':revision:'' @
            dec (unat (revision_get (view_revision v)))
      in \<lparr>mc_session_id = sid,
          mc_context_fingerprint =
            (case view_current_leaf v of None \<Rightarrow> lit ''empty'' | Some leaf \<Rightarrow> leaf),
          mc_persist_replay = False,
          mc_operation_id = synthetic_prefix @ lit '':operation'',
          mc_turn_id = synthetic_prefix @ lit '':turn'',
          mc_model_call_id = synthetic_prefix @ lit '':call'',
          mc_model_call_index = 1,
          mc_session_revision = view_revision v,
          mc_messages = [MmSystem (cfg_system_prompt (ec_config ctx))] @ context_messages v @
            [MmUser [RText summary_instruction]],
          mc_tools = [],
          mc_model_target = cfg_model_target (ec_config ctx),
          mc_generation = cfg_generation (ec_config ctx),
          mc_max_parallel_tool_calls = max (cfg_max_parallel_tool_calls (ec_config ctx)) 1\<rparr>)"

definition generate_summary ::
    "('f, 't) environment \<Rightarrow> ('s, 'f, 't) engine_context
      \<Rightarrow> (('s, 'f, 't) world \<Rightarrow> bool \<times> ('s, 'f, 't) world)
      \<Rightarrow> rstring \<Rightarrow> session_context_view \<Rightarrow> ('s, 'f, 't) world
      \<Rightarrow> (rstring, summary_failure) rres \<times> ('s, 'f, 't) world" where
  "generate_summary env ctx poll sid v w =
     (case poll w of
        (True, w1) \<Rightarrow> (Err SfCancelled, w1)
      | (False, w1) \<Rightarrow>
          (let request = summary_request ctx sid v;
               w2 = log_action (ActModelStarted request) (tick env w1)
           in case env_start env (w_tick w1) request of
                Inr e \<Rightarrow> (Err (SfFailed (CeModel (me_diagnostic e))), w2)
              | Inl items \<Rightarrow> summary_loop poll items None False w2))"

section \<open>Before a turn\<close>

definition zero_trace_cancel :: "('s, 'f, 't) world \<Rightarrow> ('s, 'f, 't) world" where
  "zero_trace_cancel w = on_shared cancel_zero_trace (on_shared cancellation_observed w)"

text \<open>\<open>None\<close> marks an operation that settled.\<close>

definition maybe_auto_compact ::
    "('f, 't) environment \<Rightarrow> ('s, 'f, 't) engine_context \<Rightarrow> rstring \<Rightarrow> session_context_view
      \<Rightarrow> ('s, 'f, 't) world \<Rightarrow> session_context_view option \<times> ('s, 'f, 't) world" where
  "maybe_auto_compact env ctx sid v w =
     (if \<not> should_auto_compact ctx sid v w then (Some v, w)
      else case select_boundary v (cc_keep_recent_turns (cfg_compaction (ec_config ctx))) of
          None \<Rightarrow> (Some v, w)
        | Some covers_up_to \<Rightarrow>
            (case generate_summary env ctx (is_cancel_requested env) sid v
                    (push EvContextCompactionStarted w) of
               (Err SfCancelled, w1) \<Rightarrow> (None, zero_trace_cancel w1)
             | (Err (SfFailed e), w1) \<Rightarrow>
                 (Some v, push (EvContextCompactionFailed (compaction_error_message e)) w1)
             | (Panic, w1) \<Rightarrow> (None, driver_panic w1)
             | (Ok summary, w1) \<Rightarrow>
                 (case is_cancel_requested env w1 of
                    (True, w2) \<Rightarrow> (None, zero_trace_cancel w2)
                  | (False, w2) \<Rightarrow>
                      (case do_commit ctx (transaction_linear sid (view_revision v)
                              [Compaction summary covers_up_to]) w2 of
                         (Err e, w3) \<Rightarrow>
                           (Some v, push (EvContextCompactionFailed
                              (lit ''committing context compaction: '' @ ec_describe ctx e)) w3)
                       | (Panic, w3) \<Rightarrow> (None, w3)
                       | (Ok _, w3) \<Rightarrow>
                           (case is_cancel_requested env
                                   (push (EvContextCompactionCompleted covers_up_to) w3) of
                              (True, w4) \<Rightarrow> (None, zero_trace_cancel w4)
                            | (False, w4) \<Rightarrow>
                                (case do_view ctx sid w4 of
                                   (Ok v', w5) \<Rightarrow> (Some v', w5)
                                 | (Err e, w5) \<Rightarrow>
                                     (None, on_shared (fail_unconfirmed
                                        (session_failure (ec_describe ctx)
                                           (lit ''re-reading compacted session context'') e)) w5)
                                 | (Panic, w5) \<Rightarrow> (None, w5)))))))"

section \<open>Manual maintenance\<close>

definition maintenance_poll ::
    "('f, 't) environment \<Rightarrow> ('s, 'f, 't) world \<Rightarrow> bool \<times> ('s, 'f, 't) world" where
  "maintenance_poll env w =
     (env_maintenance_cancel env (w_tick w), w\<lparr>w_tick := Suc (w_tick w)\<rparr>)"

datatype compaction_report = Compacted rstring | NothingToCompact

definition maintenance_cancelled_error :: compaction_error where
  "maintenance_cancelled_error = CeSession (lit ''compaction cancelled'')"

definition session_error_of :: "(session_error \<Rightarrow> rstring) \<Rightarrow> rstring \<Rightarrow> session_error \<Rightarrow> compaction_error" where
  "session_error_of describe context e = CeSession (context @ lit '': '' @ describe e)"

definition compact_with_view ::
    "('f, 't) environment \<Rightarrow> ('s, 'f, 't) engine_context \<Rightarrow> rstring \<Rightarrow> session_context_view
      \<Rightarrow> ('s, 'f, 't) world \<Rightarrow> (compaction_report, compaction_error) rres \<times> ('s, 'f, 't) world" where
  "compact_with_view env ctx sid v w =
     (case select_boundary v (cc_keep_recent_turns (cfg_compaction (ec_config ctx))) of
        None \<Rightarrow> (Ok NothingToCompact, w)
      | Some covers_up_to \<Rightarrow>
          (case maintenance_poll env w of
             (True, w1) \<Rightarrow> (Err maintenance_cancelled_error, w1)
           | (False, w1) \<Rightarrow>
               (case generate_summary env ctx (maintenance_poll env) sid v w1 of
                  (Err SfCancelled, w2) \<Rightarrow> (Err maintenance_cancelled_error, w2)
                | (Err (SfFailed e), w2) \<Rightarrow> (Err e, w2)
                | (Panic, w2) \<Rightarrow> (Panic, w2)
                | (Ok summary, w2) \<Rightarrow>
                    (case do_commit ctx (transaction_linear sid (view_revision v)
                            [Compaction summary covers_up_to]) w2 of
                       (Ok _, w3) \<Rightarrow> (Ok (Compacted covers_up_to), w3)
                     | (Err e, w3) \<Rightarrow>
                         (Err (session_error_of (ec_describe ctx)
                            (lit ''committing context compaction'') e), w3)
                     | (Panic, w3) \<Rightarrow> (Panic, w3)))))"

definition compact_manually ::
    "('f, 't) environment \<Rightarrow> ('s, 'f, 't) engine_context \<Rightarrow> rstring \<Rightarrow> ('s, 'f, 't) world
      \<Rightarrow> (compaction_report, compaction_error) rres \<times> ('s, 'f, 't) world" where
  "compact_manually env ctx sid w =
     (case maintenance_poll env w of
        (True, w1) \<Rightarrow> (Err maintenance_cancelled_error, w1)
      | (False, w1) \<Rightarrow>
          (case do_view ctx sid w1 of
             (Err e, w2) \<Rightarrow>
               (Err (session_error_of (ec_describe ctx) (lit ''reading session context'') e), w2)
           | (Panic, w2) \<Rightarrow> (Panic, w2)
           | (Ok context, w2) \<Rightarrow>
               (case seal_stale_turns_with ctx sid context w2 of
                  (Err (SealCommit e), w3) \<Rightarrow>
                    (Err (session_error_of (ec_describe ctx) (lit ''sealing stale turn'') e), w3)
                | (Err (SealRefresh e), w3) \<Rightarrow>
                    (Err (session_error_of (ec_describe ctx) (lit ''re-reading sealed context'') e), w3)
                | (Panic, w3) \<Rightarrow> (Panic, w3)
                | (Ok (_, v), w3) \<Rightarrow> compact_with_view env ctx sid v w3)))"

end
