(* ===== verification/Engine_Drive.thy ===== *)
theory Engine_Drive
  imports Engine_Tool_Batch Engine_Compaction
begin

text \<open>
  The turn driver (\<^verbatim>\<open>drive\<close>, \<^verbatim>\<open>drive_turn\<close> and \<^verbatim>\<open>settle_success\<close> of \<^verbatim>\<open>engine/mod.rs\<close>): read, seal,
  compact, begin, then alternate model calls and tool batches until the operation settles. The
  unbounded \<^verbatim>\<open>loop\<close> over effects has fuel, one unit per model call; the kernel's budget bounds it.
\<close>

section \<open>Successful settlement\<close>

definition settle_success ::
    "('s, 'f, 't) engine_context \<Rightarrow> turn_cx \<Rightarrow> rstring \<Rightarrow> kernel_observation list \<Rightarrow> rstring
      \<Rightarrow> ('s, 'f, 't) world \<Rightarrow> ('s, 'f, 't) world" where
  "settle_success ctx cx effect_id obs text w =
     (case success_entries obs (sh_operation_id (w_shared w)) (sh_turn_id (w_shared w))
             (sh_last_usage (w_shared w)) (ec_generation_choice ctx) of
        Panic \<Rightarrow> driver_panic w
      | Err failure \<Rightarrow> turn_fail ctx cx effect_id failure w
      | Ok final_entries \<Rightarrow>
          (case do_commit ctx (transaction_linear (cx_session_id cx) (cx_revision cx) final_entries)
                  (set_phase Finalizing w) of
             (Ok c, w1) \<Rightarrow> on_shared (publisher_succeed \<lparr>am_content = text\<rparr> (commit_revision c)) w1
           | (Err e, w1) \<Rightarrow>
               turn_fail ctx cx effect_id
                 (commit_failure (ec_describe ctx) (lit ''engine.settlement_commit_failed'')
                    (RetryMayDuplicate None) (lit ''committing successful settlement'') e) w1
           | (Panic, w1) \<Rightarrow> w1))"

section \<open>One round\<close>

definition output_rejected_failure :: agent_failure where
  "output_rejected_failure =
     agent_failure_new (lit ''kernel.output_rejected'') DomainProvider StageKernel RetryNever
       (lit ''the kernel rejected the model output'') (lit ''kernel rejected model output'')"

definition tool_results_rejected_failure :: agent_failure where
  "tool_results_rejected_failure =
     agent_failure_new (lit ''kernel.tool_results_rejected'') DomainInternal StageKernel RetryNever
       (lit ''the kernel rejected the synthesized tool results'') (lit ''kernel rejected tool results'')"

text \<open>From the committed batch to the next effect: run the tools, hand the results to the kernel.\<close>

definition run_batch_round ::
    "('f, 't) environment \<Rightarrow> ('s, 'f, 't) engine_context \<Rightarrow> turn_cx \<Rightarrow> ('f, 't) turn_snapshot
      \<Rightarrow> rstring \<Rightarrow> rstring \<Rightarrow> kernel_tool_call list \<Rightarrow> ('s, 'f, 't) world
      \<Rightarrow> (turn_cx \<times> kernel_effect) option \<times> ('s, 'f, 't) world" where
  "run_batch_round env ctx cx turn tool_effect_id batch_id calls w =
     (case tool_batch_run env ctx cx tool_effect_id batch_id calls (ts_max_parallel_tool_calls turn) w of
        (None, w1) \<Rightarrow> (None, w1)
      | (Some (cx1, results), w1) \<Rightarrow>
          (case transition (cx_state cx1) (ToolBatchCompleted tool_effect_id
                  (map (\<lambda>(call, rich). kernel_result call (rich_result rich)) results)) of
             Panic \<Rightarrow> (None, driver_panic w1)
           | Err _ \<Rightarrow> (None, on_shared (fail_unconfirmed tool_results_rejected_failure) w1)
           | Ok next \<Rightarrow>
               (case effect next of
                  Some e \<Rightarrow> (Some (cx1\<lparr>cx_state := next_state next\<rparr>, e), w1)
                | None \<Rightarrow>
                    (None, on_shared (fail_unconfirmed
                       (invariant_failure (lit ''tool completion omitted model effect''))) w1))))"

text \<open>After an accepted output with tool calls: commit the batch, then run it.\<close>

definition commit_batch_round ::
    "('f, 't) environment \<Rightarrow> ('s, 'f, 't) engine_context \<Rightarrow> turn_cx \<Rightarrow> ('f, 't) turn_snapshot
      \<Rightarrow> rstring \<Rightarrow> rstring \<Rightarrow> assistant_output \<Rightarrow> kernel_transition \<Rightarrow> ('s, 'f, 't) world
      \<Rightarrow> (turn_cx \<times> kernel_effect) option \<times> ('s, 'f, 't) world" where
  "commit_batch_round env ctx cx turn effect_id model_call_id out completed w =
     (case effect completed of
        Some (ExecuteToolBatch tool_effect_id batch_id calls) \<Rightarrow>
          (let w1 = set_phase (RunningToolBatch Preparing) w;
               entry = batch_entry (sh_turn_id (w_shared w1)) model_call_id batch_id (ao_blocks out)
           in case do_commit ctx (transaction_linear (cx_session_id cx) (cx_revision cx) [entry]) w1 of
                (Err e, w2) \<Rightarrow>
                  (None, turn_fail ctx cx effect_id
                     (commit_failure (ec_describe ctx) (lit ''engine.barrier_b_commit_failed'')
                        (RetrySafe None) (lit ''committing tool calls'') e) w2)
              | (Panic, w2) \<Rightarrow> (None, w2)
              | (Ok c, w2) \<Rightarrow>
                  run_batch_round env ctx
                    (cx\<lparr>cx_revision := commit_revision c, cx_current_leaf := commit_current_leaf c,
                        cx_state := next_state completed\<rparr>)
                    turn tool_effect_id batch_id calls
                    (push (EvToolBatchRequested batch_id (length calls)) w2))
      | _ \<Rightarrow>
          (None, turn_fail ctx cx effect_id
             (invariant_failure (lit ''tool-call transition omitted tool effect'')) w))"

text \<open>One iteration for a model effect; \<open>None\<close> marks a settled operation.\<close>

definition model_round ::
    "('f, 't) environment \<Rightarrow> ('s, 'f, 't) engine_context \<Rightarrow> turn_cx \<Rightarrow> ('f, 't) turn_snapshot
      \<Rightarrow> rstring \<Rightarrow> rstring \<Rightarrow> u32 \<Rightarrow> turn_message list \<Rightarrow> bool \<Rightarrow> ('s, 'f, 't) world
      \<Rightarrow> (turn_cx \<times> kernel_effect) option \<times> ('s, 'f, 't) world" where
  "model_round env ctx cx turn effect_id model_call_id model_call_index messages tools_allowed w =
     (case drive_model_call_with_recovery env ctx cx turn effect_id model_call_id model_call_index
             messages tools_allowed w of
        (None, w1) \<Rightarrow> (None, w1)
      | (Some blocks, w1) \<Rightarrow>
          (case assistant_from_blocks (kernel_blocks_from_model blocks) of
             Panic \<Rightarrow> (None, driver_panic w1)
           | Err _ \<Rightarrow>
               (None, turn_fail ctx cx effect_id
                  (invalid_block_failure (lit ''model produced an empty text block'')) w1)
           | Ok out \<Rightarrow>
               (case transition (cx_state cx) (ModelCallCompleted effect_id out) of
                  Panic \<Rightarrow> (None, driver_panic w1)
                | Err _ \<Rightarrow> (None, turn_fail ctx cx effect_id output_rejected_failure w1)
                | Ok completed \<Rightarrow>
                    if \<not> contains_tool_call out then
                      (None, settle_success ctx cx effect_id (observations completed)
                         (assistant_text out) w1)
                    else
                      commit_batch_round env ctx cx turn effect_id model_call_id out completed w1)))"

section \<open>The loop\<close>

fun drive_loop ::
    "('f, 't) environment \<Rightarrow> ('s, 'f, 't) engine_context \<Rightarrow> ('f, 't) turn_snapshot \<Rightarrow> nat \<Rightarrow> turn_cx
      \<Rightarrow> u32 \<Rightarrow> kernel_effect \<Rightarrow> ('s, 'f, 't) world \<Rightarrow> ('s, 'f, 't) world option" where
  "drive_loop env ctx turn 0 cx model_call_index eff w = None"
| "drive_loop env ctx turn (Suc fuel) cx model_call_index eff w =
     (case eff of
        RequestModel effect_id model_call_id messages tools_allowed \<Rightarrow>
          (case model_round env ctx cx turn effect_id model_call_id (model_call_index + 1) messages
                  tools_allowed w of
             (None, w1) \<Rightarrow> Some w1
           | (Some (cx1, eff1), w1) \<Rightarrow>
               drive_loop env ctx turn fuel cx1 (model_call_index + 1) eff1 w1)
      | ExecuteToolBatch _ _ _ \<Rightarrow>
          Some (on_shared (fail_unconfirmed
            (invariant_failure (lit ''runtime cannot execute uncommitted tool effect''))) w))"

definition turn_fuel :: "('s, 'f, 't) engine_context \<Rightarrow> nat" where
  "turn_fuel ctx = unat (cfg_max_tool_rounds (ec_config ctx)) + 2"

definition turn_snapshot_of ::
    "('s, 'f, 't) engine_context \<Rightarrow> rstring \<Rightarrow> session_context_view \<Rightarrow> ('f, 't) turn_snapshot" where
  "turn_snapshot_of ctx sid v =
     \<lparr>ts_session_id = sid,
      ts_session_revision = view_revision v,
      ts_context_messages = context_messages v,
      ts_system_prompt = cfg_system_prompt (ec_config ctx),
      ts_model_target = cfg_model_target (ec_config ctx),
      ts_generation = cfg_generation (ec_config ctx),
      ts_tools = ec_tools ctx,
      ts_max_tool_rounds = cfg_max_tool_rounds (ec_config ctx),
      ts_max_parallel_tool_calls = max (cfg_max_parallel_tool_calls (ec_config ctx)) 1\<rparr>"

text \<open>Barrier A and what follows, for a session with no open turns.\<close>

definition start_turn ::
    "('f, 't) environment \<Rightarrow> ('s, 'f, 't) engine_context \<Rightarrow> rstring \<Rightarrow> runtime_user_message
      \<Rightarrow> session_context_view \<Rightarrow> ('s, 'f, 't) world \<Rightarrow> ('s, 'f, 't) world option" where
  "start_turn env ctx sid user v w =
     (let turn = turn_snapshot_of ctx sid v; w = on_shared turn_started w
      in case user_message_from_parts (kernel_user_parts (rum_parts user)) of
           Panic \<Rightarrow> Some (driver_panic w)
         | Err _ \<Rightarrow>
             Some (on_shared (fail_unconfirmed
               (invariant_failure (lit ''kernel rejected user message parts''))) w)
         | Ok kernel_user \<Rightarrow>
             (case transition initial_state (BeginTurn (sh_turn_id (w_shared w)) kernel_user
                     (ts_max_tool_rounds turn)) of
                Panic \<Rightarrow> Some (driver_panic w)
              | Err _ \<Rightarrow>
                  Some (on_shared (fail_unconfirmed
                    (invariant_failure (lit ''kernel rejected BeginTurn''))) w)
              | Ok started \<Rightarrow>
                  (case start_entries (observations started) (sh_operation_id (w_shared w))
                          (sh_turn_id (w_shared w)) of
                     Panic \<Rightarrow> Some (driver_panic w)
                   | Err failure \<Rightarrow> Some (on_shared (fail_unconfirmed failure) w)
                   | Ok entries \<Rightarrow>
                       (case is_cancel_requested env w of
                          (True, w1) \<Rightarrow> Some (zero_trace_cancel w1)
                        | (False, w1) \<Rightarrow>
                            (case do_commit ctx (transaction_linear sid (view_revision v) entries) w1 of
                               (Err e, w2) \<Rightarrow>
                                 Some (on_shared (fail_unconfirmed
                                   (commit_failure (ec_describe ctx)
                                      (lit ''engine.barrier_a_commit_failed'') (RetrySafe None)
                                      (lit ''committing turn start'') e)) w2)
                             | (Panic, w2) \<Rightarrow> Some w2
                             | (Ok c, w2) \<Rightarrow>
                                 (case effect started of
                                    None \<Rightarrow>
                                      Some (on_shared (fail_unconfirmed
                                        (invariant_failure (lit ''BeginTurn omitted model effect''))) w2)
                                  | Some eff \<Rightarrow>
                                      drive_loop env ctx turn (turn_fuel ctx)
                                        \<lparr>cx_session_id = sid, cx_revision = commit_revision c,
                                         cx_current_leaf = commit_current_leaf c,
                                         cx_state = next_state started\<rparr> 0 eff w2))))))"

definition drive_turn ::
    "('f, 't) environment \<Rightarrow> ('s, 'f, 't) engine_context \<Rightarrow> rstring \<Rightarrow> runtime_user_message
      \<Rightarrow> ('s, 'f, 't) world \<Rightarrow> ('s, 'f, 't) world option" where
  "drive_turn env ctx sid user w =
     (case do_view ctx sid w of
        (Panic, w1) \<Rightarrow> Some w1
      | (Err e, w1) \<Rightarrow>
          Some (on_shared (fail_unconfirmed
            (session_failure (ec_describe ctx) (lit ''reading session context'') e)) w1)
      | (Ok context, w1) \<Rightarrow>
          (case seal_stale_turns ctx sid context w1 of
             (None, w2) \<Rightarrow> Some w2
           | (Some v, w2) \<Rightarrow>
               (case maybe_auto_compact env ctx sid v w2 of
                  (None, w3) \<Rightarrow> Some w3
                | (Some v', w3) \<Rightarrow> start_turn env ctx sid user v' w3)))"

definition drive ::
    "('f, 't) environment \<Rightarrow> ('s, 'f, 't) engine_context \<Rightarrow> rstring \<Rightarrow> runtime_user_message
      \<Rightarrow> ('s, 'f, 't) world \<Rightarrow> (driver_exit \<times> ('s, 'f, 't) world) option" where
  "drive env ctx sid user w =
     (let w1 = on_shared (publisher_begin (env_now env (w_tick w))
                 (cfg_operation_timeout (ec_config ctx))) (tick env w)
      in case drive_turn env ctx sid user w1 of
           None \<Rightarrow> None
         | Some w2 \<Rightarrow>
             (case shared_take_exit (w_shared w2) of (e, sh) \<Rightarrow> Some (e, w2\<lparr>w_shared := sh\<rparr>)))"

end
