(* ===== verification/Engine_Progress.thy ===== *)
theory Engine_Progress
  imports Engine_Drive Kernel_Runs
begin

text \<open>
  Progress of the turn driver, for every store, model, tool port and environment: each path through
  the driver ends with the operation settled, and the loop over effects ends within its fuel.
\<close>

section \<open>Settled operations\<close>

definition settled_world :: "('s, 'f, 't) world \<Rightarrow> bool" where
  "settled_world w \<longleftrightarrow> is_settled_phase (sh_phase (w_shared w))"

text \<open>The driver is done: settled, or it panicked in the store, or it waits forever for a tool.\<close>

definition driver_done :: "('s, 'f, 't) world \<Rightarrow> bool" where
  "driver_done w \<longleftrightarrow> settled_world w \<or> w_panicked w \<or> w_blocked w"

named_theorems settling \<open>what the settlement operations do to the phase\<close>

lemma shared_publish_phase [settling]: "sh_phase (shared_publish ev sh) = sh_phase sh"
  by (simp add: shared_publish_def Let_def split: agent_event.splits)

lemma shared_settle_phase: "is_settled_phase (sh_phase (snd (shared_settle oc sh)))"
  by (simp add: shared_settle_def Let_def split: runtime_outcome.splits)

lemma shared_settle_phase' [settling]:
  "shared_settle oc sh = (b, sh') \<Longrightarrow> is_settled_phase (sh_phase sh')"
  using shared_settle_phase [of oc sh] by simp

lemma settles [settling]:
  "is_settled_phase (sh_phase (publisher_succeed a r sh))"
  "is_settled_phase (sh_phase (fail_confirmed f r sh))"
  "is_settled_phase (sh_phase (fail_unconfirmed f sh))"
  "is_settled_phase (sh_phase (cancel_zero_trace sh))"
  "is_settled_phase (sh_phase (cancel_committed r sh))"
  by (auto simp: publisher_succeed_def fail_confirmed_def fail_unconfirmed_def publisher_fail_def
      cancel_zero_trace_def cancel_committed_def publish_settled_def settling
      split: prod.split bool.split)

lemma on_shared_simps [simp]:
  "w_shared (on_shared f w) = f (w_shared w)" "w_store (on_shared f w) = w_store w"
  "w_panicked (on_shared f w) = w_panicked w" "w_blocked (on_shared f w) = w_blocked w"
  "w_tick (on_shared f w) = w_tick w" "w_trace (on_shared f w) = w_trace w"
  "w_last_input_tokens (on_shared f w) = w_last_input_tokens w"
  by (simp_all add: on_shared_def)

lemma driver_panic_done [simp]: "driver_done (driver_panic w)"
  by (simp add: driver_done_def driver_panic_def)

lemma settled_done [simp]:
  "driver_done (on_shared (publisher_succeed a r) w)" "driver_done (on_shared (fail_confirmed f r) w)"
  "driver_done (on_shared (fail_unconfirmed f) w)" "driver_done (on_shared cancel_zero_trace w)"
  "driver_done (on_shared (cancel_committed r) w)"
  by (simp_all add: driver_done_def settled_world_def settling)

lemma do_commit_Panic: "do_commit ctx tx w = (Panic, w') \<Longrightarrow> w_panicked w'"
  by (auto simp: do_commit_def split: prod.split_asm)

lemma do_commit_Panic_done [simp]: "do_commit ctx tx w = (Panic, w') \<Longrightarrow> driver_done w'"
  by (simp add: driver_done_def do_commit_Panic)

lemma do_view_Panic_done [simp]: "do_view ctx sid w = (Panic, w') \<Longrightarrow> driver_done w'"
  by (auto simp: do_view_def Let_def driver_done_def)

lemma turn_fail_done [simp]: "driver_done (turn_fail ctx cx eid f w)"
  by (auto simp: turn_fail_def Let_def split: rres.split prod.split)

lemma turn_cancel_done [simp]: "driver_done (turn_cancel ctx cx eid marks evs w)"
  by (auto simp: turn_cancel_def Let_def split: rres.split prod.split)

lemma observe_and_cancel_done [simp]: "driver_done (observe_and_cancel ctx cx eid me w)"
  by (simp add: observe_and_cancel_def)

lemma zero_trace_cancel_done [simp]: "driver_done (zero_trace_cancel w)"
  by (simp add: zero_trace_cancel_def)

section \<open>Model calls\<close>

lemma stream_loop_done:
  "stream_loop env ctx cx sid eid mcid items st w = (r, w') \<Longrightarrow> r = McSettled \<or> r = McPanicked \<Longrightarrow>
    driver_done w'"
  by (induction items arbitrary: st w)
    (auto split: prod.split_asm bool.split_asm if_split_asm option.split_asm stream_item.split_asm)

lemma model_call_run_done:
  "model_call_run env ctx cx turn eid mcid i ms ta w = (r, w') \<Longrightarrow> r = McSettled \<or> r = McPanicked \<Longrightarrow>
    driver_done w'"
  by (auto simp: model_call_run_def Let_def stream_loop_done
      split: prod.split_asm bool.split_asm sum.split_asm)

lemmas model_call_run_settled = model_call_run_done [OF _ disjI1 [OF refl]]
  and model_call_run_panicked = model_call_run_done [OF _ disjI2 [OF refl]]

lemma recovery_loop_done:
  "recovery_loop env ctx cx turn eid mcid i ms ta att w = (None, w') \<Longrightarrow> driver_done w'"
proof (induction env ctx cx turn eid mcid i ms ta att w rule: recovery_loop.induct)
  case (1 env ctx cx turn eid mcid i ms ta att w)
  obtain r w1 where run: "model_call_run env ctx cx turn eid mcid i ms ta w = (r, w1)"
    by (cases "model_call_run env ctx cx turn eid mcid i ms ta w")
  show ?case
  proof (cases r)
    case (McFailed failure)
    show ?thesis
    proof (cases "attempts_exhausted (cfg_recovery (ec_config ctx)) failure att")
      case True
      with 1(2) run McFailed show ?thesis by (auto simp: recovery_loop.simps)
    next
      case False
      from 1(2) [unfolded recovery_loop.simps [of env ctx cx turn eid mcid i ms ta att w]]
        1(1) [OF run [symmetric] McFailed False _ _ refl refl refl]
        run McFailed False show ?thesis
        by (auto simp: Let_def split: prod.split_asm bool.split_asm)
    qed
  qed (use 1(2) run in \<open>auto simp: recovery_loop.simps
      dest: model_call_run_settled model_call_run_panicked\<close>)
qed

section \<open>Tool batches\<close>

lemma commit_results_done:
  "commit_results env ctx cx eid bid rs w = (None, w') \<Longrightarrow> driver_done w'"
  by (auto simp: commit_results_def Let_def split: prod.split_asm bool.split_asm rres.split_asm)

lemma await_invoke_forever: "await_invoke env bid call w = (WaitForever, w') \<Longrightarrow> driver_done w'"
  by (auto simp: await_invoke_def Let_def driver_done_def
      split: option.split_asm sum.split_asm prod.split_asm bool.split_asm)

lemma serial_loop_done:
  "serial_loop env ctx cx eid bid calls rest index slots w = (None, w') \<Longrightarrow> driver_done w'"
proof (induction rest arbitrary: index slots w)
  case Nil
  then show ?case by (simp add: commit_results_done)
next
  case (Cons call rest)
  from Cons.prems show ?case
    by (auto simp: Let_def dest: Cons.IH await_invoke_forever
        split: prod.split_asm bool.split_asm invoke_wait.split_asm tool_invoke_end.split_asm)
qed

lemma next_finished_forever: "next_finished env ps w = (NextForever, ps', w') \<Longrightarrow> driver_done w'"
  by (auto simp: next_finished_def Let_def driver_done_def split: option.split_asm)

lemma parallel_loop_blocked:
  "parallel_loop env grace bid calls limit ps w = (None, w') \<Longrightarrow> driver_done w'"
proof (induction env grace bid calls limit ps w rule: parallel_loop.induct)
  case (1 env grace bid calls limit ps w)
  obtain ps1 w1 where o1: "observe_cancel env grace ps w = (ps1, w1)" by fastforce
  obtain ps2 w2 where o2: "start_calls env bid calls limit ps1 w1 = (ps2, w2)" by fastforce
  obtain n ps3 w3 where o3: "next_finished env ps2 w2 = (n, ps3, w3)" by (metis prod_cases3)
  note unf = 1(2) [unfolded parallel_loop.simps [of env grace bid calls limit ps w]]
  have ne: "ps_in_flight ps2 \<noteq> []" using unf o1 o2 by auto
  show ?case
  proof (cases n)
    case (NextReady index answer)
    obtain ps4 w4 where o4: "on_finished env index answer ps3 w3 = (ps4, w4)" by fastforce
    show ?thesis
      using 1(1) [OF o1 [symmetric] o2 [symmetric] ne o3 [symmetric] NextReady refl o4 [symmetric]]
        unf o1 o2 ne o3 NextReady o4 by auto
  qed (use unf o1 o2 ne o3 in \<open>auto dest: next_finished_forever\<close>)
qed

lemma run_parallel_done:
  "run_parallel env ctx cx eid bid calls limit w = (None, w') \<Longrightarrow> driver_done w'"
  by (auto simp: run_parallel_def Let_def commit_results_done dest: parallel_loop_blocked
      split: prod.split_asm option.split_asm if_split_asm)

lemma tool_batch_run_done:
  "tool_batch_run env ctx cx eid bid calls par w = (None, w') \<Longrightarrow> driver_done w'"
  by (auto simp: tool_batch_run_def run_serial_def Let_def serial_loop_done run_parallel_done
      split: if_split_asm)

section \<open>The loop\<close>

lemma commit_results_cx:
  "commit_results env ctx cx eid bid rs w = (Some (cx1, rs1), w') \<Longrightarrow>
    cx_state cx1 = cx_state cx \<and> rs1 = rs"
  by (auto simp: commit_results_def Let_def split: prod.split_asm bool.split_asm rres.split_asm)

lemma serial_loop_cx:
  "serial_loop env ctx cx eid bid calls rest index slots w = (Some (cx1, rs), w') \<Longrightarrow>
    cx_state cx1 = cx_state cx"
  by (induction rest arbitrary: index slots w)
    (auto simp: Let_def commit_results_cx
        split: prod.split_asm bool.split_asm invoke_wait.split_asm tool_invoke_end.split_asm)

lemma tool_batch_run_cx:
  "tool_batch_run env ctx cx eid bid calls par w = (Some (cx1, rs), w') \<Longrightarrow>
    cx_state cx1 = cx_state cx"
  by (auto simp: tool_batch_run_def run_serial_def run_parallel_def Let_def commit_results_cx
      dest: serial_loop_cx split: if_split_asm prod.split_asm option.split_asm)

lemma run_batch_round_done:
  "run_batch_round env ctx cx turn eid bid calls w = (None, w') \<Longrightarrow> driver_done w'"
  by (auto simp: run_batch_round_def tool_batch_run_done
      split: prod.split_asm option.split_asm rres.split_asm)

lemma commit_batch_round_done:
  "commit_batch_round env ctx cx turn eid mcid out completed w = (None, w') \<Longrightarrow> driver_done w'"
  by (auto simp: commit_batch_round_def Let_def run_batch_round_done
      split: option.split_asm kernel_effect.split_asm prod.split_asm rres.split_asm)

lemma settle_success_done [simp]: "driver_done (settle_success ctx cx eid obs text w)"
  by (auto simp: settle_success_def split: rres.split prod.split)

lemma model_round_done:
  "model_round env ctx cx turn eid mcid i ms ta w = (None, w') \<Longrightarrow> driver_done w'"
  by (auto simp: model_round_def drive_model_call_with_recovery_def recovery_loop_done
      commit_batch_round_done
      split: prod.split_asm option.split_asm rres.split_asm if_split_asm)

text \<open>A round that goes on has used one tool round of the budget.\<close>

lemma run_batch_round_next:
  assumes "run_batch_round env ctx cx turn eid bid calls w = (Some (cx1, eff1), w')"
    and "cx_state cx = ExpectingToolBatchCompletion e b r mx tid tr cs"
  obtains e' m' tr' where "cx_state cx1 = ExpectingModelCompletion e' m' r mx tid tr'"
    "eff1 = RequestModel e' m' tr' (r < mx)"
proof -
  obtain cx2 rs w2 where run: "tool_batch_run env ctx cx eid bid calls (ts_max_parallel_tool_calls turn) w
      = (Some (cx2, rs), w2)"
    using assms(1) by (auto simp: run_batch_round_def split: prod.split_asm option.split_asm)
  have st: "cx_state cx2 = ExpectingToolBatchCompletion e b r mx tid tr cs"
    using tool_batch_run_cx [OF run] assms(2) by simp
  from assms(1) run obtain next' where next': "transition (cx_state cx2) (ToolBatchCompleted eid
      (map (\<lambda>(call, rich). kernel_result call (rich_result rich)) rs)) = Ok next'"
    "effect next' = Some eff1" "cx1 = cx2\<lparr>cx_state := next_state next'\<rparr>"
    by (auto simp: run_batch_round_def split: prod.split_asm option.split_asm rres.split_asm)
  from next'(1) st that next'(2,3) show thesis
    by (cases rule: transition_Ok_cases) auto
qed

lemma model_round_next:
  assumes "model_round env ctx cx turn eid mcid i ms ta w = (Some (cx1, eff1), w')"
    and "cx_state cx = ExpectingModelCompletion e m u mx tid tr"
  obtains e' m' tr' where "cx_state cx1 = ExpectingModelCompletion e' m' (u + 1) mx tid tr'"
    "eff1 = RequestModel e' m' tr' (u + 1 < mx)" "u < mx"
proof -
  from assms(1) obtain out completed w1 where r:
    "transition (cx_state cx) (ModelCallCompleted eid out) = Ok completed" "contains_tool_call out"
    "commit_batch_round env ctx cx turn eid mcid out completed w1 = (Some (cx1, eff1), w')"
    by (auto simp: model_round_def split: prod.split_asm option.split_asm rres.split_asm if_split_asm)
  from r(1) assms(2) r(2) obtain e' b tr' calls where st:
    "next_state completed = ExpectingToolBatchCompletion e' b (u + 1) mx tid tr' calls" "u < mx"
    "effect completed = Some (ExecuteToolBatch e' b calls)"
    by (cases rule: transition_Ok_cases) auto
  from r(3) st(3) obtain cx2 w2 where
    "run_batch_round env ctx cx2 turn e' b calls w2 = (Some (cx1, eff1), w')"
    "cx_state cx2 = next_state completed"
    by (auto simp: commit_batch_round_def Let_def split: prod.split_asm rres.split_asm)
  with st(1,2) that show thesis
    by (metis run_batch_round_next)
qed

lemma drive_loop_returns:
  assumes "cx_state cx = ExpectingModelCompletion e m u mx tid tr"
    and "eff = RequestModel e' m' ms ta" and "u \<le> mx" and "unat mx - unat u < fuel"
  shows "\<exists>w'. drive_loop env ctx turn fuel cx i eff w = Some w' \<and> driver_done w'"
  using assms
proof (induction fuel arbitrary: cx e m u tr eff e' m' ms ta i w)
  case (Suc fuel)
  obtain r w1 where r: "model_round env ctx cx turn e' m' (i + 1) ms ta w = (r, w1)"
    by (cases "model_round env ctx cx turn e' m' (i + 1) ms ta w")
  show ?case
  proof (cases r)
    case None
    with r Suc.prems(2) model_round_done show ?thesis by auto
  next
    case (Some ce)
    then obtain cx1 eff1 where ce: "r = Some (cx1, eff1)" by (cases ce) auto
    with r Suc.prems(1) obtain e2 m2 tr2 where st:
      "cx_state cx1 = ExpectingModelCompletion e2 m2 (u + 1) mx tid tr2"
      "eff1 = RequestModel e2 m2 tr2 (u + 1 < mx)" "u < mx"
      by (auto elim: model_round_next)
    have le: "\<not> mx \<le> u" using st(3) by simp
    have "unat mx - unat (u + 1) < fuel"
      using attempt_measure [OF le] Suc.prems(4) by linarith
    moreover have "u + 1 \<le> mx" using st(3) by (rule inc_le)
    ultimately have "\<exists>w'. drive_loop env ctx turn fuel cx1 (i + 1) eff1 w1 = Some w' \<and> driver_done w'"
      using Suc.IH [OF st(1,2)] by blast
    with r ce Suc.prems(2) show ?thesis by auto
  qed
qed simp

lemma seal_loop_panic:
  "seal_loop ctx sid r sealed ots w = (Panic, w') \<Longrightarrow> driver_done w'"
  by (induction ots arbitrary: r sealed w) (auto split: prod.split_asm rres.split_asm)

lemma seal_stale_turns_done: "seal_stale_turns ctx sid v w = (None, w') \<Longrightarrow> driver_done w'"
  by (auto simp: seal_stale_turns_def seal_stale_turns_with_def seal_loop_panic
      split: prod.split_asm rres.split_asm seal_failure.split_asm if_split_asm)

lemma maybe_auto_compact_done: "maybe_auto_compact env ctx sid v w = (None, w') \<Longrightarrow> driver_done w'"
  by (auto simp: maybe_auto_compact_def
      split: prod.split_asm rres.split_asm summary_failure.split_asm if_split_asm option.split_asm
        bool.split_asm)

lemma start_turn_returns: "\<exists>w'. start_turn env ctx sid user v w = Some w' \<and> driver_done w'"
proof -
  have "\<exists>w'. drive_loop env ctx (turn_snapshot_of ctx sid v) (turn_fuel ctx)
      \<lparr>cx_session_id = sid, cx_revision = r, cx_current_leaf = l, cx_state = next_state started\<rparr> 0 eff w2
        = Some w' \<and> driver_done w'"
    if "transition initial_state (BeginTurn tid ku (ts_max_tool_rounds (turn_snapshot_of ctx sid v)))
        = Ok started" "effect started = Some eff" for r l started eff w2 tid ku
    using that
    by (intro drive_loop_returns)
      (auto simp: transition_def initial_state_def turn_snapshot_of_def turn_fuel_def)
  then show ?thesis
    by (auto simp: start_turn_def Let_def split: rres.split prod.split bool.split option.split)
qed

theorem drive_turn_returns: "\<exists>w'. drive_turn env ctx sid user w = Some w' \<and> driver_done w'"
  using start_turn_returns [of env ctx sid user]
  by (auto simp: drive_turn_def seal_stale_turns_done maybe_auto_compact_done
      split: rres.split prod.split option.split)

end
