(* ===== verification/Session_Accept.thy ===== *)
theory Session_Accept
  imports Session_Store
begin

text \<open>
  When a linear transaction is accepted: a client that builds its transactions with
  \<^verbatim>\<open>SessionTransaction::linear\<close> only has to satisfy the lifecycle. In an available store such a
  commit succeeds and does to the lifecycle what its entries do.
\<close>

section \<open>Linear transactions\<close>

text \<open>Entries that only the lifecycle judges.\<close>

definition plain_entry :: "session_entry_kind \<Rightarrow> bool" where
  "plain_entry k = (case k of Compaction _ _ \<Rightarrow> False | TitleSet _ \<Rightarrow> False | _ \<Rightarrow> True)"

lemma materialize_linear:
  assumes "length committed = index"
    and "index = 0 \<Longrightarrow> p = sp_current_leaf sp"
    and "index \<noteq> 0 \<Longrightarrow> p = Some (entry_id (last committed))"
  shows "\<exists>es. materialize sp sid index committed (map linear_entry (enumerate index ks)) = Ok (committed @ es)
    \<and> map entry_kind es = ks \<and> chained p es"
  using assms
proof (induction ks arbitrary: index committed p)
  case (Cons k ks)
  let ?e = "\<lparr>entry_id = allocate_entry_id sp sid index, entry_parent = p, entry_kind = k\<rparr>"
  have "index \<noteq> 0 \<Longrightarrow> last committed = committed ! (index - 1)"
    using Cons.prems(1) by (metis last_conv_nth length_0_conv)
  then have parent: "new_entry_parent_id sp committed (linear_entry (index, k)) index = Ok p"
    using Cons.prems
    by (cases index) (auto simp: linear_entry_def at_current_leaf_def after_def new_entry_parent_id_def)
  have "\<exists>es. materialize sp sid (Suc index) (committed @ [?e]) (map linear_entry (enumerate (Suc index) ks))
      = Ok ((committed @ [?e]) @ es) \<and> map entry_kind es = ks \<and> chained (Some (entry_id ?e)) es"
    using Cons.prems by (intro Cons.IH) auto
  then obtain es where es: "materialize sp sid (Suc index) (committed @ [?e])
      (map linear_entry (enumerate (Suc index) ks)) = Ok (committed @ ?e # es)"
    "map entry_kind es = ks" "chained (Some (entry_id ?e)) es"
    by auto
  have "ne_kind (linear_entry (index, k)) = k"
    by (simp add: linear_entry_def at_current_leaf_def after_def)
  with parent es show ?case
    by (intro exI [of _ "?e # es"]) simp
qed simp

lemma context_accept_plain: "plain_entry (entry_kind e) \<Longrightarrow> \<exists>cp'. context_accept e n cp = Ok cp'"
  by (auto simp: plain_entry_def context_accept_def split: session_entry_kind.splits)

lemma advance_entries_plain:
  assumes "chained p es" and "rfold lifecycle_accept (map entry_kind es) (sp_lifecycle sp) = Ok lc'"
    and "\<forall>e \<in> set es. plain_entry (entry_kind e)"
  shows "\<exists>sp'. advance_entries i p es sp = Ok sp'"
  using assms
proof (induction es arbitrary: i p sp)
  case (Cons e es)
  then obtain lc1 where lc1: "lifecycle_accept (entry_kind e) (sp_lifecycle sp) = Ok lc1"
    "rfold lifecycle_accept (map entry_kind es) lc1 = Ok lc'"
    by (auto simp: rres_simps)
  obtain cp1 where "context_accept e (sp_entry_count sp) (sp_context sp) = Ok cp1"
    using context_accept_plain [of e] Cons.prems(3) by fastforce
  moreover have "accept_title (entry_kind e) sp = Ok sp"
    using Cons.prems(3) by (auto simp: plain_entry_def accept_title_def split: session_entry_kind.splits)
  ultimately obtain sp1 where sp1: "advance_entry i p e sp = Ok sp1" "sp_lifecycle sp1 = lc1"
    using Cons.prems(1) lc1(1) by (simp add: advance_entry_def)
  have "\<exists>sp'. advance_entries (Suc i) (Some (entry_id e)) es sp1 = Ok sp'"
    using Cons.prems lc1(2) sp1(2) by (intro Cons.IH) auto
  with sp1(1) show ?case by simp
qed simp

lemma apply_linear:
  assumes "ks \<noteq> []" and "\<forall>k \<in> set ks. plain_entry k"
    and "validate_transaction (sp_lifecycle sp) ks = Ok ()"
    and "rfold lifecycle_accept ks (sp_lifecycle sp) = Ok lc'"
  obtains a where "apply_transaction sp (transaction_linear sid r ks) = Ok a"
    "sp_lifecycle (at_projection a) = lc'"
proof -
  obtain es where es: "materialize sp sid 0 [] (map linear_entry (enumerate 0 ks)) = Ok es"
    "map entry_kind es = ks" "chained (sp_current_leaf sp) es"
    using materialize_linear [of "[]" 0 "sp_current_leaf sp" sp sid ks] by auto
  have plain: "\<forall>e \<in> set es. plain_entry (entry_kind e)" using assms(2) es(2) by auto
  with es assms(4) obtain sp1 where sp1: "advance_entries 0 (sp_current_leaf sp) es sp = Ok sp1"
    using advance_entries_plain by metis
  have "validate_compaction_transaction es = Ok ()"
    using plain
    by (auto simp: validate_compaction_transaction_def plain_entry_def list_ex_iff
        split: session_entry_kind.splits)
  moreover have "es \<noteq> []" using assms(1) es(2) by auto
  ultimately obtain sp' where sp': "advance_transaction es sp = Ok sp'"
    "sp_lifecycle sp' = sp_lifecycle sp1"
    using assms(3) es(2) sp1 by (simp add: advance_transaction_eq)
  have "sp_lifecycle sp1 = lc'"
    using advance_entries_Ok(1) [OF sp1] es(2) assms(4) by simp
  moreover have "map linear_entry (enumerate 0 ks) \<noteq> []" using assms(1) by (cases ks) auto
  ultimately have "apply_transaction sp (transaction_linear sid r ks) =
      Ok \<lparr>at_entries = es, at_projection = sp'\<rparr>"
    using es(1) sp'(1) by (simp add: apply_transaction_def)
  with that sp'(2) \<open>sp_lifecycle sp1 = lc'\<close> show thesis by force
qed

section \<open>Commits of an available store\<close>

context available_session_store
begin

lemma commit_linear:
  assumes "store_inv s" and "r = sp_revision (contents s sid)"
    and "ks \<noteq> []" "\<forall>k \<in> set ks. plain_entry k"
    and "validate_transaction (sp_lifecycle (contents s sid)) ks = Ok ()"
    and "rfold lifecycle_accept ks (sp_lifecycle (contents s sid)) = Ok lc'"
  obtains c s' where "commit s (transaction_linear sid r ks) = (Ok c, s')" "store_inv s'"
    "sp_lifecycle (contents s' sid) = lc'" "sp_revision (contents s' sid) = commit_revision c"
proof -
  let ?tx = "transaction_linear sid r ks"
  obtain a where a: "apply_transaction (contents s sid) ?tx = Ok a" "sp_lifecycle (at_projection a) = lc'"
    using assms(3-6) by (rule apply_linear)
  then obtain c s' where c: "commit s ?tx = (Ok c, s')"
    using commit_available [OF assms(1), of ?tx] assms(2) by auto
  from commit_ok [OF assms(1) c] a have "contents s' sid = at_projection a" by simp
  moreover have "store_inv s'" using commit_inv [OF assms(1), of ?tx] c by simp
  moreover have "sp_revision (contents s' sid) = commit_revision c"
    using commit_revision [OF assms(1) c] by simp
  ultimately show thesis using that c a(2) by simp
qed

end

end
