(* ===== verification/Engine_Entries.thy ===== *)
theory Engine_Entries
  imports Session_Accept Runtime_Mapping
begin

text \<open>
  The transactions the engine builds are ones the session accepts: for a live turn the start
  entries, a tool-call batch, its results, and the three settlements, with their effect on the
  lifecycle.
\<close>

section \<open>Live turns\<close>

definition live_turn ::
    "lifecycle \<Rightarrow> rstring \<Rightarrow> rstring \<Rightarrow> bool \<Rightarrow> tool_batch_record list \<Rightarrow> bool" where
  "live_turn lc oi ti u bs \<longleftrightarrow>
     (\<exists>p t. hm_get (lc_operations lc) oi = Some p \<and> op_outcome p = None \<and> op_turn_id p = Some ti
        \<and> hm_get (lc_turns lc) ti = Some t \<and> tn_operation_id t = oi \<and> tn_outcome t = None
        \<and> tn_has_user_message t = u \<and> \<not> tn_has_assistant_message t \<and> tn_failure t = None
        \<and> tn_tool_batches t = bs)"

definition settled_as :: "lifecycle \<Rightarrow> rstring \<Rightarrow> operation_outcome \<Rightarrow> bool" where
  "settled_as lc oi oc \<longleftrightarrow> (\<exists>p. hm_get (lc_operations lc) oi = Some p \<and> op_outcome p = Some oc)"

definition rounds_done :: "tool_batch_record list \<Rightarrow> bool" where
  "rounds_done bs \<longleftrightarrow> bs = [] \<or> batch_is_complete (last bs)"

definition without_turn :: "rstring \<Rightarrow> lifecycle \<Rightarrow> rstring list" where
  "without_turn ti lc = filter (\<lambda>x. x \<noteq> ti) (lc_open_turn_ids lc)"

lemma rounds_done_iff: "rounds_done (tn_tool_batches t) = tool_rounds_complete t"
  by (simp add: rounds_done_def tool_rounds_complete_def)

section \<open>Starting a turn\<close>

lemma accept_start:
  assumes "hm_get (lc_operations lc) oi = None" and "hm_get (lc_turns lc) ti = None"
    and "parts \<noteq> []" "list_all user_part_well_formed parts"
  obtains lc' where "rfold lifecycle_accept [OperationStarted oi, TurnStarted oi ti, UserMessage ti parts] lc
      = Ok lc'" "live_turn lc' oi ti True []" "lc_open_turn_ids lc' = lc_open_turn_ids lc @ [ti]"
proof -
  have "\<exists>lc'. rfold lifecycle_accept [OperationStarted oi, TurnStarted oi ti, UserMessage ti parts] lc
      = Ok lc' \<and> live_turn lc' oi ti True [] \<and> lc_open_turn_ids lc' = lc_open_turn_ids lc @ [ti]"
    using assms
    by (simp add: lifecycle_accept_def accept_operation_started_def accept_turn_started_eq
        accept_user_message_def active_operation_def active_turn_mut_def put_turn_def live_turn_def)
  with that show thesis by blast
qed

section \<open>Batches and results\<close>

lemma accept_batch:
  assumes "live_turn lc oi ti True bs" and "rounds_done bs" and "bid \<notin> set (map tb_batch_id bs)"
    and "session_block_calls blocks \<noteq> []" and "distinct (map scall_id (session_block_calls blocks))"
    and "list_all block_text_nonempty blocks"
  obtains lc' where "rfold lifecycle_accept [AssistantToolCallBatch ti mc bid blocks] lc = Ok lc'"
    "live_turn lc' oi ti True (bs @ [\<lparr>tb_batch_id = bid,
       tb_call_ids = map scall_id (session_block_calls blocks), tb_results = []\<rparr>])"
    "lc_open_turn_ids lc' = lc_open_turn_ids lc"
proof -
  from assms(1) obtain p t where pt: "hm_get (lc_operations lc) oi = Some p" "op_outcome p = None"
    "op_turn_id p = Some ti" "hm_get (lc_turns lc) ti = Some t" "tn_operation_id t = oi"
    "tn_outcome t = None" "tn_has_user_message t" "\<not> tn_has_assistant_message t"
    "tn_failure t = None" "tn_tool_batches t = bs"
    by (auto simp: live_turn_def)
  have "card (set (map scall_id (session_block_calls blocks))) = length (session_block_calls blocks)"
    using distinct_card [OF assms(5)] by simp
  moreover have "list_all (\<lambda>b. tb_batch_id b \<noteq> bid) bs"
    using assms(3) by (auto simp: list_all_iff)
  moreover have "tool_rounds_complete t"
    using assms(2) pt(10) rounds_done_iff by metis
  ultimately have "accept_tool_call_batch ti bid blocks lc = Ok (put_turn ti
      (t\<lparr>tn_tool_batches := bs @ [\<lparr>tb_batch_id = bid,
         tb_call_ids = map scall_id (session_block_calls blocks), tb_results = []\<rparr>]\<rparr>) lc)"
    using pt assms(4,6) by (simp add: accept_tool_call_batch_def active_turn_mut_def Let_def)
  with pt that show thesis
    by (simp add: lifecycle_accept_def live_turn_def put_turn_def)
qed

lemma accept_one_result:
  assumes "live_turn lc oi ti u (bs @ [b])" and "tb_batch_id b = bid"
    and "nth_opt (tb_call_ids b) (length (tb_results b)) = Some (sresult_call_id r)"
    and "sresult_call_id r \<notin> set (tb_results b)"
  obtains lc' where "lifecycle_accept (ToolResult ti bid r) lc = Ok lc'"
    "live_turn lc' oi ti u (bs @ [b\<lparr>tb_results := tb_results b @ [sresult_call_id r]\<rparr>])"
    "lc_open_turn_ids lc' = lc_open_turn_ids lc"
proof -
  from assms(1) obtain p t where pt: "hm_get (lc_operations lc) oi = Some p" "op_outcome p = None"
    "op_turn_id p = Some ti" "hm_get (lc_turns lc) ti = Some t" "tn_operation_id t = oi"
    "tn_outcome t = None" "tn_has_user_message t = u" "\<not> tn_has_assistant_message t"
    "tn_failure t = None" "tn_tool_batches t = bs @ [b]"
    by (auto simp: live_turn_def)
  then have "accept_tool_result ti bid r lc = Ok (put_turn ti (t\<lparr>tn_tool_batches :=
      bs @ [b\<lparr>tb_results := tb_results b @ [sresult_call_id r]\<rparr>]\<rparr>) lc)"
    using assms(2-4) by (simp add: accept_tool_result_def active_turn_mut_def Let_def)
  with pt that show thesis
    by (simp add: lifecycle_accept_def live_turn_def put_turn_def)
qed

lemma accept_results:
  assumes "live_turn lc oi ti u (bs @ [b])" and "tb_batch_id b = bid"
    and "tb_call_ids b = tb_results b @ map sresult_call_id rs" and "distinct (tb_call_ids b)"
  shows "\<exists>lc'. rfold lifecycle_accept (map (ToolResult ti bid) rs) lc = Ok lc'
    \<and> live_turn lc' oi ti u (bs @ [b\<lparr>tb_results := tb_call_ids b\<rparr>])
    \<and> lc_open_turn_ids lc' = lc_open_turn_ids lc"
  using assms
proof (induction rs arbitrary: lc b)
  case Nil
  then have "b\<lparr>tb_results := tb_call_ids b\<rparr> = b" by simp
  with Nil show ?case by simp
next
  case (Cons r rs)
  from Cons.prems(3,4) have "nth_opt (tb_call_ids b) (length (tb_results b)) = Some (sresult_call_id r)"
    "sresult_call_id r \<notin> set (tb_results b)"
    by (auto simp: nth_opt_def nth_append)
  with Cons.prems(1,2) obtain lc1 where lc1: "lifecycle_accept (ToolResult ti bid r) lc = Ok lc1"
    "live_turn lc1 oi ti u (bs @ [b\<lparr>tb_results := tb_results b @ [sresult_call_id r]\<rparr>])"
    "lc_open_turn_ids lc1 = lc_open_turn_ids lc"
    by (rule accept_one_result)
  with Cons.IH [OF lc1(2)] Cons.prems(2-4) show ?case by simp
qed

section \<open>Settlements\<close>

lemma accept_terminal:
  assumes "hm_get (lc_operations lc) oi = Some p" "op_outcome p = None" "op_turn_id p = Some ti"
    and "hm_get (lc_turns lc) ti = Some t" "tn_operation_id t = oi" "tn_outcome t = None"
    and "turn_outcome_valid t (expected_turn_outcome oc)"
  obtains lc' where "rfold lifecycle_accept
      [TurnTerminated ti (expected_turn_outcome oc), OperationSettled oi oc us g] lc = Ok lc'"
    "settled_as lc' oi oc" "lc_open_turn_ids lc' = without_turn ti lc"
proof -
  have "\<exists>lc'. rfold lifecycle_accept
      [TurnTerminated ti (expected_turn_outcome oc), OperationSettled oi oc us g] lc = Ok lc'
    \<and> settled_as lc' oi oc \<and> lc_open_turn_ids lc' = without_turn ti lc"
    using assms
    by (simp add: lifecycle_accept_def accept_turn_terminated_def accept_operation_settled_eq
        active_operation_def active_turn_mut_def put_turn_def settled_as_def without_turn_def Let_def)
  with that show thesis by blast
qed

lemma accept_cancelled:
  assumes "live_turn lc oi ti u bs" and "rounds_done bs"
  obtains lc' where "rfold lifecycle_accept
      [TurnTerminated ti (TurnCancelled r), OperationSettled oi (OpCancelled r) us g] lc = Ok lc'"
    "settled_as lc' oi (OpCancelled r)" "lc_open_turn_ids lc' = without_turn ti lc"
proof -
  from assms obtain p t where pt: "hm_get (lc_operations lc) oi = Some p" "op_outcome p = None"
    "op_turn_id p = Some ti" "hm_get (lc_turns lc) ti = Some t" "tn_operation_id t = oi"
    "tn_outcome t = None" "turn_outcome_valid t (expected_turn_outcome (OpCancelled r))"
    by (auto simp: live_turn_def turn_outcome_valid_def expected_turn_outcome_def rounds_done_iff)
  from accept_terminal [OF pt] that show thesis
    by (auto simp: expected_turn_outcome_def)
qed

lemma accept_success:
  assumes "live_turn lc oi ti True bs" and "rounds_done bs" and "list_all text_block_only blocks"
  obtains lc' where "rfold lifecycle_accept [AssistantMessage ti blocks,
      TurnTerminated ti TurnSucceeded, OperationSettled oi OpSucceeded us g] lc = Ok lc'"
    "settled_as lc' oi OpSucceeded" "lc_open_turn_ids lc' = without_turn ti lc"
proof -
  from assms obtain p t where pt: "hm_get (lc_operations lc) oi = Some p" "op_outcome p = None"
    "op_turn_id p = Some ti" "hm_get (lc_turns lc) ti = Some t" "tn_operation_id t = oi"
    "tn_outcome t = None" "tn_has_user_message t" "\<not> tn_has_assistant_message t" "tn_failure t = None"
    "tool_rounds_complete t"
    by (auto simp: live_turn_def rounds_done_iff)
  let ?t = "t\<lparr>tn_has_assistant_message := True\<rparr>"
  have acc: "lifecycle_accept (AssistantMessage ti blocks) lc = Ok (put_turn ti ?t lc)"
    using pt assms(3) by (simp add: lifecycle_accept_def accept_assistant_message_def active_turn_mut_def)
  have open': "lc_open_turn_ids (put_turn ti ?t lc) = lc_open_turn_ids lc"
    by (simp add: put_turn_def)
  obtain lc' where "rfold lifecycle_accept [TurnTerminated ti (expected_turn_outcome OpSucceeded),
      OperationSettled oi OpSucceeded us g] (put_turn ti ?t lc) = Ok lc'"
    "settled_as lc' oi OpSucceeded" "lc_open_turn_ids lc' = without_turn ti (put_turn ti ?t lc)"
    using pt by (rule_tac accept_terminal [of "put_turn ti ?t lc" oi p ti ?t OpSucceeded us g])
      (auto simp: put_turn_def turn_outcome_valid_def expected_turn_outcome_def)
  with acc open' that show thesis
    by (simp add: expected_turn_outcome_def without_turn_def)
qed

lemma accept_failed:
  assumes "live_turn lc oi ti True bs"
  obtains lc' where "rfold lifecycle_accept [TurnFailureEntry ti f,
      TurnTerminated ti TurnFailed, OperationSettled oi OpFailed us g] lc = Ok lc'"
    "settled_as lc' oi OpFailed" "lc_open_turn_ids lc' = without_turn ti lc"
proof -
  from assms obtain p t where pt: "hm_get (lc_operations lc) oi = Some p" "op_outcome p = None"
    "op_turn_id p = Some ti" "hm_get (lc_turns lc) ti = Some t" "tn_operation_id t = oi"
    "tn_outcome t = None" "tn_has_user_message t" "\<not> tn_has_assistant_message t" "tn_failure t = None"
    by (auto simp: live_turn_def)
  let ?t = "t\<lparr>tn_failure := Some f\<rparr>"
  have acc: "lifecycle_accept (TurnFailureEntry ti f) lc = Ok (put_turn ti ?t lc)"
    using pt by (simp add: lifecycle_accept_def accept_turn_failure_def active_turn_mut_def)
  have open': "lc_open_turn_ids (put_turn ti ?t lc) = lc_open_turn_ids lc"
    by (simp add: put_turn_def)
  obtain lc' where "rfold lifecycle_accept [TurnTerminated ti (expected_turn_outcome OpFailed),
      OperationSettled oi OpFailed us g] (put_turn ti ?t lc) = Ok lc'"
    "settled_as lc' oi OpFailed" "lc_open_turn_ids lc' = without_turn ti (put_turn ti ?t lc)"
    using pt by (rule_tac accept_terminal [of "put_turn ti ?t lc" oi p ti ?t OpFailed us g])
      (auto simp: put_turn_def turn_outcome_valid_def expected_turn_outcome_def)
  with acc open' that show thesis
    by (simp add: expected_turn_outcome_def without_turn_def)
qed

section \<open>Validation of whole transactions\<close>

lemma result_entries_results: "result_entries (map (ToolResult ti bid) rs @ ks) =
    map (\<lambda>r. (ti, bid, r)) rs @ result_entries ks"
  by (induction rs) (simp_all add: result_entries_def result_entry_def List.map_filter_simps)

lemma validate_plain:
  assumes "result_entries ks = []" and "incomplete_assistant_turn lc ks = None"
  shows "validate_transaction lc ks = Ok ()"
  using assms by (simp add: validate_transaction_eq)

lemma validate_results:
  assumes "live_turn lc oi ti u (bs @ [b])" and "tb_batch_id b = bid" and "tb_results b = []"
    and "map sresult_call_id rs = tb_call_ids b" and "rs \<noteq> []"
    and "result_entries ks = []" and "\<not> list_ex assistant_or_batch ks"
    and "marks_allowed (cancel_reason_of ti ks) (map sresult_outcome rs)"
  shows "validate_transaction lc (map (ToolResult ti bid) rs @ ks) = Ok ()"
proof -
  from assms(1) obtain t where t: "hm_get (lc_turns lc) ti = Some t" "tn_tool_batches t = bs @ [b]"
    by (auto simp: live_turn_def)
  let ?ks = "map (ToolResult ti bid) rs @ ks" and ?es = "map (\<lambda>r. (ti, bid, r)) rs"
  obtain r rs' where rs: "rs = r # rs'" using assms(5) by (cases rs) auto
  have entries: "result_entries ?ks = (ti, bid, r) # map (\<lambda>r. (ti, bid, r)) rs'"
    using assms(6) rs by (simp only: result_entries_results) simp
  have "\<not> list_ex assistant_or_batch ?ks"
    using assms(7) by (auto simp: list_ex_iff assistant_or_batch_def)
  moreover have "cancel_reason_of ti ?ks = cancel_reason_of ti ks"
    by (simp add: cancel_reason_of_def) (induction rs, auto)
  moreover have "results_in_order ti bid (tb_call_ids b) ((ti, bid, r) # map (\<lambda>r. (ti, bid, r)) rs')"
  proof -
    have "results_in_order ti bid (tb_call_ids b) ?es"
      unfolding results_in_order_def assms(4) [symmetric]
      by (auto simp: list_all_iff in_set_enumerate_eq)
    with rs show ?thesis by simp
  qed
  moreover have "map (\<lambda>(_, _, r). sresult_outcome r) ((ti, bid, r) # map (\<lambda>r. (ti, bid, r)) rs') =
      map sresult_outcome rs"
    using rs by (simp add: comp_def)
  ultimately show ?thesis
    using t assms(2,3,8) entries
    by (simp add: validate_transaction_eq Let_def)
qed

lemma batch_complete_update [simp]: "batch_is_complete (b\<lparr>tb_results := tb_call_ids b\<rparr>)"
  by (simp add: batch_is_complete_def)

lemma rounds_done_results [simp]: "rounds_done (bs @ [b\<lparr>tb_results := tb_call_ids b\<rparr>])"
  by (simp add: rounds_done_def)

end
