(* ===== verification/Engine_Durable.thy ===== *)
theory Engine_Durable
  imports Engine_Progress Engine_Entries
begin

text \<open>
  The turn driver over an available store: every transaction the engine commits is accepted, and
  what the operation reports is what the session durably says. The link between the kernel's state
  and the session's record of the turn is \<open>turn_sim\<close>; a driver between two interactions is
  \<open>engine_ready\<close>, and an operation that ended is \<open>truthfully_settled\<close>.
\<close>

section \<open>The simulation between kernel and session\<close>

definition round_batch_ids :: "rstring \<Rightarrow> nat \<Rightarrow> rstring list" where
  "round_batch_ids ti n = map (\<lambda>k. ti @ lit '':tool-batch:'' @ dec k) [1..<Suc n]"

fun turn_sim :: "kernel_state \<Rightarrow> lifecycle \<Rightarrow> rstring \<Rightarrow> rstring \<Rightarrow> bool" where
  "turn_sim (ExpectingModelCompletion e m u mx tid tr) lc oi ti \<longleftrightarrow>
     tid = ti \<and> (\<exists>bs. live_turn lc oi ti True bs \<and> rounds_done bs
       \<and> map tb_batch_id bs = round_batch_ids ti (unat u))"
| "turn_sim (ExpectingToolBatchCompletion e b r mx tid tr calls) lc oi ti \<longleftrightarrow>
     tid = ti \<and> (\<exists>bs bt. live_turn lc oi ti True (bs @ [bt])
       \<and> tb_batch_id bt = b \<and> tb_results bt = [] \<and> tb_call_ids bt = map kcall_id calls
       \<and> distinct (map kcall_id calls) \<and> calls \<noteq> []
       \<and> map tb_batch_id (bs @ [bt]) = round_batch_ids ti (unat r))"
| "turn_sim _ lc oi ti \<longleftrightarrow> False"

lemma turn_sim_live:
  "turn_sim ks lc oi ti \<Longrightarrow> \<exists>bs. live_turn lc oi ti True bs"
  by (cases ks) auto

lemma turn_sim_phase:
  "turn_sim ks lc oi ti \<Longrightarrow>
    (\<exists>m. phase ks = PvExpectingModelCompletion (ks_effect_id ks) m)
    \<or> (\<exists>b. phase ks = PvExpectingToolBatchCompletion (ks_effect_id ks) b)"
  by (cases ks) auto

lemma turn_sim_terminate:
  assumes "turn_sim ks lc oi ti"
  obtains t where "transition ks (TerminationRequested (ks_effect_id ks) f) = Ok t"
    "observations t = [ObTurnFailureAccepted (ks_effect_id ks) f, ObTurnTerminated KFailed]"
  using assms by (cases ks) (auto simp: transition_def terminate_def Let_def)

lemma turn_sim_cancel:
  assumes "turn_sim ks lc oi ti"
  obtains t where "transition ks (CancelRequested (ks_effect_id ks)) = Ok t"
  using assms by (cases ks) (auto simp: transition_def kernel_cancel_def Let_def)

section \<open>Ready and settled\<close>

definition uses_store ::
    "('s, 'f, 't) engine_context \<Rightarrow> 's store_view \<Rightarrow> 's store_commit \<Rightarrow> bool" where
  "uses_store ctx view commit \<longleftrightarrow> ec_view ctx = view \<and> ec_commit ctx = commit"

definition engine_live ::
    "('s \<Rightarrow> bool) \<Rightarrow> rstring \<Rightarrow> rstring \<Rightarrow> ('s, 'f, 't) world \<Rightarrow> bool" where
  "engine_live sinv oi ti w \<longleftrightarrow>
     sinv (w_store w) \<and> \<not> w_panicked w \<and> \<not> settled_world w
     \<and> sh_operation_id (w_shared w) = oi \<and> sh_turn_id (w_shared w) = ti"

definition engine_ready ::
    "('s \<Rightarrow> bool) \<Rightarrow> ('s \<Rightarrow> rstring \<Rightarrow> session_projection) \<Rightarrow> rstring \<Rightarrow> rstring \<Rightarrow> turn_cx
      \<Rightarrow> ('s, 'f, 't) world \<Rightarrow> bool" where
  "engine_ready sinv contents oi ti cx w \<longleftrightarrow>
     engine_live sinv oi ti w
     \<and> cx_revision cx = sp_revision (contents (w_store w) (cx_session_id cx))
     \<and> turn_sim (cx_state cx) (sp_lifecycle (contents (w_store w) (cx_session_id cx))) oi ti
     \<and> lc_open_turn_ids (sp_lifecycle (contents (w_store w) (cx_session_id cx))) = [ti]"

fun status_of :: "operation_outcome \<Rightarrow> operation_status" where
  "status_of OpSucceeded = StSucceeded"
| "status_of OpFailed = StFailed"
| "status_of (OpCancelled _) = StCancelled"

fun exit_of :: "operation_outcome \<Rightarrow> driver_exit" where
  "exit_of OpSucceeded = ExitSucceeded"
| "exit_of OpFailed = ExitFailedConfirmed"
| "exit_of (OpCancelled _) = ExitCancelledConfirmed"

text \<open>What a settled operation reports: its durable outcome, at the session's current revision.\<close>

definition reports ::
    "operation_shared \<Rightarrow> operation_outcome \<Rightarrow> session_revision \<Rightarrow> bool" where
  "reports sh oc r \<longleftrightarrow>
     sh_phase sh = Settled (status_of oc) \<and> sh_exit sh = Some (exit_of oc)
     \<and> sh_settlement_revision sh = Some (Committed r)
     \<and> (\<forall>reason. oc = OpCancelled reason \<longrightarrow> reason = shared_cancel_reason sh)"

definition truthfully_settled ::
    "('s \<Rightarrow> bool) \<Rightarrow> ('s \<Rightarrow> rstring \<Rightarrow> session_projection) \<Rightarrow> rstring \<Rightarrow> rstring
      \<Rightarrow> ('s, 'f, 't) world \<Rightarrow> bool" where
  "truthfully_settled sinv contents oi sid w \<longleftrightarrow>
     sinv (w_store w) \<and> \<not> w_panicked w
     \<and> lc_open_turn_ids (sp_lifecycle (contents (w_store w) sid)) = []
     \<and> (\<exists>oc. settled_as (sp_lifecycle (contents (w_store w) sid)) oi oc
          \<and> reports (w_shared w) oc (sp_revision (contents (w_store w) sid)))"

section \<open>Steps that leave the store alone\<close>

definition quiet :: "('s, 'f, 't) world \<Rightarrow> ('s, 'f, 't) world \<Rightarrow> bool" where
  "quiet w w' \<longleftrightarrow>
     w_store w' = w_store w \<and> w_panicked w' = w_panicked w
     \<and> sh_operation_id (w_shared w') = sh_operation_id (w_shared w)
     \<and> sh_turn_id (w_shared w') = sh_turn_id (w_shared w)
     \<and> (\<not> settled_world w \<longrightarrow> \<not> settled_world w')"

named_theorems quiet_intros \<open>steps that leave the store alone\<close>

lemma quiet_refl [quiet_intros]: "quiet w w"
  by (simp add: quiet_def)

lemma quiet_trans [trans]: "quiet w w1 \<Longrightarrow> quiet w1 w2 \<Longrightarrow> quiet w w2"
  by (simp add: quiet_def)

lemma publish_ids [simp]:
  "sh_operation_id (shared_publish ev sh) = sh_operation_id sh"
  "sh_turn_id (shared_publish ev sh) = sh_turn_id sh"
  "sh_exit (shared_publish ev sh) = sh_exit sh"
  "sh_cancel_reason (shared_publish ev sh) = sh_cancel_reason sh"
  "sh_phase (shared_publish ev sh) = sh_phase sh"
  by (simp_all add: shared_publish_def Let_def split: agent_event.splits)

lemma request_cancel_fields [simp]:
  "sh_operation_id (shared_request_cancel r sh) = sh_operation_id sh"
  "sh_turn_id (shared_request_cancel r sh) = sh_turn_id sh"
  "sh_phase (shared_request_cancel r sh) = sh_phase sh"
  by (simp_all add: shared_request_cancel_def)

lemma quiet_push: "quiet w (push ev w)"
  by (simp add: quiet_def push_def settled_world_def)

lemma quiet_set_phase: "\<not> is_settled_phase ph \<Longrightarrow> quiet w (set_phase ph w)"
  by (simp add: quiet_def set_phase_def settled_world_def shared_set_phase_def)

lemma quiet_tick: "quiet w (tick env w)"
  by (simp add: quiet_def tick_def settled_world_def split: option.split)

lemma quiet_is_cancel_requested: "is_cancel_requested env w = (b, w') \<Longrightarrow> quiet w w'"
  using quiet_tick [of w env]
  by (auto simp: is_cancel_requested_def Let_def shared_check_cancel_def quiet_def settled_world_def
      split: if_split_asm)

lemma quiet_cancellation_observed: "quiet w (on_shared cancellation_observed w)"
  by (simp add: quiet_def cancellation_observed_def settled_world_def)

lemma quiet_log: "quiet w (log_action a w)"
  by (simp add: quiet_def log_action_def settled_world_def)

lemma quiet_record: "quiet w (record_input_tokens sid n w)"
  by (simp add: quiet_def record_input_tokens_def settled_world_def)

lemma quiet_publish_started: "quiet w (publish_started bid call i w)"
  by (simp add: publish_started_def quiet_push)

lemma quiet_set_executing: "quiet w (set_executing a b w)"
  by (simp add: set_executing_def quiet_set_phase)

lemma quiet_blocked: "quiet w (w\<lparr>w_blocked := b\<rparr>)"
  by (simp add: quiet_def settled_world_def)

lemma quiet_fold_push: "quiet w (fold push evs w)"
  by (induction evs arbitrary: w) (auto intro: quiet_refl quiet_trans quiet_push)

lemmas quiet_simple = quiet_refl quiet_push quiet_tick quiet_cancellation_observed quiet_log
  quiet_record quiet_publish_started quiet_set_executing quiet_blocked quiet_fold_push

lemma engine_live_quiet: "engine_live sinv oi ti w \<Longrightarrow> quiet w w' \<Longrightarrow> engine_live sinv oi ti w'"
  by (simp add: engine_live_def quiet_def)

lemma engine_ready_quiet:
  "engine_ready sinv contents oi ti cx w \<Longrightarrow> quiet w w' \<Longrightarrow> engine_ready sinv contents oi ti cx w'"
  using engine_live_quiet [of sinv oi ti w w'] by (auto simp: engine_ready_def quiet_def)

lemma engine_ready_live: "engine_ready sinv contents oi ti cx w \<Longrightarrow> engine_live sinv oi ti w"
  by (simp add: engine_ready_def)

section \<open>What settling reports\<close>

lemma settle_unsettled:
  "\<not> is_settled_phase (sh_phase sh) \<Longrightarrow> shared_settle oc sh = (True,
     (case oc of OutFailed f _ \<Rightarrow> sh\<lparr>sh_phase := Settled (outcome_status oc), sh_failure := Some f\<rparr>
      | _ \<Rightarrow> sh\<lparr>sh_phase := Settled (outcome_status oc)\<rparr>)\<lparr>sh_exit := Some (outcome_exit oc)\<rparr>)"
  by (simp add: shared_settle_def Let_def split: runtime_outcome.split)

lemma publish_settled_reports:
  "sh_phase sh = Settled (status_of oc) \<Longrightarrow> sh_exit sh = Some (exit_of oc) \<Longrightarrow>
    (\<And>reason. oc = OpCancelled reason \<Longrightarrow> reason = shared_cancel_reason sh) \<Longrightarrow>
    reports (publish_settled st d (Committed r) sh) oc r"
  by (auto simp: reports_def publish_settled_def shared_publish_def is_transient_agent_def Let_def
      shared_cancel_reason_def)

lemma succeed_reports:
  assumes "\<not> is_settled_phase (sh_phase sh)"
  shows "reports (publisher_succeed a r sh) OpSucceeded r"
  unfolding publisher_succeed_def settle_unsettled [OF assms]
  by (simp, rule publish_settled_reports) (simp_all add: outcome_status_def outcome_exit_def)

lemma fail_confirmed_reports:
  assumes "\<not> is_settled_phase (sh_phase sh)"
  shows "reports (fail_confirmed f r sh) OpFailed r"
  unfolding fail_confirmed_def settle_unsettled [OF assms]
  by (simp, rule publish_settled_reports) (simp_all add: outcome_status_def outcome_exit_def)

lemma cancel_committed_reports:
  assumes "\<not> is_settled_phase (sh_phase sh)"
  shows "reports (cancel_committed r sh) (OpCancelled (shared_cancel_reason sh)) r"
  unfolding cancel_committed_def settle_unsettled [OF assms]
  by (simp, rule publish_settled_reports)
    (simp_all add: outcome_status_def outcome_exit_def shared_cancel_reason_def)

end
