(* ===== verification/Engine_Turn.thy ===== *)
theory Engine_Turn
  imports Engine_Durable
begin

text \<open>
  The client side of the store contract: inside the locale of available stores, each part of the
  driver takes a ready turn to a ready turn or settles the operation truthfully.
\<close>

section \<open>Cancellations that commit\<close>

definition is_result_entry :: "session_entry_kind \<Rightarrow> bool" where
  "is_result_entry k = (case k of ToolResult _ _ _ \<Rightarrow> True | _ \<Rightarrow> False)"

text \<open>A prefix of entries that opens and closes no turn, then the settlement of the operation.\<close>

definition keeps_open :: "session_entry_kind \<Rightarrow> bool" where
  "keeps_open k = (case k of ToolResult _ _ _ \<Rightarrow> True | AssistantMessage _ _ \<Rightarrow> True | _ \<Rightarrow> False)"

lemma fold_settled:
  assumes "rfold lifecycle_accept (prefix @ [TurnTerminated ti toc, OperationSettled oi oc us g]) lc = Ok lc'"
    and "list_all keeps_open prefix"
  shows "settled_as lc' oi oc" and "lc_open_turn_ids lc' = without_turn ti lc"
proof -
  from assms(1) obtain lc1 lc2 where r: "rfold lifecycle_accept prefix lc = Ok lc1"
    "accept_turn_terminated ti toc lc1 = Ok lc2" "accept_operation_settled oi oc lc2 = Ok lc'"
    by (auto simp: rfold_append rres_simps lifecycle_accept_def)
  have "lc_open_turn_ids l' = lc_open_turn_ids l" if "lifecycle_accept k l = Ok l'" "keeps_open k" for k l l'
    using that by (cases k) (auto simp: keeps_open_def lifecycle_accept_def accept_tool_result_def
      accept_assistant_message_def put_turn_def rres_simps Let_def split: if_split_asm)
  then have "lc_open_turn_ids lc1 = lc_open_turn_ids lc"
    using rfold_invariant [OF r(1), of "\<lambda>l. lc_open_turn_ids l = lc_open_turn_ids lc"] assms(2)
    by (auto simp: list_all_iff)
  with accept_turn_terminated_OkD [OF r(2)] accept_operation_settled_OkD [OF r(3)]
  show "settled_as lc' oi oc" "lc_open_turn_ids lc' = without_turn ti lc"
    by (auto simp: settled_as_def without_turn_def)
qed

lemma result_keeps_open: "list_all is_result_entry ks \<Longrightarrow> list_all keeps_open ks"
  by (auto simp: list_all_iff is_result_entry_def keeps_open_def split: session_entry_kind.splits)

lemma apply_lifecycle:
  assumes "apply_transaction sp (transaction_linear sid r ks) = Ok a"
  shows "rfold lifecycle_accept ks (sp_lifecycle sp) = Ok (sp_lifecycle (at_projection a))"
proof -
  note ok = apply_transaction_Ok [OF assms]
  have "map ne_kind (map linear_entry (enumerate n ks)) = ks" for n
    by (induction ks arbitrary: n) (simp_all add: linear_entry_def at_current_leaf_def after_def)
  then have "map entry_kind (at_entries a) = ks"
    using materialize_ids(2) [OF ok(1)] by simp
  moreover obtain sp1 where "advance_entries 0 (sp_current_leaf sp) (at_entries a) sp = Ok sp1"
    "sp_lifecycle (at_projection a) = sp_lifecycle sp1"
    using ok(2) by (auto elim: advance_transaction_Ok)
  ultimately show ?thesis using advance_entries_Ok(1) by fastforce
qed

lemma list_all_marks: "list_all is_result_entry (fst (cancellation_batch ti bid calls slots))"
  by (auto simp: cancellation_batch_def list_all_iff cancellation_mark_def is_result_entry_def)

lemma cancel_reason_fold_push:
  "shared_cancel_reason (w_shared (fold push evs w)) = shared_cancel_reason (w_shared w)"
  by (induction evs arbitrary: w) (simp_all add: push_def shared_cancel_reason_def)

section \<open>Commits\<close>

context available_session_store
begin

abbreviation ready where
  "ready \<equiv> engine_ready store_inv contents"

abbreviation truthful where
  "truthful \<equiv> truthfully_settled store_inv contents"

lemma do_commit_linear:
  assumes "uses_store ctx view commit" and "engine_live store_inv oi ti w"
    and "r = sp_revision (contents (w_store w) sid)" and "ks \<noteq> []" "\<forall>k \<in> set ks. plain_entry k"
    and "validate_transaction (sp_lifecycle (contents (w_store w) sid)) ks = Ok ()"
    and "rfold lifecycle_accept ks (sp_lifecycle (contents (w_store w) sid)) = Ok lc'"
  obtains c w' where "do_commit ctx (transaction_linear sid r ks) w = (Ok c, w')"
    "engine_live store_inv oi ti w'" "w_shared w' = w_shared w"
    "sp_lifecycle (contents (w_store w') sid) = lc'"
    "sp_revision (contents (w_store w') sid) = commit_revision c"
proof -
  have "store_inv (w_store w)" using assms(2) by (simp add: engine_live_def)
  then obtain c s' where c: "commit (w_store w) (transaction_linear sid r ks) = (Ok c, s')"
    "store_inv s'" "sp_lifecycle (contents s' sid) = lc'"
    "sp_revision (contents s' sid) = commit_revision c"
    using assms(3-7) by (rule commit_linear)
  with that assms(1,2) show thesis
    by (fastforce simp: do_commit_def uses_store_def engine_live_def settled_world_def)
qed

text \<open>A commit of any transaction is made, or refused with the store as it was.\<close>

lemma do_commit_cases:
  assumes "uses_store ctx view commit" and "engine_live store_inv oi ti w"
  obtains (committed) c a w' where "do_commit ctx tx w = (Ok c, w')" "engine_live store_inv oi ti w'"
      "w_shared w' = w_shared w"
      "apply_transaction (contents (w_store w) (tx_session_id tx)) tx = Ok a"
      "contents (w_store w') (tx_session_id tx) = at_projection a"
      "sp_revision (contents (w_store w') (tx_session_id tx)) = commit_revision c"
    | (refused) e w' where "do_commit ctx tx w = (Err e, w')" "engine_live store_inv oi ti w'"
      "w_shared w' = w_shared w" "contents (w_store w') = contents (w_store w)"
proof -
  have si: "store_inv (w_store w)" using assms(2) by (simp add: engine_live_def)
  then show thesis
  proof (cases rule: commit_cases [of "w_store w" tx])
    case (committed c a s')
    with commit_revision [OF si committed(1)] commit_inv [OF si, of tx] assms
    show ?thesis
      by (intro that(1) [of c "snd (do_commit ctx tx w)" a])
        (auto simp: do_commit_def uses_store_def engine_live_def settled_world_def)
  next
    case (refused e s')
    with commit_inv [OF si, of tx] assms show ?thesis
      by (intro that(2) [of e "snd (do_commit ctx tx w)"])
        (auto simp: do_commit_def uses_store_def engine_live_def settled_world_def)
  qed
qed

lemma ready_terminate:
  assumes "uses_store ctx view commit" and "ready oi ti cx w" and "effect_id = ks_effect_id (cx_state cx)"
  shows "truthful oi (cx_session_id cx) (turn_fail ctx cx effect_id failure w)"
proof -
  let ?lc = "sp_lifecycle (contents (w_store w) (cx_session_id cx))"
  from assms(2) have live: "engine_live store_inv oi ti w"
    and rev: "cx_revision cx = sp_revision (contents (w_store w) (cx_session_id cx))"
    and sim: "turn_sim (cx_state cx) ?lc oi ti" and opens: "lc_open_turn_ids ?lc = [ti]"
    by (simp_all add: engine_ready_def)
  have ids: "sh_operation_id (w_shared w) = oi" "sh_turn_id (w_shared w) = ti"
    using live by (simp_all add: engine_live_def)
  obtain t where t: "transition (cx_state cx) (TerminationRequested effect_id (kernel_failure failure)) = Ok t"
    "observations t = [ObTurnFailureAccepted effect_id (kernel_failure failure), ObTurnTerminated KFailed]"
    using turn_sim_terminate [OF sim] assms(3) by metis
  define ks where "ks = [TurnFailureEntry ti (session_failure_from_kernel (kernel_failure failure)),
      TurnTerminated ti TurnFailed, OperationSettled oi OpFailed
        (map_option session_usage (sh_last_usage (w_shared w))) (Some (ec_generation_choice ctx))]"
  have entries: "failure_entries (observations t) oi ti (sh_last_usage (w_shared w))
      (ec_generation_choice ctx) = Ok ks"
    by (simp add: t(2) failure_entries_def failure_observation_def ks_def)
  obtain bs where "live_turn ?lc oi ti True bs" using turn_sim_live [OF sim] by blast
  then obtain lc' where lc': "rfold lifecycle_accept ks ?lc = Ok lc'" "settled_as lc' oi OpFailed"
    "lc_open_turn_ids lc' = without_turn ti ?lc"
    unfolding ks_def by (rule accept_failed)
  have ne: "ks \<noteq> []" and plain: "\<forall>k \<in> set ks. plain_entry k"
    by (simp_all add: ks_def plain_entry_def)
  have "validate_transaction ?lc ks = Ok ()"
    by (rule validate_plain) (simp_all add: ks_def result_entries_def result_entry_def
        List.map_filter_simps incomplete_assistant_turn_def)
  then obtain c w' where c: "do_commit ctx (transaction_linear (cx_session_id cx) (cx_revision cx) ks) w = (Ok c, w')"
    "engine_live store_inv oi ti w'" "w_shared w' = w_shared w"
    "sp_lifecycle (contents (w_store w') (cx_session_id cx)) = lc'"
    "sp_revision (contents (w_store w') (cx_session_id cx)) = commit_revision c"
    by (rule do_commit_linear [OF assms(1) live rev ne plain _ lc'(1)])
  have "turn_fail ctx cx effect_id failure w = on_shared (fail_confirmed failure (commit_revision c)) w'"
    using t(1) entries c(1) ids by (simp add: turn_fail_def)
  moreover have "reports (fail_confirmed failure (commit_revision c) (w_shared w')) OpFailed (commit_revision c)"
    using c(2) by (intro fail_confirmed_reports) (simp add: engine_live_def settled_world_def)
  ultimately show ?thesis
    using c lc' opens
    by (auto simp: truthfully_settled_def engine_live_def without_turn_def)
qed

lemma ready_cancel:
  assumes "uses_store ctx view commit" and "ready oi ti cx w" and "effect_id = ks_effect_id (cx_state cx)"
    and "list_all is_result_entry (fst me)"
  shows "truthful oi (cx_session_id cx) (observe_and_cancel ctx cx effect_id me w)"
proof -
  let ?w = "on_shared cancellation_observed w" and ?sid = "cx_session_id cx"
  have ready: "ready oi ti cx ?w"
    using assms(2) engine_ready_quiet quiet_cancellation_observed by blast
  let ?lc = "sp_lifecycle (contents (w_store ?w) ?sid)"
  from ready have live: "engine_live store_inv oi ti ?w"
    and sim: "turn_sim (cx_state cx) ?lc oi ti" and opens: "lc_open_turn_ids ?lc = [ti]"
    by (simp_all add: engine_ready_def)
  have ids: "sh_operation_id (w_shared ?w) = oi" "sh_turn_id (w_shared ?w) = ti"
    using live by (simp_all add: engine_live_def)
  obtain t where t: "transition (cx_state cx) (CancelRequested effect_id) = Ok t"
    using turn_sim_cancel [OF sim] assms(3) by metis
  let ?r = "shared_cancel_reason (w_shared ?w)"
  let ?ks = "cancel_entries ctx (w_shared ?w) (fst me)"
  let ?tx = "transaction_linear ?sid (cx_revision cx) ?ks"
  from assms(1) live show ?thesis
  proof (cases rule: do_commit_cases [where tx = ?tx])
    case (committed c a w')
    have "rfold lifecycle_accept ?ks ?lc = Ok (sp_lifecycle (contents (w_store w') ?sid))"
      using apply_lifecycle [of "contents (w_store ?w) ?sid" ?sid "cx_revision cx" ?ks a] committed(4,5)
      by simp
    then have settled: "settled_as (sp_lifecycle (contents (w_store w') ?sid)) oi (OpCancelled ?r)"
      "lc_open_turn_ids (sp_lifecycle (contents (w_store w') ?sid)) = []"
      using fold_settled [OF _ result_keeps_open [OF assms(4)]] ids opens
      by (auto simp: cancel_entries_def Let_def without_turn_def)
    let ?w2 = "fold push (snd me) w'"
    have q: "quiet w' ?w2" by (rule quiet_fold_push)
    then have live2: "engine_live store_inv oi ti ?w2" using committed(2) engine_live_quiet by blast
    have reason: "shared_cancel_reason (w_shared ?w2) = ?r"
      using committed(3) by (simp add: cancel_reason_fold_push)
    have "reports (cancel_committed (commit_revision c) (w_shared ?w2)) (OpCancelled ?r) (commit_revision c)"
      using cancel_committed_reports [of "w_shared ?w2" "commit_revision c"] live2 reason
      by (simp add: engine_live_def settled_world_def)
    moreover have "observe_and_cancel ctx cx effect_id me w =
        on_shared (cancel_committed (commit_revision c)) ?w2"
      using t committed(1) by (simp add: observe_and_cancel_def turn_cancel_def Let_def)
    ultimately show ?thesis
      using settled live2 q committed(6)
      by (auto simp: truthfully_settled_def engine_live_def quiet_def)
  next
    case (refused e w')
    have "ready oi ti cx w'"
      using ready refused(2,4) by (simp add: engine_ready_def)
    with assms(1,3) t refused(1) ready_terminate show ?thesis
      by (simp add: observe_and_cancel_def turn_cancel_def Let_def)
  qed
qed

end

end
