(* ===== verification/Engine_Turn_Model.thy ===== *)
theory Engine_Turn_Model
  imports Engine_Turn
begin

text \<open>
  Model calls over an available store: a call that completes or fails leaves the turn ready, a call
  that was cancelled settled it, and the recovery loop hands back a completed call or a settled
  operation.
\<close>

section \<open>Model events leave the store alone\<close>

definition stream_ok :: "stream_state \<Rightarrow> bool" where
  "stream_ok st \<longleftrightarrow> (ss_completed_seen st \<longrightarrow> ss_completed_blocks st \<noteq> None)"

lemma stream_ok_new [simp]: "stream_ok stream_state_new"
  by (simp add: stream_ok_def stream_state_new_def)

lemma on_model_event_quiet:
  "on_model_event sid call_id ev st w = (f, st', w') \<Longrightarrow> quiet w w' \<and> (stream_ok st \<longrightarrow> stream_ok st')"
  by (cases ev; cases "ss_completed_seen st")
    (auto simp: on_model_event_def stream_ok_def
      intro: quiet_simple quiet_trans [OF quiet_set_phase quiet_push] quiet_trans [OF quiet_record quiet_push]
      split: if_split_asm option.split_asm)

section \<open>Model calls\<close>

context available_session_store
begin

definition call_ends where
  "call_ends oi ti cx oc w \<longleftrightarrow>
     (case oc of
        McCompleted _ \<Rightarrow> ready oi ti cx w
      | McFailed _ \<Rightarrow> ready oi ti cx w
      | McSettled \<Rightarrow> truthful oi (cx_session_id cx) w
      | McPanicked \<Rightarrow> False)"

lemma ready_cancel_now:
  assumes "uses_store ctx view commit" and "ready oi ti cx w" and "effect_id = ks_effect_id (cx_state cx)"
  shows "truthful oi (cx_session_id cx) (observe_and_cancel ctx cx effect_id ([], []) w)"
  using assms by (rule ready_cancel) simp

lemma ready_poll:
  "ready oi ti cx w \<Longrightarrow> is_cancel_requested env w = (b, w') \<Longrightarrow> ready oi ti cx w'"
  by (rule engine_ready_quiet [OF _ quiet_is_cancel_requested])

lemma stream_loop_ends:
  assumes "uses_store ctx view commit" and "effect_id = ks_effect_id (cx_state cx)"
  shows "ready oi ti cx w \<Longrightarrow> stream_ok st \<Longrightarrow>
    stream_loop env ctx cx sid effect_id call_id items st w = (oc, w') \<Longrightarrow> call_ends oi ti cx oc w'"
proof (induction items arbitrary: st w)
  case Nil
  obtain b w1 where p: "is_cancel_requested env w = (b, w1)" by fastforce
  note r1 = ready_poll [OF Nil.prems(1) p]
  show ?case
    using Nil.prems(2,3) p r1 ready_cancel_now [OF assms(1) r1 assms(2)]
    by (cases b) (auto simp: call_ends_def stream_ok_def split: if_split_asm option.split_asm)
next
  case (Cons item items)
  obtain b w1 where p: "is_cancel_requested env w = (b, w1)" by fastforce
  note r1 = ready_poll [OF Cons.prems(1) p]
  show ?case
  proof (cases b)
    case True
    with Cons.prems(3) p ready_cancel_now [OF assms(1) r1 assms(2)] show ?thesis
      by (auto simp: call_ends_def)
  next
    case False
    show ?thesis
    proof (cases item)
      case (ItemError e)
      with Cons.prems(3) p r1 False show ?thesis by (auto simp: call_ends_def)
    next
      case (ItemEvent ev)
      obtain f st1 w2 where ev: "on_model_event sid call_id ev st w1 = (f, st1, w2)"
        by (metis prod_cases3)
      note q = on_model_event_quiet [OF ev]
      have r2: "ready oi ti cx w2" using engine_ready_quiet [OF r1] q by blast
      show ?thesis
      proof (cases f)
        case None
        with Cons.IH [OF r2, of st1] Cons.prems(2,3) p ev q False ItemEvent show ?thesis by simp
      next
        case (Some fl)
        with Cons.prems(3) p ev r2 False ItemEvent show ?thesis by (auto simp: call_ends_def)
      qed
    qed
  qed
qed

lemma model_call_ends:
  assumes "uses_store ctx view commit" and "effect_id = ks_effect_id (cx_state cx)"
    and "ready oi ti cx w"
    and "model_call_run env ctx cx turn effect_id call_id i ms ta w = (oc, w')"
  shows "call_ends oi ti cx oc w'"
proof -
  obtain b w1 where p: "is_cancel_requested env w = (b, w1)" by fastforce
  note r1 = ready_poll [OF assms(3) p]
  show ?thesis
  proof (cases b)
    case True
    with assms(4) p ready_cancel_now [OF assms(1) r1 assms(2)] show ?thesis
      by (auto simp: call_ends_def model_call_run_def)
  next
    case False
    define w2 where "w2 = push (EvModelCallStarted call_id) (set_phase (RunningModelCall Starting) w1)"
    define request where "request = model_request cx turn call_id i ms ta (w_shared w2)"
    define w3 where "w3 = log_action (ActModelStarted request) (tick env w2)"
    have q3: "quiet w1 w3"
      unfolding w2_def w3_def
      by (intro quiet_trans [OF quiet_set_phase quiet_trans [OF quiet_push quiet_trans [OF quiet_tick quiet_log]]])
        simp
    have r3: "ready oi ti cx w3" using engine_ready_quiet [OF r1 q3] .
    show ?thesis
    proof (cases "env_start env (w_tick w2) request")
      case (Inr e)
      with assms(4) p False r3 show ?thesis
        by (auto simp: call_ends_def model_call_run_def Let_def w2_def w3_def request_def)
    next
      case (Inl items)
      have "ready oi ti cx (set_phase (RunningModelCall WaitingForFirstOutput) w3)"
        by (rule engine_ready_quiet [OF r3 quiet_set_phase]) simp
      moreover have "stream_loop env ctx cx (ts_session_id turn) effect_id call_id items
          stream_state_new (set_phase (RunningModelCall WaitingForFirstOutput) w3) = (oc, w')"
        using assms(4) p False Inl
        by (simp add: model_call_run_def Let_def w2_def w3_def request_def)
      ultimately show ?thesis
        using stream_loop_ends [OF assms(1,2) _ stream_ok_new] by blast
    qed
  qed
qed

text \<open>A completed call hands its blocks to a ready turn; otherwise the operation settled.\<close>

lemma recovery_loop_ends:
  assumes "uses_store ctx view commit" and "effect_id = ks_effect_id (cx_state cx)"
  shows "ready oi ti cx w \<Longrightarrow>
    recovery_loop env ctx cx turn effect_id call_id i ms ta attempt w = (res, w') \<Longrightarrow>
    (case res of Some _ \<Rightarrow> ready oi ti cx w' | None \<Rightarrow> truthful oi (cx_session_id cx) w')"
  using assms
proof (induction env ctx cx turn effect_id call_id i ms ta attempt w
    arbitrary: res w' rule: recovery_loop.induct)
  case (1 env ctx cx turn effect_id call_id i ms ta attempt w)
  note store = 1(4) and eid = 1(5)
  obtain oc w1 where run: "model_call_run env ctx cx turn effect_id call_id i ms ta w = (oc, w1)"
    by fastforce
  note ends = model_call_ends [OF store eid 1(2) run]
  show ?case
  proof (cases oc)
    case (McFailed failure)
    then have r1: "ready oi ti cx w1" using ends by (simp add: call_ends_def)
    show ?thesis
    proof (cases "attempts_exhausted (cfg_recovery (ec_config ctx)) failure attempt")
      case True
      with 1(3) run McFailed ready_terminate [OF store r1 eid] show ?thesis
        by (auto simp: recovery_loop.simps [of env])
    next
      case False
      obtain b w2 where p: "is_cancel_requested env w1 = (b, w2)" by fastforce
      note r2 = ready_poll [OF r1 p]
      show ?thesis
      proof (cases b)
        case True
        with 1(3) run McFailed False p ready_cancel_now [OF store r2 eid] show ?thesis
          by (auto simp: recovery_loop.simps [of env])
      next
        case nb: False
        define w3 where "w3 = push (EvModelRetryScheduled call_id (attempt + 1)
            (rc_max_retries (cfg_recovery (ec_config ctx)))
            (backoff_delay (cfg_recovery (ec_config ctx)) (attempt + 1) (env_jitter env (w_tick w2)))
            (att_failure failure)) w2"
        have r3: "ready oi ti cx w3" unfolding w3_def by (rule engine_ready_quiet [OF r2 quiet_push])
        obtain go w4 where wait: "backoff_or_cancel env w3 = (go, w4)" by fastforce
        then have r4: "ready oi ti cx w4"
          using ready_poll [OF r3] by (auto simp: backoff_or_cancel_def split: prod.split_asm)
        have step: "recovery_loop env ctx cx turn effect_id call_id i ms ta attempt w =
            (if go then recovery_loop env ctx cx turn effect_id call_id i ms ta (attempt + 1) w4
             else (None, observe_and_cancel ctx cx effect_id ([], []) w4))"
          using run McFailed False p nb wait
          by (subst recovery_loop.simps) (simp add: Let_def w3_def)
        show ?thesis
        proof (cases go)
          case True
          have "recovery_loop env ctx cx turn effect_id call_id i ms ta (attempt + 1) w4 = (res, w')"
            using 1(3) step True by simp
          with 1(1) [OF run [symmetric] McFailed False p [symmetric] _ refl refl w3_def] nb wait True r4
            store eid
          show ?thesis by simp
        next
          case False
          with 1(3) step ready_cancel_now [OF store r4 eid] show ?thesis by auto
        qed
      qed
    qed
  qed (use 1(3) run ends in \<open>auto simp: recovery_loop.simps [of env] call_ends_def\<close>)
qed

lemma recovery_ends:
  assumes "uses_store ctx view commit" and "effect_id = ks_effect_id (cx_state cx)" and "ready oi ti cx w"
    and "drive_model_call_with_recovery env ctx cx turn effect_id call_id i ms ta w = (res, w')"
  shows "case res of Some _ \<Rightarrow> ready oi ti cx w' | None \<Rightarrow> truthful oi (cx_session_id cx) w'"
  using recovery_loop_ends [OF assms(1,2,3)] assms(4) by (simp add: drive_model_call_with_recovery_def)

end

end
