(* ===== verification/Engine_Turn_Tools.thy ===== *)
theory Engine_Turn_Tools
  imports Engine_Turn_Model
begin

text \<open>
  Tool batches over an available store: a batch hands back one result per call, in source order,
  after they are durable; otherwise the operation settled, or waits for a tool that never ends.
\<close>

section \<open>Slots\<close>

fun is_done_slot :: "batch_slot \<Rightarrow> bool" where
  "is_done_slot (SlotDone _) = True"
| "is_done_slot _ = False"

lemma done_results_calls:
  assumes "length slots = length calls" and "list_all is_done_slot slots"
  shows "map fst (done_results calls slots) = calls"
  using assms
proof (induction slots calls rule: list_induct2)
  case (Cons slot slots call calls)
  then show ?case
    by (cases slot) (simp_all add: done_results_def done_result_def List.map_filter_simps)
qed (simp add: done_results_def List.map_filter_simps)

lemma unfinished_iff:
  "list_ex (\<lambda>slot. case slot of SlotDone _ \<Rightarrow> False | _ \<Rightarrow> True) slots \<longleftrightarrow> \<not> list_all is_done_slot slots"
proof (induction slots)
  case (Cons slot slots)
  then show ?case by (cases slot) auto
qed simp

lemma list_all_take_Suc:
  "list_all P (take i xs) \<Longrightarrow> i < length xs \<Longrightarrow> P x \<Longrightarrow> list_all P (take (Suc i) (xs[i := x]))"
  by (simp add: take_Suc_conv_app_nth list_all_iff)

section \<open>Waiting for calls leaves the store alone\<close>

lemma await_quiet:
  "await_invoke env bid call w = (r, w') \<Longrightarrow> quiet w w' \<and> (r = WaitForever \<longrightarrow> w_blocked w')"
  by (auto simp: await_invoke_def Let_def
      intro: quiet_trans [OF quiet_log quiet_tick]
        quiet_trans [OF quiet_log quiet_is_cancel_requested]
        quiet_trans [OF quiet_trans [OF quiet_log quiet_is_cancel_requested] quiet_blocked]
      split: option.split_asm sum.split_asm prod.split_asm bool.split_asm)

lemma observe_cancel_quiet: "observe_cancel env grace ps w = (ps', w') \<Longrightarrow> quiet w w'"
  by (auto simp: observe_cancel_def dest: quiet_is_cancel_requested split: prod.split_asm bool.split_asm)

lemma start_calls_quiet:
  "start_calls env b calls limit ps w = (ps', w') \<Longrightarrow> quiet w w' \<and> ps_slots ps' = ps_slots ps"
proof (induction env b calls limit ps w rule: start_calls.induct)
  case (1 env b calls limit ps w)
  show ?case
  proof (cases "\<not> ps_stop_starting ps \<and> length (ps_in_flight ps) < limit \<and> ps_next ps < length calls")
    case True
    obtain c w1 where p: "is_cancel_requested env w = (c, w1)" by fastforce
    note q1 = quiet_is_cancel_requested [OF p]
    show ?thesis
    proof (cases c)
      case c: True
      with 1(2) p q1 True show ?thesis by (auto simp: start_calls.simps [of env])
    next
      case False
      then have c: "c = False" by simp
      let ?i = "ps_next ps"
      let ?w3 = "log_action (ActInvoked b (kcall_id (calls ! ?i))) (publish_started b (calls ! ?i) ?i
        (set_executing (length (ps_in_flight ps) + 1) (completed_count (ps_slots ps)) w1))"
      have q3: "quiet w ?w3"
        by (rule quiet_trans [OF q1 quiet_trans [OF quiet_set_executing
              quiet_trans [OF quiet_publish_started quiet_log]]])
      have "start_calls env b calls limit
          (ps\<lparr>ps_next := Suc ?i, ps_in_flight := ps_in_flight ps @ [?i]\<rparr>) ?w3 = (ps', w')"
        using 1(2) p False True by (simp add: start_calls.simps [of env _ _ _ ps] Let_def)
      with 1(1) [OF True p [symmetric] c refl refl refl refl] quiet_trans [OF q3]
      show ?thesis by simp
    qed
  qed (use 1(2) in \<open>auto simp: start_calls.simps [of env] quiet_refl\<close>)
qed

lemma next_finished_quiet:
  "next_finished env ps w = (r, ps', w') \<Longrightarrow>
    quiet w w' \<and> ps_slots ps' = ps_slots ps \<and> (r = NextForever \<longrightarrow> w_blocked w')"
  using quiet_tick [of w env] quiet_trans [OF quiet_tick quiet_blocked]
  by (auto simp: next_finished_def Let_def split: option.split_asm prod.split_asm)

lemma on_finished_quiet:
  "on_finished env i answer ps w = (ps', w') \<Longrightarrow>
    quiet w w' \<and> length (ps_slots ps') = length (ps_slots ps)"
  by (auto simp: on_finished_def stopped_or_error_def intro: quiet_refl
      dest: quiet_is_cancel_requested
      split: prod.split_asm bool.split_asm sum.split_asm tool_invoke_end.split_asm)

lemma length_fold_update [simp]: "length (fold (\<lambda>i xs. xs[i := x]) is xs) = length xs"
  by (induction "is" arbitrary: xs) simp_all

lemma parallel_loop_quiet:
  "parallel_loop env grace b calls limit ps w = (r, w') \<Longrightarrow>
    quiet w w' \<and> (case r of Some ps' \<Rightarrow> length (ps_slots ps') = length (ps_slots ps) | None \<Rightarrow> w_blocked w')"
proof (induction env grace b calls limit ps w arbitrary: r w' rule: parallel_loop.induct)
  case (1 env grace b calls limit ps w)
  obtain ps1 w1 where o1: "observe_cancel env grace ps w = (ps1, w1)" by fastforce
  obtain ps2 w2 where s2: "start_calls env b calls limit ps1 w1 = (ps2, w2)" by fastforce
  have q2: "quiet w w2" "ps_slots ps2 = ps_slots ps"
    using quiet_trans [OF observe_cancel_quiet [OF o1]] start_calls_quiet [OF s2]
      observe_cancel_fields [OF o1] by auto
  show ?case
  proof (cases "ps_in_flight ps2 = []")
    case True
    with 1(2) o1 s2 q2 show ?thesis by (auto simp: parallel_loop.simps [of env])
  next
    case False
    obtain n ps3 w3 where n3: "next_finished env ps2 w2 = (n, ps3, w3)" by (metis prod_cases3)
    have q3: "quiet w w3" "ps_slots ps3 = ps_slots ps" "n = NextForever \<Longrightarrow> w_blocked w3"
      using quiet_trans [OF q2(1)] next_finished_quiet [OF n3] q2(2) by auto
    show ?thesis
    proof (cases n)
      case (NextReady index answer)
      obtain ps4 w4 where f4: "on_finished env index answer ps3 w3 = (ps4, w4)" by fastforce
      let ?w5 = "set_executing (length (ps_in_flight ps4)) (completed_count (ps_slots ps4)) w4"
      have q5: "quiet w ?w5" "length (ps_slots ps4) = length (ps_slots ps)"
        using quiet_trans [OF q3(1) quiet_trans [OF _ quiet_set_executing]] on_finished_quiet [OF f4] q3(2)
        by auto
      have "parallel_loop env grace b calls limit ps4 ?w5 = (r, w')"
        using 1(2) o1 s2 False n3 NextReady f4 by (simp add: parallel_loop.simps [of env _ _ _ _ ps])
      with 1(1) [OF o1 [symmetric] s2 [symmetric] False n3 [symmetric] NextReady refl f4 [symmetric]]
        quiet_trans [OF q5(1)] q5(2) show ?thesis by (auto split: option.split_asm option.split)
    qed (use 1(2) o1 s2 False n3 q3 in \<open>auto simp: parallel_loop.simps [of env]\<close>)
  qed
qed

section \<open>Results that commit\<close>

lemma session_result_call_id [simp]: "sresult_call_id (session_result call r) = kcall_id call"
  by (simp add: session_result_def session_result_success_def session_result_error_def
      split: tool_result.split)

lemma result_entries_map:
  "map (result_entry_of ti bid) results =
    map (ToolResult ti bid) (map (\<lambda>p. session_result (fst p) (rich_result (snd p))) results)"
  by (simp add: result_entry_of_def)

lemma quiet_fold: "(\<And>x w. quiet w (f x w)) \<Longrightarrow> quiet w (fold f xs w)"
  by (induction xs arbitrary: w) (auto intro: quiet_refl quiet_trans)

context available_session_store
begin

text \<open>A batch whose results are durable, before the kernel has been told.\<close>

definition answered where
  "answered n oi ti cx w \<longleftrightarrow>
     engine_live store_inv oi ti w
     \<and> cx_revision cx = sp_revision (contents (w_store w) (cx_session_id cx))
     \<and> lc_open_turn_ids (sp_lifecycle (contents (w_store w) (cx_session_id cx))) = [ti]
     \<and> (\<exists>bs. live_turn (sp_lifecycle (contents (w_store w) (cx_session_id cx))) oi ti True bs
          \<and> rounds_done bs \<and> map tb_batch_id bs = round_batch_ids ti n)"

text \<open>How a batch ends: with its results durable and the driving context otherwise unchanged, with
  the operation settled, or not at all.\<close>

definition batch_ends where
  "batch_ends n oi ti cx calls res w \<longleftrightarrow>
     (case res of
        None \<Rightarrow> w_blocked w \<or> truthful oi (cx_session_id cx) w
      | Some (cx', results) \<Rightarrow>
          map fst results = calls \<and> cx_state cx' = cx_state cx \<and> cx_session_id cx' = cx_session_id cx
          \<and> answered n oi ti cx' w)"

lemma batch_ends_cancel:
  assumes "uses_store ctx view commit" and "ready oi ti cx w" and "effect_id = ks_effect_id (cx_state cx)"
  shows "batch_ends n oi ti cx calls (None :: (turn_cx \<times> batch_results) option)
    (observe_and_cancel ctx cx effect_id (cancellation_batch tid bid cs slots) w)"
  using ready_cancel [OF assms list_all_marks] by (simp add: batch_ends_def)

lemma batch_ends_fail:
  assumes "uses_store ctx view commit" and "ready oi ti cx w" and "effect_id = ks_effect_id (cx_state cx)"
  shows "batch_ends n oi ti cx calls (None :: (turn_cx \<times> batch_results) option)
    (turn_fail ctx cx effect_id f w)"
  using ready_terminate [OF assms] by (simp add: batch_ends_def)

lemma batch_ends_blocked:
  "w_blocked w \<Longrightarrow> batch_ends n oi ti cx calls (None :: (turn_cx \<times> batch_results) option) w"
  by (simp add: batch_ends_def)

lemma answered_quiet: "answered n oi ti cx w \<Longrightarrow> quiet w w' \<Longrightarrow> answered n oi ti cx w'"
  using engine_live_quiet [of store_inv oi ti w w'] by (auto simp: answered_def quiet_def)

lemma commit_results_ends:
  assumes store: "uses_store ctx view commit" and ready: "ready oi ti cx w"
    and state: "cx_state cx = ExpectingToolBatchCompletion e b r mx tid tr calls"
    and results: "map fst results = calls"
    and run: "commit_results env ctx cx e b results w = (res, w')"
  shows "batch_ends (unat r) oi ti cx calls res w'"
proof -
  have eid: "e = ks_effect_id (cx_state cx)" using state by simp
  obtain c w1 where p: "is_cancel_requested env w = (c, w1)" by fastforce
  note r1 = ready_poll [OF ready p]
  show ?thesis
  proof (cases c)
    case True
    with run p batch_ends_cancel [OF store r1 eid] show ?thesis by (auto simp: commit_results_def)
  next
    case False
    let ?w2 = "set_phase (RunningToolBatch CommittingResults) w1" and ?sid = "cx_session_id cx"
    let ?lc = "sp_lifecycle (contents (w_store ?w2) ?sid)"
    let ?rs = "map (\<lambda>p. session_result (fst p) (rich_result (snd p))) results"
    have r2: "ready oi ti cx ?w2" by (rule engine_ready_quiet [OF r1 quiet_set_phase]) simp
    then have live: "engine_live store_inv oi ti ?w2" and opens: "lc_open_turn_ids ?lc = [ti]"
      by (simp_all add: engine_ready_def)
    from r2 state obtain bs bt where sim: "live_turn ?lc oi ti True (bs @ [bt])"
      "tb_batch_id bt = b" "tb_results bt = []" "tb_call_ids bt = map kcall_id calls"
      "distinct (map kcall_id calls)" "map tb_batch_id (bs @ [bt]) = round_batch_ids ti (unat r)"
      by (auto simp: engine_ready_def)
    have ti: "sh_turn_id (w_shared ?w2) = ti" using live by (simp add: engine_live_def)
    have ids: "map sresult_call_id ?rs = map kcall_id calls"
      unfolding results [symmetric] by simp
    with sim have "\<exists>lc'. rfold lifecycle_accept (map (ToolResult ti b) ?rs) ?lc = Ok lc'
        \<and> live_turn lc' oi ti True (bs @ [bt\<lparr>tb_results := tb_call_ids bt\<rparr>])
        \<and> lc_open_turn_ids lc' = lc_open_turn_ids ?lc"
      by (intro accept_results) simp_all
    then obtain lc' where lc': "rfold lifecycle_accept (map (ToolResult ti b) ?rs) ?lc = Ok lc'"
      "live_turn lc' oi ti True (bs @ [bt\<lparr>tb_results := tb_call_ids bt\<rparr>])"
      "lc_open_turn_ids lc' = [ti]" using opens by auto
    let ?tx = "transaction_linear ?sid (cx_revision cx) (map (result_entry_of ti b) results)"
    from store live show ?thesis
    proof (cases rule: do_commit_cases [where tx = ?tx])
      case (committed c' a w3)
      let ?cx = "cx\<lparr>cx_revision := commit_revision c', cx_current_leaf := commit_current_leaf c'\<rparr>"
      have "sp_lifecycle (contents (w_store w3) ?sid) = lc'"
        using apply_lifecycle [of "contents (w_store ?w2) ?sid" ?sid "cx_revision cx"
          "map (result_entry_of ti b) results" a] committed(4,5) lc'(1)
        by (simp add: result_entries_map)
      then have "answered (unat r) oi ti ?cx w3"
        using committed(2,6) lc'(2,3) sim(6) by (auto simp: answered_def)
      then have "answered (unat r) oi ti ?cx
          (fold (\<lambda>(index, call, rich). push (completed_event b index call rich)) (enumerate 0 results) w3)"
        by (rule answered_quiet) (auto intro!: quiet_fold simp: quiet_push split: prod.split)
      with run p False committed(1) results ti show ?thesis
        by (auto simp: commit_results_def Let_def batch_ends_def)
    next
      case (refused err w3)
      have "ready oi ti cx w3" using r2 refused(2,4) by (simp add: engine_ready_def)
      with run p False refused(1) ti batch_ends_fail [OF store _ eid] show ?thesis
        by (auto simp: commit_results_def Let_def)
    qed
  qed
qed

section \<open>Serial execution\<close>

lemma serial_loop_ends:
  assumes store: "uses_store ctx view commit"
    and state: "cx_state cx = ExpectingToolBatchCompletion e b r mx tid tr calls"
  shows "ready oi ti cx w \<Longrightarrow> calls = take index calls @ rest \<Longrightarrow> index \<le> length calls \<Longrightarrow>
    length slots = length calls \<Longrightarrow> list_all is_done_slot (take index slots) \<Longrightarrow>
    serial_loop env ctx cx e b calls rest index slots w = (res, w') \<Longrightarrow>
    batch_ends (unat r) oi ti cx calls res w'"
proof (induction rest arbitrary: index slots w)
  case Nil
  then have "list_all is_done_slot slots" by (metis append_Nil2 length_take min.absorb2 take_all_iff)
  then have "map fst (done_results calls slots) = calls" using Nil.prems(4) by (rule_tac done_results_calls)
  with commit_results_ends [OF store Nil.prems(1) state this] Nil.prems(6) show ?case by simp
next
  case (Cons call rest)
  have eid: "e = ks_effect_id (cx_state cx)" using state by simp
  have index: "index < length calls" "calls = take (Suc index) calls @ rest"
  proof -
    have "length calls = index + Suc (length rest)"
      using Cons.prems(2,3) by (metis length_append length_take min.absorb2 length_Cons)
    then show lt: "index < length calls" by simp
    have "drop index calls = call # rest"
      using Cons.prems(2) by (metis append_eq_conv_conj append_take_drop_id)
    then have "calls ! index = call" "drop (Suc index) calls = rest"
      using lt by (metis Cons_nth_drop_Suc list.inject)+
    then show "calls = take (Suc index) calls @ rest" by (metis append_take_drop_id)
  qed
  obtain c w1 where p: "is_cancel_requested env w = (c, w1)" by fastforce
  note r1 = ready_poll [OF Cons.prems(1) p]
  let ?w = "publish_started b call index (set_executing 1 index w1)"
  obtain wt w2 where aw: "await_invoke env b call ?w = (wt, w2)" by fastforce
  have r2: "ready oi ti cx w2"
    by (rule engine_ready_quiet [OF r1 quiet_trans [OF quiet_set_executing
          quiet_trans [OF quiet_publish_started conjunct1 [OF await_quiet [OF aw]]]]])
  obtain c2 w3 where p2: "is_cancel_requested env w2 = (c2, w3)" by fastforce
  note r3 = ready_poll [OF r2 p2]
  note run = Cons.prems(6) [simplified serial_loop.simps Let_def p aw p2 prod.case]
  show ?case
  proof (cases c)
    case True
    with run batch_ends_cancel [OF store r1 eid] show ?thesis by auto
  next
    case False
    show ?thesis
    proof (cases "\<exists>result. wt = WaitFinished (EndDone result)")
      case True
      then obtain result where wt: "wt = WaitFinished (EndDone result)" by blast
      show ?thesis
        by (rule Cons.IH [OF r2, of "Suc index" "slots[index := SlotDone result]"])
          (use index Cons.prems(4,5) run False wt in \<open>auto intro: list_all_take_Suc\<close>)
    next
      case other: False
      show ?thesis
        using run False other batch_ends_cancel [OF store r3 eid] batch_ends_fail [OF store r3 eid]
          await_quiet [OF aw] batch_ends_blocked
        by (auto split: invoke_wait.split_asm tool_invoke_end.split_asm
            bool.split_asm)
    qed
  qed
qed

section \<open>Parallel execution\<close>

lemma run_parallel_ends:
  assumes store: "uses_store ctx view commit" and ready: "ready oi ti cx w"
    and state: "cx_state cx = ExpectingToolBatchCompletion e b r mx tid tr calls"
    and run: "run_parallel env ctx cx e b calls limit w = (res, w')"
  shows "batch_ends (unat r) oi ti cx calls res w'"
proof -
  have eid: "e = ks_effect_id (cx_state cx)" using state by simp
  obtain ps' w1 where loop: "parallel_loop env (cfg_tool_cancel_grace (ec_config ctx)) b calls limit
      (parallel_init calls) w = (ps', w1)" by fastforce
  note q1 = parallel_loop_quiet [OF loop]
  have r1: "ready oi ti cx w1" using engine_ready_quiet [OF ready] q1 by blast
  show ?thesis
  proof (cases ps')
    case None
    with run loop q1 show ?thesis by (auto simp: run_parallel_def batch_ends_def)
  next
    case (Some ps)
    have len: "length (ps_slots ps) = length calls"
      using q1 Some by (simp add: parallel_init_def)
    show ?thesis
    proof (cases "ps_port_error ps")
      case (Some err)
      with run loop \<open>ps' = _\<close> batch_ends_fail [OF store r1 eid] show ?thesis
        by (auto simp: run_parallel_def)
    next
      case None
      note run' = run [unfolded run_parallel_def loop \<open>ps' = _\<close>, simplified None prod.case option.case]
      show ?thesis
      proof (cases "list_all is_done_slot (ps_slots ps)")
        case False
        with run' batch_ends_cancel [OF store r1 eid] show ?thesis
          by (auto simp: unfinished_iff)
      next
        case True
        obtain c w2 where p: "is_cancel_requested env w1 = (c, w2)" by fastforce
        note r2 = ready_poll [OF r1 p]
        have "map fst (done_results calls (ps_slots ps)) = calls"
          using len True by (rule done_results_calls)
        note commits = commit_results_ends [OF store r2 state this]
        show ?thesis
        proof (cases c)
          case True
          with run' p \<open>list_all _ _\<close> batch_ends_cancel [OF store r2 eid] show ?thesis
            by (auto simp: unfinished_iff)
        next
          case False
          with run' p True have "commit_results env ctx cx e b (done_results calls (ps_slots ps)) w2 = (res, w')"
            by (simp add: unfinished_iff)
          then show ?thesis by (rule commits)
        qed
      qed
    qed
  qed
qed

lemma tool_batch_ends:
  assumes "uses_store ctx view commit" and "ready oi ti cx w"
    and "cx_state cx = ExpectingToolBatchCompletion e b r mx tid tr calls"
    and "tool_batch_run env ctx cx e b calls limit w = (res, w')"
  shows "batch_ends (unat r) oi ti cx calls res w'"
proof (cases "max limit 1 = 1")
  case True
  with assms(4) have "serial_loop env ctx cx e b calls calls 0 (map (\<lambda>_. SlotUnstarted) calls) w = (res, w')"
    by (simp add: tool_batch_run_def run_serial_def Let_def)
  then show ?thesis
    by (rule serial_loop_ends [OF assms(1,3,2), rotated 4]) simp_all
next
  case False
  with assms(4) run_parallel_ends [OF assms(1,2,3)] show ?thesis
    by (simp add: tool_batch_run_def Let_def)
qed

end

end
