(* ===== verification/Engine_Turn_Drive.thy ===== *)
theory Engine_Turn_Drive
  imports Engine_Turn_Tools
begin

text \<open>
  Rounds and the loop of the driver over an available store: every round keeps the kernel's state
  and the session's record of the turn in step, and the loop ends with the operation settled as the
  session says, or waiting for a tool that never ends.
\<close>

section \<open>Rounds in kernel and session\<close>

lemma matching_kernel_results:
  "matching_results (map fst results) (map (\<lambda>(call, rich). kernel_result call (rich_result rich)) results)"
  by (auto simp: matching_results_def list_all_iff kernel_result_def kernel_result_success_def
      kernel_result_error_def zip_map_map zip_same_conv_map split: tool_result.split)

lemma round_batch_ids_inc:
  assumes "u < (mx :: u32)"
  shows "round_batch_ids ti (unat (u + 1)) = round_batch_ids ti (unat u) @ [fst (tool_batch_ids ti (u + 1))]"
    and "fst (tool_batch_ids ti (u + 1)) \<notin> set (round_batch_ids ti (unat u))"
proof -
  have "unat (u + 1) = Suc (unat u)"
    using assms unat_u32_less [of mx] by (simp add: unat_word_ariths word_less_nat_alt)
  then show "round_batch_ids ti (unat (u + 1)) =
      round_batch_ids ti (unat u) @ [fst (tool_batch_ids ti (u + 1))]"
    "fst (tool_batch_ids ti (u + 1)) \<notin> set (round_batch_ids ti (unat u))"
    by (auto simp: round_batch_ids_def tool_batch_ids_def)
qed

lemma session_block_calls_map:
  "map scall_id (session_block_calls (map session_block bs)) = map kcall_id (List.map_filter block_call bs)"
proof (induction bs)
  case (Cons b bs)
  then show ?case
    by (cases b) (simp_all add: session_block_calls_def session_block_def session_block_call_def
        List.map_filter_simps)
qed (simp add: session_block_calls_def List.map_filter_simps)

lemma session_texts_nonempty:
  "assistant_from_blocks blocks = Ok out \<Longrightarrow>
    list_all block_text_nonempty (map session_block (ao_blocks out))"
  by (auto simp: assistant_from_blocks_def list_all_iff list_ex_iff empty_text_block_def
      block_text_nonempty_def session_block_def split: if_split_asm assistant_block.splits)

lemma accept_kernel_batch:
  assumes "live_turn lc oi ti True bs" and "rounds_done bs"
    and "map tb_batch_id bs = round_batch_ids ti (unat u)" and "u < mx"
    and "assistant_from_blocks blocks = Ok out" and "tool_call_batch out = Some calls"
    and "valid_calls calls" and "bid = fst (tool_batch_ids ti (u + 1))"
  obtains lc' bt where "rfold lifecycle_accept [batch_entry ti mc bid (ao_blocks out)] lc = Ok lc'"
    "live_turn lc' oi ti True (bs @ [bt])" "tb_batch_id bt = bid" "tb_results bt = []"
    "tb_call_ids bt = map kcall_id calls" "lc_open_turn_ids lc' = lc_open_turn_ids lc"
    "map tb_batch_id (bs @ [bt]) = round_batch_ids ti (unat (u + 1))"
proof -
  let ?blocks = "map session_block (ao_blocks out)"
  have calls: "map scall_id (session_block_calls ?blocks) = map kcall_id calls"
    using assms(6) session_block_calls_map [of "ao_blocks out"]
    by (auto simp: tool_call_batch_def Let_def split: if_split_asm)
  then have "session_block_calls ?blocks \<noteq> []" "distinct (map scall_id (session_block_calls ?blocks))"
    using valid_calls_nonempty [OF assms(7)] valid_calls_distinct [OF assms(7)] by auto
  moreover have "bid \<notin> set (map tb_batch_id bs)"
    using round_batch_ids_inc(2) [OF assms(4)] assms(3,8) by simp
  ultimately obtain lc' where "rfold lifecycle_accept [AssistantToolCallBatch ti mc bid ?blocks] lc = Ok lc'"
    "live_turn lc' oi ti True (bs @ [\<lparr>tb_batch_id = bid,
       tb_call_ids = map scall_id (session_block_calls ?blocks), tb_results = []\<rparr>])"
    "lc_open_turn_ids lc' = lc_open_turn_ids lc"
    using accept_batch [OF assms(1,2)] session_texts_nonempty [OF assms(5)] by blast
  with that calls show thesis
    using round_batch_ids_inc(1) [OF assms(4)] assms(3,8) by (simp add: batch_entry_def)
qed

section \<open>Rounds\<close>

context available_session_store
begin

lemma ready_set_phase:
  "ready oi ti cx w \<Longrightarrow> \<not> is_settled_phase ph \<Longrightarrow> ready oi ti cx (set_phase ph w)"
  by (rule engine_ready_quiet [OF _ quiet_set_phase])

lemma refused_ready:
  "ready oi ti cx w \<Longrightarrow> engine_live store_inv oi ti w' \<Longrightarrow> contents (w_store w') = contents (w_store w)
    \<Longrightarrow> ready oi ti cx w'"
  by (simp add: engine_ready_def)

lemma settle_success_truthful:
  assumes store: "uses_store ctx view commit" and ready: "ready oi ti cx w"
    and eid: "effect_id = ks_effect_id (cx_state cx)"
  shows "truthful oi (cx_session_id cx) (settle_success ctx cx effect_id obs text w)"
proof -
  let ?sid = "cx_session_id cx" and ?w = "set_phase Finalizing w"
  have r2: "ready oi ti cx ?w" using ready_set_phase [OF ready] by simp
  then have live: "engine_live store_inv oi ti ?w"
    and opens: "lc_open_turn_ids (sp_lifecycle (contents (w_store ?w) ?sid)) = [ti]"
    by (simp_all add: engine_ready_def)
  have ids: "sh_operation_id (w_shared w) = oi" "sh_turn_id (w_shared w) = ti"
    using ready by (simp_all add: engine_ready_def engine_live_def)
  let ?entries = "success_entries obs (sh_operation_id (w_shared w)) (sh_turn_id (w_shared w))
      (sh_last_usage (w_shared w)) (ec_generation_choice ctx)"
  show ?thesis
  proof (cases ?entries)
    case (Ok ks)
    then obtain blocks where ks: "ks = [AssistantMessage ti blocks] @ [TurnTerminated ti TurnSucceeded,
        OperationSettled oi OpSucceeded (map_option session_usage (sh_last_usage (w_shared w)))
          (Some (ec_generation_choice ctx))]"
      using ids by (auto simp: success_entries_def split: option.split_asm if_split_asm)
    let ?tx = "transaction_linear ?sid (cx_revision cx) ks"
    from store live show ?thesis
    proof (cases rule: do_commit_cases [where tx = ?tx])
      case (committed c a w')
      have "rfold lifecycle_accept ks (sp_lifecycle (contents (w_store ?w) ?sid))
          = Ok (sp_lifecycle (contents (w_store w') ?sid))"
        using apply_lifecycle [of "contents (w_store ?w) ?sid" ?sid "cx_revision cx" ks a] committed(4,5)
        by simp
      then have settled: "settled_as (sp_lifecycle (contents (w_store w') ?sid)) oi OpSucceeded"
        "lc_open_turn_ids (sp_lifecycle (contents (w_store w') ?sid)) = []"
        using fold_settled [OF _ , of "[AssistantMessage ti blocks]"] opens
        by (auto simp: ks keeps_open_def without_turn_def)
      have "reports (publisher_succeed \<lparr>am_content = text\<rparr> (commit_revision c) (w_shared w'))
          OpSucceeded (commit_revision c)"
        using committed(2) by (intro succeed_reports) (simp add: engine_live_def settled_world_def)
      with settled committed Ok show ?thesis
        by (auto simp: settle_success_def truthfully_settled_def engine_live_def)
    next
      case (refused e w')
      with Ok ready_terminate [OF store refused_ready [OF r2 refused(2,4)] eid] show ?thesis
        by (simp add: settle_success_def)
    qed
  next
    case (Err f)
    with ready_terminate [OF store ready eid] show ?thesis by (simp add: settle_success_def)
  qed (auto simp: success_entries_def split: option.split_asm if_split_asm)
qed

text \<open>How a round ends: with the next model effect and everything in step, or with the operation
  settled or blocked.\<close>

definition round_ends where
  "round_ends oi ti sid res w \<longleftrightarrow>
     (case res of
        None \<Rightarrow> w_blocked w \<or> truthful oi sid w
      | Some (cx', eff) \<Rightarrow>
          ready oi ti cx' w \<and> cx_session_id cx' = sid
          \<and> (\<exists>m ms ta. eff = RequestModel (ks_effect_id (cx_state cx')) m ms ta)
          \<and> (\<exists>e m u mx tr. cx_state cx' = ExpectingModelCompletion e m u mx ti tr))"

lemma answered_ready:
  assumes "answered (unat u) oi ti cx w"
  shows "ready oi ti (cx\<lparr>cx_state := ExpectingModelCompletion e m u mx ti tr\<rparr>) w"
  using assms by (auto simp: answered_def engine_ready_def)

lemma run_batch_round_ends:
  assumes store: "uses_store ctx view commit" and ready: "ready oi ti cx w"
    and state: "cx_state cx = ExpectingToolBatchCompletion e b r mx ti tr calls"
    and run: "run_batch_round env ctx cx turn e b calls w = (res, w')"
  shows "round_ends oi ti (cx_session_id cx) res w'"
proof -
  obtain res1 w1 where batch: "tool_batch_run env ctx cx e b calls (ts_max_parallel_tool_calls turn) w
      = (res1, w1)" by fastforce
  note ends = tool_batch_ends [OF store ready state batch]
  show ?thesis
  proof (cases res1)
    case None
    with run batch ends show ?thesis
      by (auto simp: run_batch_round_def round_ends_def batch_ends_def)
  next
    case (Some p)
    obtain cx1 results where p: "p = (cx1, results)" by fastforce
    from ends Some p have e1: "map fst results = calls" "cx_state cx1 = cx_state cx"
      "cx_session_id cx1 = cx_session_id cx" "answered (unat r) oi ti cx1 w1"
      by (simp_all add: batch_ends_def)
    have match: "matching_results calls (map (\<lambda>(call, rich). kernel_result call (rich_result rich)) results)"
      using matching_kernel_results [of results] e1(1) by simp
    obtain t e' m' tr' where t: "transition (cx_state cx1) (ToolBatchCompleted e
        (map (\<lambda>(call, rich). kernel_result call (rich_result rich)) results)) = Ok t"
      "next_state t = ExpectingModelCompletion e' m' r mx ti tr'"
      "effect t = Some (RequestModel e' m' tr' (r < mx))"
      using match state e1(2)
      by (cases "model_call_ids ti (r + 1)") (simp add: transition_def complete_tools_def Let_def)
    with run batch Some p e1(3) answered_ready [OF e1(4)] show ?thesis
      by (auto simp: run_batch_round_def round_ends_def)
  qed
qed

lemma commit_batch_round_ends:
  assumes store: "uses_store ctx view commit" and ready: "ready oi ti cx w"
    and state: "cx_state cx = ExpectingModelCompletion e m u mx ti tr"
    and blocks: "assistant_from_blocks blocks = Ok out"
    and completed: "transition (cx_state cx) (ModelCallCompleted e out) = Ok completed" "contains_tool_call out"
    and run: "commit_batch_round env ctx cx turn e mc out completed w = (res, w')"
  shows "round_ends oi ti (cx_session_id cx) res w'"
proof -
  have eid: "e = ks_effect_id (cx_state cx)" using state by simp
  let ?sid = "cx_session_id cx" and ?w = "set_phase (RunningToolBatch Preparing) w"
  from completed state obtain calls b e' tr' where step: "u < mx" "tool_call_batch out = Some calls"
    "valid_calls calls" "(b, e') = tool_batch_ids ti (u + 1)"
    "next_state completed = ExpectingToolBatchCompletion e' b (u + 1) mx ti tr' calls"
    "effect completed = Some (ExecuteToolBatch e' b calls)"
    by (cases rule: transition_Ok_cases [OF completed(1)]) auto
  have bid: "b = fst (tool_batch_ids ti (u + 1))" using step(4) by (metis fst_conv)
  have r1: "ready oi ti cx ?w" using ready_set_phase [OF ready] by simp
  let ?lc = "sp_lifecycle (contents (w_store ?w) ?sid)"
  have live: "engine_live store_inv oi ti ?w" and opens: "lc_open_turn_ids ?lc = [ti]"
    using r1 by (simp_all add: engine_ready_def)
  have ti: "sh_turn_id (w_shared ?w) = ti" using live by (simp add: engine_live_def)
  from r1 state obtain bs where sim: "live_turn ?lc oi ti True bs" "rounds_done bs"
    "map tb_batch_id bs = round_batch_ids ti (unat u)"
    by (auto simp: engine_ready_def)
  obtain lc' bt where lc': "rfold lifecycle_accept [batch_entry ti mc b (ao_blocks out)] ?lc = Ok lc'"
    "live_turn lc' oi ti True (bs @ [bt])" "tb_batch_id bt = b" "tb_results bt = []"
    "tb_call_ids bt = map kcall_id calls" "lc_open_turn_ids lc' = lc_open_turn_ids ?lc"
    "map tb_batch_id (bs @ [bt]) = round_batch_ids ti (unat (u + 1))"
    by (rule accept_kernel_batch [OF sim step(1) blocks step(2,3) bid, of mc])
  let ?tx = "transaction_linear ?sid (cx_revision cx) [batch_entry ti mc b (ao_blocks out)]"
  from store live show ?thesis
  proof (cases rule: do_commit_cases [where tx = ?tx])
    case (committed c a w2)
    let ?cx = "cx\<lparr>cx_revision := commit_revision c, cx_current_leaf := commit_current_leaf c,
        cx_state := next_state completed\<rparr>"
    have "sp_lifecycle (contents (w_store w2) ?sid) = lc'"
      using apply_lifecycle [of "contents (w_store ?w) ?sid" ?sid "cx_revision cx"
        "[batch_entry ti mc b (ao_blocks out)]" a] committed(4,5) lc'(1) by simp
    then have "ready oi ti ?cx w2"
      using committed(2,6) lc' opens step(3,5) valid_calls_nonempty valid_calls_distinct
      by (auto simp: engine_ready_def)
    then have r2: "ready oi ti ?cx (push (EvToolBatchRequested b (length calls)) w2)"
      by (rule engine_ready_quiet [OF _ quiet_push])
    have "run_batch_round env ctx ?cx turn e' b calls (push (EvToolBatchRequested b (length calls)) w2)
        = (res, w')"
      using run committed(1) step(6) ti by (simp add: commit_batch_round_def Let_def)
    from run_batch_round_ends [OF store r2 _ this] step(5) show ?thesis by simp
  next
    case (refused err w2)
    with run step(6) ti ready_terminate [OF store refused_ready [OF r1 refused(2,4)] eid] show ?thesis
      by (auto simp: commit_batch_round_def Let_def round_ends_def)
  qed
qed

lemma model_round_ends:
  assumes store: "uses_store ctx view commit" and ready: "ready oi ti cx w"
    and state: "cx_state cx = ExpectingModelCompletion e m u mx ti tr"
    and run: "model_round env ctx cx turn e mc i ms ta w = (res, w')"
  shows "round_ends oi ti (cx_session_id cx) res w'"
proof -
  have eid: "e = ks_effect_id (cx_state cx)" using state by simp
  obtain bl w1 where call: "drive_model_call_with_recovery env ctx cx turn e mc i ms ta w = (bl, w1)"
    by fastforce
  note ends = recovery_ends [OF store eid ready call]
  show ?thesis
  proof (cases bl)
    case None
    with run call ends show ?thesis by (auto simp: model_round_def round_ends_def)
  next
    case (Some blocks)
    then have r1: "ready oi ti cx w1" using ends by simp
    note failed = ready_terminate [OF store r1 eid]
    show ?thesis
    proof (cases "assistant_from_blocks (kernel_blocks_from_model blocks)")
      case (Ok out)
      note from_blocks = Ok
      show ?thesis
      proof (cases "transition (cx_state cx) (ModelCallCompleted e out)")
        case (Ok completed)
        show ?thesis
        proof (cases "contains_tool_call out")
          case True
          with run call Some from_blocks Ok have
            "commit_batch_round env ctx cx turn e mc out completed w1 = (res, w')"
            by (simp add: model_round_def)
          then show ?thesis
            by (rule commit_batch_round_ends [OF store r1 state from_blocks Ok True])
        next
          case False
          with run call Some from_blocks Ok settle_success_truthful [OF store r1 eid] show ?thesis
            by (auto simp: model_round_def round_ends_def)
        qed
      next
        case (Err rej)
        with run call Some from_blocks failed show ?thesis by (auto simp: model_round_def round_ends_def)
      next
        case Panic
        with state show ?thesis
          by (auto simp: transition_def complete_model_def mismatch_def Let_def contains_tool_call_iff_batch
              split: if_split_asm option.split_asm prod.split_asm)
      qed
    next
      case (Err err)
      with run call Some failed show ?thesis by (auto simp: model_round_def round_ends_def)
    next
      case Panic
      then show ?thesis by (simp add: assistant_from_blocks_def split: if_split_asm)
    qed
  qed
qed

lemma drive_loop_ends:
  assumes store: "uses_store ctx view commit"
  shows "ready oi ti cx w \<Longrightarrow> cx_state cx = ExpectingModelCompletion e m u mx ti tr \<Longrightarrow>
    eff = RequestModel e mc ms ta \<Longrightarrow> drive_loop env ctx turn fuel cx i eff w = Some w' \<Longrightarrow>
    w_blocked w' \<or> truthful oi (cx_session_id cx) w'"
proof (induction fuel arbitrary: cx e m u mx tr eff mc ms ta i w)
  case (Suc fuel)
  obtain res w1 where r: "model_round env ctx cx turn e mc (i + 1) ms ta w = (res, w1)" by fastforce
  note ends = model_round_ends [OF store Suc.prems(1,2) r]
  show ?case
  proof (cases res)
    case None
    with Suc.prems(3,4) r ends show ?thesis by (auto simp: round_ends_def)
  next
    case (Some p)
    obtain cx1 eff1 where p: "p = (cx1, eff1)" by fastforce
    from ends Some p obtain m' ms' ta' e2 m2 u2 mx2 tr2 where next':
      "ready oi ti cx1 w1" "cx_session_id cx1 = cx_session_id cx"
      "eff1 = RequestModel e2 m' ms' ta'" "cx_state cx1 = ExpectingModelCompletion e2 m2 u2 mx2 ti tr2"
      by (auto simp: round_ends_def)
    have "drive_loop env ctx turn fuel cx1 (i + 1) eff1 w1 = Some w'"
      using Suc.prems(3,4) r Some p by simp
    from Suc.IH [OF next'(1,4,3) this] next'(2) show ?thesis by simp
  qed
qed simp

end

end
