(* ===== verification/Engine_Steps.thy ===== *)
theory Engine_Steps
  imports Engine_Turn_Drive
begin

text \<open>
  The driver as a transition system: the primitive steps a driver can take, and the proof that every
  part of it is a sequence of them. What holds of every step then holds of every run; in
  particular a tool call may only be invoked once the batch that holds it is durable.
\<close>

section \<open>Steps\<close>

fun is_settlement :: "agent_event \<Rightarrow> bool" where
  "is_settlement (EvOperationSettled _ _ _ _) = True"
| "is_settlement _ = False"

text \<open>The operations of the publisher that settle.\<close>

definition settlement :: "(operation_shared \<Rightarrow> operation_shared) \<Rightarrow> bool" where
  "settlement f \<longleftrightarrow>
     (\<exists>a r. f = publisher_succeed a r) \<or> (\<exists>g r. f = fail_confirmed g r)
     \<or> (\<exists>g. f = fail_unconfirmed g) \<or> f = cancel_zero_trace \<or> (\<exists>r. f = cancel_committed r)"

lemma settlementI [simp]:
  "settlement (publisher_succeed a r)" "settlement (fail_confirmed g r)"
  "settlement (fail_unconfirmed g)" "settlement cancel_zero_trace" "settlement (cancel_committed r)"
  by (auto simp: settlement_def)

text \<open>The call is one of a batch that a committed transaction made durable.\<close>

definition holds_call :: "rstring \<Rightarrow> rstring \<Rightarrow> session_entry_kind \<Rightarrow> bool" where
  "holds_call bid call_id k =
     (case k of
        AssistantToolCallBatch _ _ b blocks \<Rightarrow>
          b = bid \<and> call_id \<in> set (map scall_id (session_block_calls blocks))
      | _ \<Rightarrow> False)"

definition call_durable :: "rstring \<Rightarrow> rstring \<Rightarrow> ('f, 't) trace_action list \<Rightarrow> bool" where
  "call_durable bid call_id tr \<longleftrightarrow>
     (\<exists>tx. ActCommitted tx \<in> set tr \<and> list_ex (holds_call bid call_id) (map ne_kind (tx_entries tx)))"

inductive driver_step ::
    "('f, 't) environment \<Rightarrow> ('s, 'f, 't) engine_context \<Rightarrow> ('s, 'f, 't) world \<Rightarrow> ('s, 'f, 't) world \<Rightarrow> bool"
  for env ctx where
    step_tick: "driver_step env ctx w (tick env w)"
  | step_poll: "is_cancel_requested env w = (b, w') \<Longrightarrow> driver_step env ctx w w'"
  | step_publish: "\<not> is_settlement ev \<Longrightarrow> driver_step env ctx w (push ev w)"
  | step_phase: "\<not> is_settled_phase ph \<Longrightarrow> driver_step env ctx w (set_phase ph w)"
  | step_tokens: "driver_step env ctx w (record_input_tokens sid n w)"
  | step_model: "driver_step env ctx w (log_action (ActModelStarted request) w)"
  | step_invoke: "call_durable bid call_id (w_trace w) \<Longrightarrow>
      driver_step env ctx w (log_action (ActInvoked bid call_id) w)"
  | step_commit: "do_commit ctx tx w = (r, w') \<Longrightarrow> driver_step env ctx w w'"
  | step_view: "do_view ctx sid w = (v, w') \<Longrightarrow> driver_step env ctx w w'"
  | step_settle: "settlement f \<Longrightarrow> driver_step env ctx w (on_shared f w)"
  | step_panic: "driver_step env ctx w (driver_panic w)"
  | step_block: "driver_step env ctx w (w\<lparr>w_blocked := True\<rparr>)"

definition driver_steps ::
    "('f, 't) environment \<Rightarrow> ('s, 'f, 't) engine_context \<Rightarrow> ('s, 'f, 't) world \<Rightarrow> ('s, 'f, 't) world \<Rightarrow> bool"
  where "driver_steps env ctx = (driver_step env ctx)\<^sup>*\<^sup>*"

lemma steps_refl [simp, intro]: "driver_steps env ctx w w"
  by (simp add: driver_steps_def)

lemma steps_trans [trans]:
  "driver_steps env ctx w w1 \<Longrightarrow> driver_steps env ctx w1 w2 \<Longrightarrow> driver_steps env ctx w w2"
  by (simp add: driver_steps_def)

lemma step_steps: "driver_step env ctx w w1 \<Longrightarrow> driver_steps env ctx w w1"
  by (simp add: driver_steps_def r_into_rtranclp)

lemmas one_step = driver_step.intros [THEN step_steps]

lemma step_first: "driver_step env ctx w w1 \<Longrightarrow> driver_steps env ctx w1 w2 \<Longrightarrow> driver_steps env ctx w w2"
  by (metis step_steps steps_trans)

lemma step_last: "driver_steps env ctx w w1 \<Longrightarrow> driver_step env ctx w1 w2 \<Longrightarrow> driver_steps env ctx w w2"
  by (metis step_steps steps_trans)

lemma steps_invariant:
  assumes "driver_steps env ctx w w'" and "P w"
    and "\<And>v v'. driver_step env ctx v v' \<Longrightarrow> P v \<Longrightarrow> P v'"
  shows "P w'"
  using assms(1) unfolding driver_steps_def
  by (induction rule: rtranclp_induct) (use assms(2,3) in auto)

section \<open>The trace only grows\<close>

lemma trace_fields [simp]:
  "w_trace (tick env w) = w_trace w" "w_trace (push ev w) = w_trace w"
  "w_trace (set_phase ph w) = w_trace w" "w_trace (record_input_tokens sid n w) = w_trace w"
  "w_trace (log_action a w) = w_trace w @ [a]" "w_trace (driver_panic w) = w_trace w"
  by (simp_all add: tick_def push_def set_phase_def record_input_tokens_def log_action_def driver_panic_def)

lemma poll_trace: "is_cancel_requested env w = (b, w') \<Longrightarrow> w_trace w' = w_trace w"
  by (auto simp: is_cancel_requested_def Let_def split: prod.split_asm)

lemma view_trace: "do_view ctx sid w = (v, w') \<Longrightarrow> w_trace w' = w_trace w"
  by (auto simp: do_view_def Let_def)

lemma commit_trace:
  "do_commit ctx tx w = (r, w') \<Longrightarrow> w_trace w' = w_trace w @ (case r of Ok _ \<Rightarrow> [ActCommitted tx] | _ \<Rightarrow> [])"
  by (auto simp: do_commit_def split: prod.split_asm)

lemma step_trace: "driver_step env ctx w w' \<Longrightarrow> \<exists>acts. w_trace w' = w_trace w @ acts"
  by (cases rule: driver_step.cases) (auto simp: poll_trace view_trace commit_trace)

lemma steps_trace: "driver_steps env ctx w w' \<Longrightarrow> \<exists>acts. w_trace w' = w_trace w @ acts"
  by (erule steps_invariant) (auto dest: step_trace)

lemma call_durable_mono: "call_durable bid c tr \<Longrightarrow> call_durable bid c (tr @ acts)"
  by (auto simp: call_durable_def)

lemma call_durable_steps:
  "call_durable bid c (w_trace w) \<Longrightarrow> driver_steps env ctx w w' \<Longrightarrow> call_durable bid c (w_trace w')"
  using steps_trace call_durable_mono by metis

section \<open>Settlement paths are steps\<close>

lemma commit_then_settle:
  "do_commit ctx tx w = (r, w') \<Longrightarrow> settlement f \<Longrightarrow> driver_steps env ctx w (on_shared f w')"
  by (meson driver_step.intros step_first step_steps)

lemma fold_push_steps: "list_all (\<lambda>ev. \<not> is_settlement ev) evs \<Longrightarrow> driver_steps env ctx w (fold push evs w)"
  by (induction evs arbitrary: w) (auto intro: step_first [OF step_publish])

lemma cancellation_observed_steps: "driver_steps env ctx w (on_shared cancellation_observed w)"
proof -
  have "on_shared cancellation_observed w =
      push (EvCancellationRequested (sh_operation_id (w_shared w)) (shared_cancel_reason (w_shared w))) w"
    by (simp add: on_shared_def push_def cancellation_observed_def)
  then show ?thesis by (simp only:) (rule one_step(3), simp)
qed

lemma turn_fail_steps: "driver_steps env ctx w (turn_fail ctx cx eid f w)"
  by (auto simp: turn_fail_def Let_def intro: one_step commit_then_settle split: rres.split prod.split)

lemma turn_cancel_steps:
  assumes "list_all (\<lambda>ev. \<not> is_settlement ev) evs"
  shows "driver_steps env ctx w (turn_cancel ctx cx eid marks evs w)"
proof -
  have "driver_steps env ctx w (on_shared (cancel_committed r) (fold push evs w'))"
    if "do_commit ctx tx w = (Ok c, w')" for tx c w' r
    using step_first [OF step_commit [OF that] step_last [OF fold_push_steps [OF assms] step_settle]] by simp
  moreover have "driver_steps env ctx w (turn_fail ctx cx eid f w')"
    if "do_commit ctx tx w = (Err e, w')" for tx e w' f
    using step_first [OF step_commit [OF that] turn_fail_steps] by simp
  ultimately show ?thesis
    by (auto simp: turn_cancel_def Let_def intro: one_step turn_fail_steps split: rres.split prod.split)
qed

lemma observe_and_cancel_steps:
  "list_all (\<lambda>ev. \<not> is_settlement ev) (snd me) \<Longrightarrow>
    driver_steps env ctx w (observe_and_cancel ctx cx eid me w)"
  unfolding observe_and_cancel_def
  by (rule steps_trans [OF cancellation_observed_steps turn_cancel_steps])

lemma cancellation_batch_events [simp]:
  "list_all (\<lambda>ev. \<not> is_settlement ev) (snd (cancellation_batch ti bid calls slots))"
  by (auto simp: cancellation_batch_def list_all_iff set_map_filter cancellation_event_def
      completed_event_def split: batch_slot.split_asm)

section \<open>Model calls are steps\<close>

lemma poll_cancel_steps:
  "is_cancel_requested env w = (b, w1) \<Longrightarrow> driver_steps env ctx w (observe_and_cancel ctx cx eid ([], []) w1)"
  by (rule step_first [OF step_poll observe_and_cancel_steps]) simp_all

lemma on_model_event_steps:
  "on_model_event sid call_id ev st w = (f, st', w') \<Longrightarrow> driver_steps env ctx w w'"
  by (cases ev; cases "ss_completed_seen st")
    (auto simp: on_model_event_def intro: one_step step_first [OF step_phase one_step(3)]
      step_first [OF step_tokens one_step(3)] split: if_split_asm option.split_asm)

lemma stream_loop_steps:
  "stream_loop env ctx cx sid eid call_id items st w = (r, w') \<Longrightarrow> driver_steps env ctx w w'"
proof (induction items arbitrary: st w)
  case Nil
  obtain b w1 where p: "is_cancel_requested env w = (b, w1)" by fastforce
  with Nil poll_cancel_steps [OF p, of ctx cx eid] one_step(2) [OF p, of ctx]
    step_first [OF step_poll [OF p] one_step(11)] show ?case
    by (auto split: bool.split_asm if_split_asm option.split_asm)
next
  case (Cons item items)
  obtain b w1 where p: "is_cancel_requested env w = (b, w1)" by fastforce
  show ?case
  proof (cases "\<exists>ev. \<not> b \<and> item = ItemEvent ev")
    case True
    then obtain ev where ev: "\<not> b" "item = ItemEvent ev" by blast
    obtain f st1 w2 where e: "on_model_event sid call_id ev st w1 = (f, st1, w2)" by (metis prod_cases3)
    have "driver_steps env ctx w w2" by (rule step_first [OF step_poll [OF p] on_model_event_steps [OF e]])
    moreover have "driver_steps env ctx w2 w'"
      using Cons.prems Cons.IH [of st1 w2] p ev e by (auto split: option.split_asm)
    ultimately show ?thesis by (rule steps_trans)
  next
    case False
    with Cons.prems p poll_cancel_steps [OF p, of ctx cx eid] one_step(2) [OF p, of ctx] show ?thesis
      by (auto split: bool.split_asm stream_item.split_asm)
  qed
qed

lemma model_call_run_steps:
  assumes "model_call_run env ctx cx turn eid call_id i ms ta w = (r, w')"
  shows "driver_steps env ctx w w'"
proof -
  obtain b w1 where p: "is_cancel_requested env w = (b, w1)" by fastforce
  show ?thesis
  proof (cases b)
    case True
    with assms p poll_cancel_steps [OF p, of ctx cx eid] show ?thesis by (simp add: model_call_run_def)
  next
    case False
    define w2 where "w2 = push (EvModelCallStarted call_id) (set_phase (RunningModelCall Starting) w1)"
    define w3 where "w3 = log_action (ActModelStarted (model_request cx turn call_id i ms ta (w_shared w2)))
        (tick env w2)"
    have s3: "driver_steps env ctx w w3"
      unfolding w2_def w3_def
      by (rule step_first [OF step_poll [OF p] step_first [OF step_phase step_first [OF step_publish
            step_first [OF step_tick one_step(6)]]]]) simp_all
    then have s4: "driver_steps env ctx w (set_phase (RunningModelCall WaitingForFirstOutput) w3)"
      by (rule step_last [OF _ step_phase]) simp
    show ?thesis
      using assms p False s3 steps_trans [OF s4 stream_loop_steps]
      by (auto simp: model_call_run_def Let_def w2_def w3_def split: sum.split_asm)
  qed
qed

lemma recovery_loop_steps:
  "recovery_loop env ctx cx turn eid call_id i ms ta att w = (r, w') \<Longrightarrow> driver_steps env ctx w w'"
proof (induction env ctx cx turn eid call_id i ms ta att w rule: recovery_loop.induct)
  case (1 env ctx cx turn eid call_id i ms ta att w)
  obtain oc w1 where run: "model_call_run env ctx cx turn eid call_id i ms ta w = (oc, w1)" by fastforce
  note s1 = model_call_run_steps [OF run]
  show ?case
  proof (cases "\<exists>f. oc = McFailed f \<and> \<not> attempts_exhausted (cfg_recovery (ec_config ctx)) f att")
    case False
    with 1(2) run s1 steps_trans [OF s1 turn_fail_steps] show ?thesis
      by (subst (asm) recovery_loop.simps) (auto split: model_call_outcome.split_asm if_split_asm)
  next
    case True
    then obtain f where f: "oc = McFailed f" "\<not> attempts_exhausted (cfg_recovery (ec_config ctx)) f att"
      by blast
    obtain b w2 where p: "is_cancel_requested env w1 = (b, w2)" by fastforce
    show ?thesis
    proof (cases b)
      case True
      with 1(2) run f p steps_trans [OF s1 poll_cancel_steps [OF p, of ctx cx eid]] show ?thesis
        by (subst (asm) recovery_loop.simps) simp
    next
      case nb: False
      then have b: "b = False" by simp
      define w3 where "w3 = push (EvModelRetryScheduled call_id (att + 1)
          (rc_max_retries (cfg_recovery (ec_config ctx)))
          (backoff_delay (cfg_recovery (ec_config ctx)) (att + 1) (env_jitter env (w_tick w2)))
          (att_failure f)) w2"
      have s3: "driver_steps env ctx w w3"
        unfolding w3_def
        by (rule steps_trans [OF s1 step_first [OF step_poll [OF p] one_step(3)]]) simp
      obtain go w4 where wait: "backoff_or_cancel env w3 = (go, w4)" by fastforce
      then obtain c where p4: "is_cancel_requested env w3 = (c, w4)"
        by (auto simp: backoff_or_cancel_def split: prod.split_asm)
      have step: "recovery_loop env ctx cx turn eid call_id i ms ta att w =
          (if go then recovery_loop env ctx cx turn eid call_id i ms ta (att + 1) w4
           else (None, observe_and_cancel ctx cx eid ([], []) w4))"
        using run f p b wait by (subst recovery_loop.simps) (simp add: Let_def w3_def)
      show ?thesis
      proof (cases go)
        case True
        then have "recovery_loop env ctx cx turn eid call_id i ms ta (att + 1) w4 = (r, w')"
          using 1(2) step by simp
        then have "driver_steps env ctx w4 w'"
          using 1(1) [OF run [symmetric] f p [symmetric] b refl refl w3_def] wait True by simp
        then show ?thesis by (rule steps_trans [OF step_last [OF s3 step_poll [OF p4]]])
      next
        case False
        with 1(2) step steps_trans [OF s3 poll_cancel_steps [OF p4, of ctx cx eid]] show ?thesis by auto
      qed
    qed
  qed
qed

end
