(* ===== verification/Engine_Turn_Start.thy ===== *)
theory Engine_Turn_Start
  imports Engine_Turn_Drive
begin

text \<open>
  The way to a started turn over an available store: sealing, compaction and barrier A. Whatever
  goes wrong before barrier A leaves the session without a trace of the operation, and is reported
  so.
\<close>

section \<open>Sessions without the operation\<close>

definition absent :: "rstring \<Rightarrow> lifecycle \<Rightarrow> bool" where
  "absent oi lc \<longleftrightarrow> hm_get (lc_operations lc) oi = None"

text \<open>An operation that ended before its turn was durable.\<close>

definition never_started ::
    "('s \<Rightarrow> bool) \<Rightarrow> ('s \<Rightarrow> rstring \<Rightarrow> session_projection) \<Rightarrow> rstring \<Rightarrow> rstring
      \<Rightarrow> ('s, 'f, 't) world \<Rightarrow> bool" where
  "never_started sinv contents oi sid w \<longleftrightarrow>
     sinv (w_store w) \<and> \<not> w_panicked w
     \<and> absent oi (sp_lifecycle (contents (w_store w) sid))
     \<and> sh_settlement_revision (w_shared w) = Some Unchanged
     \<and> (sh_phase (w_shared w) = Settled StFailed \<and> sh_exit (w_shared w) = Some ExitFailedUnconfirmed
        \<or> sh_phase (w_shared w) = Settled StCancelled \<and> sh_exit (w_shared w) = Some ExitCancelledConfirmed)"

lemma accept_absent:
  "lifecycle_accept k lc = Ok lc' \<Longrightarrow> absent oi lc \<Longrightarrow> k \<noteq> OperationStarted oi \<Longrightarrow> absent oi lc'"
proof (cases "edited_turn k")
  case (Some tj)
  assume "lifecycle_accept k lc = Ok lc'" "absent oi lc"
  with Some show ?thesis
    by (auto simp: absent_def put_turn_def elim!: accept_edit_basic)
next
  case None
  assume "lifecycle_accept k lc = Ok lc'" "absent oi lc" "k \<noteq> OperationStarted oi"
  with None show ?thesis
    by (cases k) (auto simp: absent_def lifecycle_accept_def dest!: accept_OkDs)
qed

lemma fold_absent:
  "rfold lifecycle_accept ks lc = Ok lc' \<Longrightarrow> absent oi lc \<Longrightarrow> OperationStarted oi \<notin> set ks \<Longrightarrow> absent oi lc'"
  by (rule rfold_invariant [of lifecycle_accept ks lc lc' "absent oi"]) (auto intro: accept_absent)

lemma seal_entries_shape:
  obtains marks where "seal_entries ot = marks @ [TurnTerminated (ot_turn_id ot) (TurnCancelled ReasonAbandoned),
      OperationSettled (ot_operation_id ot) (OpCancelled ReasonAbandoned) None None]"
    "list_all keeps_open marks" "OperationStarted oi \<notin> set marks"
proof -
  let ?marks = "case ot_unfilled_batch ot of None \<Rightarrow> []
      | Some batch \<Rightarrow> map (\<lambda>call_id. ToolResult (ot_turn_id ot) (ub_tool_batch_id batch)
          (session_result_interrupted call_id)) (ub_unfilled_call_ids batch)"
  show thesis
    by (rule that [of ?marks])
      (auto simp: seal_entries_def keeps_open_def list_all_iff split: option.split)
qed

lemma start_accepted:
  assumes "rfold lifecycle_accept [OperationStarted oi, TurnStarted oi ti, UserMessage ti parts] lc = Ok lc'"
  shows "live_turn lc' oi ti True []" and "lc_open_turn_ids lc' = lc_open_turn_ids lc @ [ti]"
proof -
  from assms obtain lc1 lc2 where r: "accept_operation_started oi lc = Ok lc1"
    "accept_turn_started oi ti lc1 = Ok lc2" "accept_user_message ti parts lc2 = Ok lc'"
    by (auto simp: rres_simps lifecycle_accept_def)
  note s1 = accept_operation_started_OkD [OF r(1)] and s2 = accept_turn_started_OkD [OF r(2)]
  have "hm_get (lc_operations lc) oi = None" "hm_get (lc_turns lc) ti = None"
    using s1 s2 by auto
  moreover have "parts \<noteq> []" "list_all user_part_well_formed parts"
    using r(3) by (auto simp: accept_user_message_def rres_simps list_ex_iff list_all_iff split: if_split_asm)
  ultimately show "live_turn lc' oi ti True []" "lc_open_turn_ids lc' = lc_open_turn_ids lc @ [ti]"
    using accept_start [of lc oi ti parts] assms by (metis rres.inject(1))+
qed

section \<open>What an operation without a turn reports\<close>

lemma fail_unconfirmed_fields:
  assumes "\<not> is_settled_phase (sh_phase sh)"
  shows "sh_settlement_revision (fail_unconfirmed f sh) = Some Unchanged"
    "sh_phase (fail_unconfirmed f sh) = Settled StFailed"
    "sh_exit (fail_unconfirmed f sh) = Some ExitFailedUnconfirmed"
  unfolding fail_unconfirmed_def publisher_fail_def settle_unsettled [OF assms]
  by (simp_all add: publish_settled_def shared_publish_def is_transient_agent_def Let_def
      outcome_status_def outcome_exit_def)

lemma cancel_zero_trace_fields:
  assumes "\<not> is_settled_phase (sh_phase sh)"
  shows "sh_settlement_revision (cancel_zero_trace sh) = Some Unchanged"
    "sh_phase (cancel_zero_trace sh) = Settled StCancelled"
    "sh_exit (cancel_zero_trace sh) = Some ExitCancelledConfirmed"
  unfolding cancel_zero_trace_def settle_unsettled [OF assms]
  by (simp_all add: publish_settled_def shared_publish_def is_transient_agent_def Let_def
      outcome_status_def outcome_exit_def)

lemma quiet_turn_started: "quiet w (on_shared turn_started w)"
  by (simp add: quiet_def turn_started_def settled_world_def on_shared_def)

lemma quiet_prior_turn_sealed: "quiet w (on_shared (prior_turn_sealed x) w)"
  by (simp add: quiet_def prior_turn_sealed_def settled_world_def on_shared_def)

section \<open>The summary call leaves the store alone\<close>

definition quiet_poll :: "(('s, 'f, 't) world \<Rightarrow> bool \<times> ('s, 'f, 't) world) \<Rightarrow> bool" where
  "quiet_poll poll \<longleftrightarrow> (\<forall>w. quiet w (snd (poll w)))"

lemma quiet_poll_cancel: "quiet_poll (is_cancel_requested env)"
  unfolding quiet_poll_def
proof
  fix w :: "('a, 'b, 'c) world"
  show "quiet w (snd (is_cancel_requested env w))"
    by (rule quiet_is_cancel_requested [of env w "fst (is_cancel_requested env w)"]) simp
qed

lemma summary_loop_quiet:
  assumes "quiet_poll poll"
  shows "summary_loop poll items blocks started w = (r, w') \<Longrightarrow> quiet w w'"
proof (induction items arbitrary: blocks started w)
  case Nil
  obtain b w1 where "poll w = (b, w1)" by fastforce
  moreover from this assms have "quiet w w1" by (metis quiet_poll_def snd_conv)
  ultimately show ?case using Nil by (auto split: bool.split_asm option.split_asm)
next
  case (Cons item items)
  obtain b w1 where p: "poll w = (b, w1)" by fastforce
  with assms have q: "quiet w w1" by (metis quiet_poll_def snd_conv)
  show ?case
  proof (cases "\<exists>bl st. summary_loop poll items bl st w1 = (r, w')")
    case True
    then show ?thesis using Cons.IH quiet_trans [OF q] by blast
  next
    case False
    with Cons.prems p q show ?thesis
      by (simp split: bool.split_asm stream_item.split_asm model_event.split_asm if_split_asm)
  qed
qed

lemma generate_summary_quiet:
  assumes "quiet_poll poll" and "generate_summary env ctx poll sid v w = (r, w')"
  shows "quiet w w'"
proof -
  obtain b w1 where p: "poll w = (b, w1)" by fastforce
  with assms(1) have q1: "quiet w w1" by (metis quiet_poll_def snd_conv)
  have q2: "quiet w (log_action a (tick env w1))" for a
    by (rule quiet_trans [OF q1 quiet_trans [OF quiet_tick quiet_log]])
  have q3: "summary_loop poll items None False (log_action a (tick env w1)) = (r, w') \<Longrightarrow> quiet w w'"
    for items a
    using quiet_trans [OF q2] summary_loop_quiet [OF assms(1)] by blast
  show ?thesis
    using assms(2) p q1 q2 q3
    by (auto simp: generate_summary_def Let_def split: bool.split_asm sum.split_asm)
qed

lemma summary_not_panic:
  "generate_summary env ctx poll sid v w = (r, w') \<Longrightarrow> r \<noteq> Panic"
proof -
  have "summary_loop poll items bl st w1 = (r, w') \<Longrightarrow> r \<noteq> Panic" for items bl st w1
    by (induction items arbitrary: bl st w1)
      (auto simp: summary_of_blocks_def Let_def split: prod.split_asm bool.split_asm option.split_asm
        stream_item.split_asm model_event.split_asm if_split_asm)
  then show "generate_summary env ctx poll sid v w = (r, w') \<Longrightarrow> r \<noteq> Panic"
    by (auto simp: generate_summary_def Let_def split: prod.split_asm bool.split_asm sum.split_asm)
qed

section \<open>Before the turn\<close>

context available_session_store
begin

text \<open>An operation that has not settled, with no trace in its session.\<close>

definition idle where
  "idle oi ti sid w \<longleftrightarrow>
     engine_live store_inv oi ti w \<and> absent oi (sp_lifecycle (contents (w_store w) sid))"

abbreviation traceless where
  "traceless \<equiv> never_started store_inv contents"

definition no_open_turns where
  "no_open_turns sid w \<longleftrightarrow> lc_open_turn_ids (sp_lifecycle (contents (w_store w) sid)) = []"

lemma idle_quiet: "idle oi ti sid w \<Longrightarrow> quiet w w' \<Longrightarrow> idle oi ti sid w'"
  using engine_live_quiet [of store_inv oi ti w w'] by (auto simp: idle_def quiet_def)

lemma no_open_quiet: "no_open_turns sid w \<Longrightarrow> quiet w w' \<Longrightarrow> no_open_turns sid w'"
  by (simp add: no_open_turns_def quiet_def)

lemma idle_fail: "idle oi ti sid w \<Longrightarrow> traceless oi sid (on_shared (fail_unconfirmed f) w)"
  by (simp add: idle_def never_started_def engine_live_def settled_world_def fail_unconfirmed_fields)

lemma idle_zero_trace: "idle oi ti sid w \<Longrightarrow> traceless oi sid (zero_trace_cancel w)"
  using idle_quiet [OF _ quiet_cancellation_observed [of w]]
  by (auto simp: zero_trace_cancel_def idle_def never_started_def engine_live_def settled_world_def
      cancel_zero_trace_fields)

lemma idle_commit:
  assumes "uses_store ctx view commit" and "idle oi ti sid w"
    and "OperationStarted oi \<notin> set ks"
  obtains (committed) c w' where "do_commit ctx (transaction_linear sid r ks) w = (Ok c, w')"
      "idle oi ti sid w'" "w_shared w' = w_shared w"
      "rfold lifecycle_accept ks (sp_lifecycle (contents (w_store w) sid))
        = Ok (sp_lifecycle (contents (w_store w') sid))"
    | (refused) e w' where "do_commit ctx (transaction_linear sid r ks) w = (Err e, w')"
      "idle oi ti sid w'" "w_shared w' = w_shared w" "contents (w_store w') = contents (w_store w)"
proof -
  have live: "engine_live store_inv oi ti w" using assms(2) by (simp add: idle_def)
  let ?tx = "transaction_linear sid r ks"
  from assms(1) live show thesis
  proof (cases rule: do_commit_cases [where tx = ?tx])
    case (committed c a w')
    have fold: "rfold lifecycle_accept ks (sp_lifecycle (contents (w_store w) sid))
        = Ok (sp_lifecycle (contents (w_store w') sid))"
      using apply_lifecycle [of "contents (w_store w) sid" sid r ks a] committed(4,5) by simp
    then have "idle oi ti sid w'"
      using assms(2,3) committed(2) fold_absent by (auto simp: idle_def)
    with fold committed(1,3) show thesis by (intro that(1)) auto
  next
    case (refused e w')
    then show thesis using assms(2) by (intro that(2) [of e w']) (auto simp: idle_def)
  qed
qed

lemma seal_loop_ends:
  assumes "uses_store ctx view commit"
  shows "idle oi ti sid w \<Longrightarrow> seal_loop ctx sid r sealed ots w = (res, w') \<Longrightarrow>
    idle oi ti sid w' \<and> res \<noteq> Panic
    \<and> (\<forall>x. res = Ok x \<longrightarrow> lc_open_turn_ids (sp_lifecycle (contents (w_store w') sid)) =
        [j \<leftarrow> lc_open_turn_ids (sp_lifecycle (contents (w_store w) sid)). j \<notin> ot_turn_id ` set ots])"
proof (induction ots arbitrary: r sealed w)
  case (Cons ot ots)
  obtain marks where marks: "seal_entries ot = marks @ [TurnTerminated (ot_turn_id ot) (TurnCancelled ReasonAbandoned),
      OperationSettled (ot_operation_id ot) (OpCancelled ReasonAbandoned) None None]"
    "list_all keeps_open marks" "OperationStarted oi \<notin> set marks"
    by (rule seal_entries_shape)
  then have "OperationStarted oi \<notin> set (seal_entries ot)" by simp
  with assms Cons.prems(1) show ?case
  proof (cases rule: idle_commit [where r = r])
    case (committed c w1)
    have "lc_open_turn_ids (sp_lifecycle (contents (w_store w1) sid)) =
        without_turn (ot_turn_id ot) (sp_lifecycle (contents (w_store w) sid))"
      using fold_settled(2) [OF _ marks(2)] committed(4) by (simp add: marks(1))
    with committed Cons.IH [OF committed(2)] Cons.prems(2) show ?thesis
      by (auto simp: without_turn_def intro!: filter_cong)
  next
    case (refused e w1)
    with Cons.prems(2) show ?thesis by auto
  qed
qed auto

lemma do_view_ok:
  assumes "uses_store ctx view commit" and "engine_live store_inv oi ti w"
  obtains v where "do_view ctx sid w = (Ok v, w)" "context_view (contents (w_store w) sid) sid = Ok v"
proof -
  have si: "store_inv (w_store w)" "\<not> w_panicked w" using assms(2) by (simp_all add: engine_live_def)
  obtain v where "context_view (contents (w_store w) sid) sid = Ok v"
    using context_view_Ok [OF contents_inv [OF si(1)]] by metis
  with that si view_available [OF si(1), of sid] assms(1) show thesis
    by (simp add: do_view_def uses_store_def Let_def)
qed

lemma view_open_ids:
  assumes "store_inv s" and "context_view (contents s sid) sid = Ok v"
  shows "map ot_turn_id (view_open_turns v) = lc_open_turn_ids (sp_lifecycle (contents s sid))"
proof -
  have "lifecycle_inv (sp_lifecycle (contents s sid))"
    using contents_inv [OF assms(1)] by (simp add: projection_inv_def)
  with assms(2) show ?thesis
    using open_turns_Ok by (fastforce simp: context_view_def rres_simps)
qed

lemma seal_ends:
  assumes store: "uses_store ctx view commit" and idle: "idle oi ti sid w"
    and v: "context_view (contents (w_store w) sid) sid = Ok v"
    and run: "seal_stale_turns ctx sid v w = (res, w')"
  shows "case res of None \<Rightarrow> traceless oi sid w' | Some _ \<Rightarrow> idle oi ti sid w' \<and> no_open_turns sid w'"
proof -
  have "store_inv (w_store w)" using idle by (simp add: idle_def engine_live_def)
  note ids = view_open_ids [OF this v]
  show ?thesis
  proof (cases "view_open_turns v = []")
    case True
    with run idle ids show ?thesis
      by (auto simp: seal_stale_turns_def seal_stale_turns_with_def no_open_turns_def)
  next
    case False
    obtain r w1 where loop: "seal_loop ctx sid (view_revision v) [] (view_open_turns v) w = (r, w1)"
      by fastforce
    note ends = seal_loop_ends [OF store idle loop]
    then have idle1: "idle oi ti sid w1" by blast
    show ?thesis
    proof (cases r)
      case (Ok sealed)
      have "lc_open_turn_ids (sp_lifecycle (contents (w_store w1) sid)) = []"
        using ends Ok unfolding ids [symmetric] by (simp add: filter_empty_conv)
      then have none: "no_open_turns sid w1" by (simp add: no_open_turns_def)
      have "engine_live store_inv oi ti w1" using idle1 by (simp add: idle_def)
      then obtain v2 where v2: "do_view ctx sid w1 = (Ok v2, w1)"
        by (rule do_view_ok [OF store])
      have q: "quiet w1 (fold (\<lambda>turn_id. on_shared (prior_turn_sealed turn_id)) sealed w1)"
        by (rule quiet_fold) (rule quiet_prior_turn_sealed)
      with run loop Ok v2 False idle_quiet [OF idle1 q] no_open_quiet [OF none q] show ?thesis
        by (auto simp: seal_stale_turns_def seal_stale_turns_with_def)
    next
      case (Err f)
      with ends have "res = None \<and> (\<exists>fl. w' = on_shared (fail_unconfirmed fl) w1)"
        using run loop False
        by (cases f) (auto simp: seal_stale_turns_def seal_stale_turns_with_def)
      with idle_fail [OF idle1] show ?thesis by auto
    next
      case Panic
      with ends show ?thesis by simp
    qed
  qed
qed

lemma idle_poll:
  "idle oi ti sid w \<Longrightarrow> is_cancel_requested env w = (b, w') \<Longrightarrow> idle oi ti sid w'"
  by (rule idle_quiet [OF _ quiet_is_cancel_requested])

text \<open>A state ready for barrier A.\<close>

definition at_barrier where
  "at_barrier oi ti sid w \<longleftrightarrow> idle oi ti sid w \<and> no_open_turns sid w"

lemma at_barrier_quiet: "at_barrier oi ti sid w \<Longrightarrow> quiet w w' \<Longrightarrow> at_barrier oi ti sid w'"
  using idle_quiet no_open_quiet by (auto simp: at_barrier_def)

lemma compaction_commit:
  assumes "uses_store ctx view commit" and "at_barrier oi ti sid w"
    and "do_commit ctx (transaction_linear sid r [Compaction summary covers]) w = (res, w')"
  shows "at_barrier oi ti sid w' \<and> res \<noteq> Panic"
proof -
  have idle: "idle oi ti sid w" using assms(2) by (simp add: at_barrier_def)
  have "OperationStarted oi \<notin> set [Compaction summary covers]" by simp
  with assms(1) idle show ?thesis
  proof (cases rule: idle_commit [where r = r])
    case (committed c w1)
    then show ?thesis using assms(2,3)
      by (auto simp: at_barrier_def no_open_turns_def lifecycle_accept_def)
  next
    case (refused e w1)
    then show ?thesis using assms(2,3) by (auto simp: at_barrier_def no_open_turns_def)
  qed
qed

lemma compaction_ends:
  assumes store: "uses_store ctx view commit" and ready: "at_barrier oi ti sid w"
    and run: "maybe_auto_compact env ctx sid v w = (res, w')"
  shows "case res of None \<Rightarrow> traceless oi sid w' | Some _ \<Rightarrow> at_barrier oi ti sid w'"
proof (cases "should_auto_compact ctx sid v w")
  case True
  show ?thesis
  proof (cases "select_boundary v (cc_keep_recent_turns (cfg_compaction (ec_config ctx)))")
    case (Some covers)
    let ?w0 = "push EvContextCompactionStarted w"
    obtain sr w1 where sum: "generate_summary env ctx (is_cancel_requested env) sid v ?w0 = (sr, w1)"
      by fastforce
    have b1: "at_barrier oi ti sid w1"
      by (rule at_barrier_quiet [OF ready quiet_trans [OF quiet_push
            generate_summary_quiet [OF quiet_poll_cancel sum]]])
    then have zero1: "traceless oi sid (zero_trace_cancel w1)"
      using idle_zero_trace by (auto simp: at_barrier_def)
    show ?thesis
    proof (cases sr)
      case (Ok summary)
      obtain c2 w2 where p2: "is_cancel_requested env w1 = (c2, w2)" by fastforce
      have b2: "at_barrier oi ti sid w2"
        by (rule at_barrier_quiet [OF b1 quiet_is_cancel_requested [OF p2]])
      obtain cr w3 where commit3: "do_commit ctx (transaction_linear sid (view_revision v)
          [Compaction summary covers]) w2 = (cr, w3)" by fastforce
      have b3: "at_barrier oi ti sid w3" and np: "cr \<noteq> Panic"
        using compaction_commit [OF store b2 commit3] by auto
      obtain c4 w4 where p4: "is_cancel_requested env (push (EvContextCompactionCompleted covers) w3) = (c4, w4)"
        by fastforce
      have b4: "at_barrier oi ti sid w4"
        by (rule at_barrier_quiet [OF b3 quiet_trans [OF quiet_push quiet_is_cancel_requested [OF p4]]])
      then have "engine_live store_inv oi ti w4" by (simp add: at_barrier_def idle_def)
      then obtain v5 where v5: "do_view ctx sid w4 = (Ok v5, w4)" by (rule do_view_ok [OF store])
      have "traceless oi sid (zero_trace_cancel w2)" "traceless oi sid (zero_trace_cancel w4)"
        using b2 b4 idle_zero_trace by (auto simp: at_barrier_def)
      with run True Some sum Ok p2 commit3 np p4 v5 b4 at_barrier_quiet [OF b3 quiet_push] show ?thesis
        by (auto simp: maybe_auto_compact_def split: rres.split_asm bool.split_asm)
    next
      case (Err f)
      with run True Some sum zero1 at_barrier_quiet [OF b1 quiet_push] show ?thesis
        by (cases f) (auto simp: maybe_auto_compact_def)
    next
      case Panic
      with summary_not_panic [OF sum] show ?thesis by simp
    qed
  qed (use run True ready in \<open>auto simp: maybe_auto_compact_def\<close>)
qed (use run ready in \<open>auto simp: maybe_auto_compact_def\<close>)

section \<open>From barrier A to the end\<close>

lemma start_turn_ends:
  assumes store: "uses_store ctx view commit" and ready: "at_barrier oi ti sid w"
    and run: "start_turn env ctx sid user v w = Some w'"
  shows "w_blocked w' \<or> truthful oi sid w' \<or> traceless oi sid w'"
proof -
  let ?turn = "turn_snapshot_of ctx sid v" and ?w = "on_shared turn_started w"
  have b0: "at_barrier oi ti sid ?w"
    by (rule at_barrier_quiet [OF ready quiet_turn_started])
  then have idle0: "idle oi ti sid ?w" by (simp add: at_barrier_def)
  have ids: "sh_operation_id (w_shared ?w) = oi" "sh_turn_id (w_shared ?w) = ti"
    using idle0 by (simp_all add: idle_def engine_live_def)
  show ?thesis
  proof (cases "user_message_from_parts (kernel_user_parts (rum_parts user)) :: (user_message, invalid_user_message) rres")
    case (Ok ku)
    let ?started = "kernel_begin ti ku (ts_max_tool_rounds ?turn)"
    have tr: "transition initial_state (BeginTurn (sh_turn_id (w_shared ?w)) ku (ts_max_tool_rounds ?turn))
        = Ok ?started" using ids by (simp add: transition_def initial_state_def)
    obtain parts where entries: "start_entries (observations ?started) oi ti =
        Ok [OperationStarted oi, TurnStarted oi ti, UserMessage ti parts]"
      by (simp add: start_entries_def begun_observation_def)
    obtain c w1 where p: "is_cancel_requested env ?w = (c, w1)" by fastforce
    have b1: "at_barrier oi ti sid w1" by (rule at_barrier_quiet [OF b0 quiet_is_cancel_requested [OF p]])
    then have live1: "engine_live store_inv oi ti w1" by (simp add: at_barrier_def idle_def)
    show ?thesis
    proof (cases c)
      case True
      with run Ok tr entries ids p b1 idle_zero_trace show ?thesis
        by (auto simp: start_turn_def Let_def at_barrier_def)
    next
      case False
      let ?ks = "[OperationStarted oi, TurnStarted oi ti, UserMessage ti parts]"
      let ?tx = "transaction_linear sid (view_revision v) ?ks"
      from store live1 show ?thesis
      proof (cases rule: do_commit_cases [where tx = ?tx])
        case (committed cm a w2)
        have "rfold lifecycle_accept ?ks (sp_lifecycle (contents (w_store w1) sid))
            = Ok (sp_lifecycle (contents (w_store w2) sid))"
          using apply_lifecycle [of "contents (w_store w1) sid" sid "view_revision v" ?ks a] committed(4,5)
          by simp
        note started = start_accepted [OF this]
        let ?cx = "\<lparr>cx_session_id = sid, cx_revision = commit_revision cm,
            cx_current_leaf = commit_current_leaf cm, cx_state = next_state ?started\<rparr>"
        have r: "ready oi ti ?cx w2"
          using committed(2,6) started b1
          by (simp add: engine_ready_def at_barrier_def no_open_turns_def rounds_done_def round_batch_ids_def)
        have st: "cx_state ?cx = ExpectingModelCompletion (snd (model_call_ids ti 1))
            (fst (model_call_ids ti 1)) 0 (ts_max_tool_rounds ?turn) ti [TmUser ku]" by simp
        have "drive_loop env ctx ?turn (turn_fuel ctx) ?cx 0 (RequestModel (snd (model_call_ids ti 1))
            (fst (model_call_ids ti 1)) [TmUser ku] (0 < ts_max_tool_rounds ?turn)) w2 = Some w'"
          using run Ok tr entries ids p False committed(1) by (simp add: start_turn_def Let_def)
        from drive_loop_ends [OF store r st refl this] show ?thesis by (simp del: disj_not1) blast
      next
        case (refused e w2)
        then have "idle oi ti sid w2" using b1 by (simp add: at_barrier_def idle_def)
        note fails = idle_fail [OF this]
        from run Ok tr entries ids p False refused(1) fails show ?thesis
          by (auto simp: start_turn_def Let_def)
      qed
    qed
  next
    case (Err e)
    with run idle_fail [OF idle0] show ?thesis by (auto simp: start_turn_def Let_def)
  next
    case Panic
    then show ?thesis by (simp add: user_message_from_parts_def split: if_split_asm)
  qed
qed

theorem drive_turn_ends:
  assumes store: "uses_store ctx view commit" and idle: "idle oi ti sid w"
    and run: "drive_turn env ctx sid user w = Some w'"
  shows "w_blocked w' \<or> truthful oi sid w' \<or> traceless oi sid w'"
proof -
  have "engine_live store_inv oi ti w" using idle by (simp add: idle_def)
  then obtain v where v: "do_view ctx sid w = (Ok v, w)" "context_view (contents (w_store w) sid) sid = Ok v"
    by (rule do_view_ok [OF store])
  obtain sr w1 where seal: "seal_stale_turns ctx sid v w = (sr, w1)" by fastforce
  note s = seal_ends [OF store idle v(2) seal]
  show ?thesis
  proof (cases sr)
    case None
    with run v seal s show ?thesis by (auto simp: drive_turn_def)
  next
    case (Some v1)
    then have b1: "at_barrier oi ti sid w1" using s by (simp add: at_barrier_def)
    obtain cr w2 where comp: "maybe_auto_compact env ctx sid v1 w1 = (cr, w2)" by fastforce
    note cmp = compaction_ends [OF store b1 comp]
    show ?thesis
    proof (cases cr)
      case None
      with run v seal Some comp cmp show ?thesis by (auto simp: drive_turn_def)
    next
      case (Some v2)
      with cmp have "at_barrier oi ti sid w2" by simp
      moreover have "start_turn env ctx sid user v2 w2 = Some w'"
        using run v seal \<open>sr = _\<close> comp Some by (simp add: drive_turn_def)
      ultimately show ?thesis by (rule start_turn_ends [OF store])
    qed
  qed
qed

end

end
