(* ===== verification/Engine_Steps_Drive.thy ===== *)
theory Engine_Steps_Drive
  imports Engine_Steps Engine_Turn_Start
begin

text \<open>
  Tool batches, rounds, sealing, compaction and whole turns as sequences of driver steps.
\<close>

section \<open>Tool batches\<close>

definition calls_durable :: "rstring \<Rightarrow> kernel_tool_call list \<Rightarrow> ('s, 'f, 't) world \<Rightarrow> bool" where
  "calls_durable bid calls w \<longleftrightarrow> (\<forall>call \<in> set calls. call_durable bid (kcall_id call) (w_trace w))"

lemma calls_durable_steps:
  "calls_durable bid calls w \<Longrightarrow> driver_steps env ctx w w' \<Longrightarrow> calls_durable bid calls w'"
  by (auto simp: calls_durable_def elim: call_durable_steps)

lemma set_executing_steps: "driver_steps env ctx w (set_executing a b w)"
  unfolding set_executing_def by (rule one_step) simp

lemma publish_started_steps: "driver_steps env ctx w (publish_started bid call i w)"
  unfolding publish_started_def by (rule one_step) simp

lemma invoke_steps:
  "calls_durable bid calls w \<Longrightarrow> call \<in> set calls \<Longrightarrow>
    driver_steps env ctx w (log_action (ActInvoked bid (kcall_id call)) w)"
  by (rule one_step) (simp add: calls_durable_def)

lemma completed_events_steps:
  "driver_steps env ctx w (fold (\<lambda>(index, call, rich). push (completed_event bid index call rich)) xs w)"
proof (induction xs arbitrary: w)
  case (Cons x xs)
  obtain i call rich where "x = (i, call, rich)" by (metis prod_cases3)
  then show ?case
    using step_first [OF step_publish [of "completed_event bid i call rich"] Cons.IH]
    by (simp add: completed_event_def)
qed simp

lemma poll_cancel_batch_steps:
  "is_cancel_requested env w = (b, w1) \<Longrightarrow>
    driver_steps env ctx w (observe_and_cancel ctx cx eid (cancellation_batch ti bid calls slots) w1)"
  by (rule step_first [OF step_poll observe_and_cancel_steps]) simp_all

lemma commit_results_steps:
  assumes "commit_results env ctx cx eid bid rs w = (r, w')"
  shows "driver_steps env ctx w w'"
proof -
  obtain b w1 where p: "is_cancel_requested env w = (b, w1)" by fastforce
  show ?thesis
  proof (cases b)
    case True
    with assms p poll_cancel_batch_steps [OF p] show ?thesis by (auto simp: commit_results_def)
  next
    case False
    let ?w2 = "set_phase (RunningToolBatch CommittingResults) w1"
    have s2: "driver_steps env ctx w ?w2"
      by (rule step_first [OF step_poll [OF p] one_step(4)]) simp
    obtain cr w3 where c: "do_commit ctx (transaction_linear (cx_session_id cx) (cx_revision cx)
        (map (result_entry_of (sh_turn_id (w_shared ?w2)) bid) rs)) ?w2 = (cr, w3)" by fastforce
    have s3: "driver_steps env ctx w w3" by (rule step_last [OF s2 step_commit [OF c]])
    show ?thesis
      using assms p False c s3 steps_trans [OF s3 completed_events_steps] steps_trans [OF s3 turn_fail_steps]
      by (auto simp: commit_results_def Let_def split: rres.split_asm)
  qed
qed

lemma await_invoke_steps:
  assumes "await_invoke env bid call w = (r, w')" and "calls_durable bid calls w" "call \<in> set calls"
  shows "driver_steps env ctx w w'"
proof -
  let ?w0 = "log_action (ActInvoked bid (kcall_id call)) w"
  have s0: "driver_steps env ctx w ?w0" using assms(2,3) by (rule invoke_steps)
  obtain b w1 where p: "is_cancel_requested env ?w0 = (b, w1)" by fastforce
  show ?thesis
    using assms(1) p step_last [OF s0 step_tick] step_last [OF s0 step_poll [OF p]]
      step_last [OF step_last [OF s0 step_poll [OF p]] step_block]
    by (auto simp: await_invoke_def Let_def split: option.split_asm sum.split_asm bool.split_asm)
qed

lemma serial_loop_steps:
  "serial_loop env ctx cx eid bid calls rest index slots w = (r, w') \<Longrightarrow>
    calls_durable bid calls w \<Longrightarrow> set rest \<subseteq> set calls \<Longrightarrow> driver_steps env ctx w w'"
proof (induction rest arbitrary: index slots w)
  case Nil
  then show ?case by (simp add: commit_results_steps)
next
  case (Cons call rest)
  obtain c w1 where p: "is_cancel_requested env w = (c, w1)" by fastforce
  let ?w = "publish_started bid call index (set_executing 1 index w1)"
  have s1: "driver_steps env ctx w ?w"
    by (rule step_first [OF step_poll [OF p] steps_trans [OF set_executing_steps publish_started_steps]])
  obtain wt w2 where aw: "await_invoke env bid call ?w = (wt, w2)" by fastforce
  have s2: "driver_steps env ctx w w2"
    using steps_trans [OF s1 await_invoke_steps [OF aw calls_durable_steps [OF Cons.prems(2) s1]]]
      Cons.prems(3) by simp
  obtain c2 w3 where p2: "is_cancel_requested env w2 = (c2, w3)" by fastforce
  note s3 = step_last [OF s2 step_poll [OF p2]]
  note run = Cons.prems(1) [simplified serial_loop.simps Let_def p aw p2 prod.case]
  show ?case
  proof (cases "\<not> c \<and> (\<exists>result. wt = WaitFinished (EndDone result))")
    case True
    then obtain result where "serial_loop env ctx cx eid bid calls rest (Suc index)
        (slots[index := SlotDone result]) w2 = (r, w')" using run by auto
    then have "driver_steps env ctx w2 w'"
      using Cons.IH calls_durable_steps [OF Cons.prems(2) s2] Cons.prems(3) by simp
    with s2 show ?thesis by (rule steps_trans)
  next
    case False
    then show ?thesis
      using run poll_cancel_batch_steps [OF p, of ctx cx eid] s2 steps_trans [OF s3 turn_fail_steps]
        steps_trans [OF s2 poll_cancel_batch_steps [OF p2, of ctx cx eid]]
      by (auto split: bool.split_asm invoke_wait.split_asm tool_invoke_end.split_asm)
  qed
qed

lemma start_calls_steps:
  "start_calls env bid calls limit ps w = (ps', w') \<Longrightarrow> calls_durable bid calls w \<Longrightarrow>
    driver_steps env ctx w w'"
proof (induction env bid calls limit ps w rule: start_calls.induct)
  case (1 env bid calls limit ps w)
  show ?case
  proof (cases "\<not> ps_stop_starting ps \<and> length (ps_in_flight ps) < limit \<and> ps_next ps < length calls")
    case True
    obtain c w1 where p: "is_cancel_requested env w = (c, w1)" by fastforce
    show ?thesis
    proof (cases c)
      case c: True
      with 1(2) p True one_step(2) [OF p] show ?thesis by (auto simp: start_calls.simps [of env])
    next
      case False
      then have c: "c = False" by simp
      let ?i = "ps_next ps"
      let ?w2 = "publish_started bid (calls ! ?i) ?i
        (set_executing (length (ps_in_flight ps) + 1) (completed_count (ps_slots ps)) w1)"
      let ?w3 = "log_action (ActInvoked bid (kcall_id (calls ! ?i))) ?w2"
      have s2: "driver_steps env ctx w ?w2"
        by (rule step_first [OF step_poll [OF p] steps_trans [OF set_executing_steps publish_started_steps]])
      have "calls ! ?i \<in> set calls" using True by simp
      then have s3: "driver_steps env ctx w ?w3"
        using steps_trans [OF s2 invoke_steps [OF calls_durable_steps [OF 1(3) s2]]] by simp
      have "start_calls env bid calls limit
          (ps\<lparr>ps_next := Suc ?i, ps_in_flight := ps_in_flight ps @ [?i]\<rparr>) ?w3 = (ps', w')"
        using 1(2) p c True by (simp add: start_calls.simps [of env _ _ _ ps] Let_def)
      with 1(1) [OF True p [symmetric] c refl refl refl refl] calls_durable_steps [OF 1(3) s3]
        steps_trans [OF s3] show ?thesis by simp
    qed
  qed (use 1(2) in \<open>auto simp: start_calls.simps [of env]\<close>)
qed

lemma observe_cancel_steps: "observe_cancel env grace ps w = (ps', w') \<Longrightarrow> driver_steps env ctx w w'"
  by (auto simp: observe_cancel_def dest: one_step(2) split: prod.split_asm bool.split_asm)

lemma next_finished_steps: "next_finished env ps w = (n, ps', w') \<Longrightarrow> driver_steps env ctx w w'"
  using step_first [OF step_tick one_step(12), of env ctx w]
  by (auto simp: next_finished_def Let_def intro: one_step(1) split: option.split_asm prod.split_asm)

lemma on_finished_steps: "on_finished env i answer ps w = (ps', w') \<Longrightarrow> driver_steps env ctx w w'"
  by (auto simp: on_finished_def stopped_or_error_def dest: one_step(2)
      split: prod.split_asm bool.split_asm sum.split_asm tool_invoke_end.split_asm)

lemma parallel_loop_steps:
  "parallel_loop env grace bid calls limit ps w = (r, w') \<Longrightarrow> calls_durable bid calls w \<Longrightarrow>
    driver_steps env ctx w w'"
proof (induction env grace bid calls limit ps w arbitrary: r w' rule: parallel_loop.induct)
  case (1 env grace bid calls limit ps w)
  obtain ps1 w1 where o1: "observe_cancel env grace ps w = (ps1, w1)" by fastforce
  obtain ps2 w2 where o2: "start_calls env bid calls limit ps1 w1 = (ps2, w2)" by fastforce
  have s1: "driver_steps env ctx w w1" by (rule observe_cancel_steps [OF o1])
  have s2: "driver_steps env ctx w w2"
    by (rule steps_trans [OF s1 start_calls_steps [OF o2 calls_durable_steps [OF 1(3) s1]]])
  show ?case
  proof (cases "ps_in_flight ps2 = []")
    case True
    with 1(2) o1 o2 s2 show ?thesis by (auto simp: parallel_loop.simps [of env])
  next
    case False
    obtain n ps3 w3 where o3: "next_finished env ps2 w2 = (n, ps3, w3)" by (metis prod_cases3)
    have s3: "driver_steps env ctx w w3" by (rule steps_trans [OF s2 next_finished_steps [OF o3]])
    show ?thesis
    proof (cases n)
      case (NextReady index answer)
      obtain ps4 w4 where o4: "on_finished env index answer ps3 w3 = (ps4, w4)" by fastforce
      let ?w5 = "set_executing (length (ps_in_flight ps4)) (completed_count (ps_slots ps4)) w4"
      have s5: "driver_steps env ctx w ?w5"
        by (rule steps_trans [OF s3 steps_trans [OF on_finished_steps [OF o4] set_executing_steps]])
      have "parallel_loop env grace bid calls limit ps4 ?w5 = (r, w')"
        using 1(2) o1 o2 False o3 NextReady o4 by (simp add: parallel_loop.simps [of env _ _ _ _ ps])
      with 1(1) [OF o1 [symmetric] o2 [symmetric] False o3 [symmetric] NextReady refl o4 [symmetric]]
        calls_durable_steps [OF 1(3) s5] steps_trans [OF s5] show ?thesis by simp
    qed (use 1(2) o1 o2 False o3 s3 in \<open>auto simp: parallel_loop.simps [of env]\<close>)
  qed
qed

lemma run_parallel_steps:
  assumes "run_parallel env ctx cx eid bid calls limit w = (r, w')" and "calls_durable bid calls w"
  shows "driver_steps env ctx w w'"
proof -
  obtain ps w1 where loop: "parallel_loop env (cfg_tool_cancel_grace (ec_config ctx)) bid calls limit
      (parallel_init calls) w = (ps, w1)" by fastforce
  have s1: "driver_steps env ctx w w1" by (rule parallel_loop_steps [OF loop assms(2)])
  obtain c w2 where p: "is_cancel_requested env w1 = (c, w2)" by fastforce
  note s2 = step_last [OF s1 step_poll [OF p]]
  have s3: "driver_steps env ctx w1 (observe_and_cancel ctx cx eid (cancellation_batch ti bid cs slots) w1)"
    for ti cs slots by (rule observe_and_cancel_steps) simp
  show ?thesis
    using assms(1) loop p s1 steps_trans [OF s1 turn_fail_steps] steps_trans [OF s1 s3]
      steps_trans [OF s1 poll_cancel_batch_steps [OF p, of ctx cx eid]]
      steps_trans [OF s2 commit_results_steps]
    by (auto simp: run_parallel_def Let_def split: option.split_asm if_split_asm)
qed

lemma tool_batch_run_steps:
  "tool_batch_run env ctx cx eid bid calls limit w = (r, w') \<Longrightarrow> calls_durable bid calls w \<Longrightarrow>
    driver_steps env ctx w w'"
  by (auto simp: tool_batch_run_def run_serial_def Let_def intro: run_parallel_steps serial_loop_steps
      split: if_split_asm)

section \<open>Rounds\<close>

lemma settle_success_steps: "driver_steps env ctx w (settle_success ctx cx eid obs text w)"
proof -
  have s1: "driver_steps env ctx w (set_phase Finalizing w)" by (rule one_step) simp
  have "driver_steps env ctx w (turn_fail ctx cx eid f w')"
    if "do_commit ctx tx (set_phase Finalizing w) = (Err e, w')" for tx e f w'
    using steps_trans [OF step_last [OF s1 step_commit [OF that]] turn_fail_steps] by simp
  then show ?thesis
    by (auto simp: settle_success_def intro: turn_fail_steps one_step steps_trans [OF s1 commit_then_settle]
        step_last [OF s1 step_commit] split: rres.split prod.split)
qed

lemma run_batch_round_steps:
  assumes "run_batch_round env ctx cx turn eid bid calls w = (r, w')" and "calls_durable bid calls w"
  shows "driver_steps env ctx w w'"
proof -
  obtain b w1 where run: "tool_batch_run env ctx cx eid bid calls (ts_max_parallel_tool_calls turn) w = (b, w1)"
    by fastforce
  note s1 = tool_batch_run_steps [OF run assms(2)]
  show ?thesis
    using assms(1) run s1
    by (auto simp: run_batch_round_def intro: step_last [OF s1 step_settle] step_last [OF s1 step_panic]
        split: option.split_asm prod.split_asm rres.split_asm)
qed

lemma batch_effect_calls:
  assumes "transition s (ModelCallCompleted e out) = Ok t" and "effect t = Some (ExecuteToolBatch e' b calls)"
  shows "map scall_id (session_block_calls (map session_block (ao_blocks out))) = map kcall_id calls"
proof -
  have "tool_call_batch out = Some calls"
    using assms(2) by (cases rule: transition_Ok_cases [OF assms(1)]) auto
  then show ?thesis
    using session_block_calls_map [of "ao_blocks out"]
    by (auto simp: tool_call_batch_def Let_def split: if_split_asm)
qed

lemma transaction_linear_kinds [simp]: "map ne_kind (tx_entries (transaction_linear sid rv ks)) = ks"
proof -
  have "map ne_kind (map linear_entry (enumerate n ks)) = ks" for n
    by (induction ks arbitrary: n) (simp_all add: linear_entry_def at_current_leaf_def after_def)
  then show ?thesis by (simp add: transaction_linear_def)
qed

lemma committed_batch_durable:
  assumes "do_commit ctx (transaction_linear sid rv [batch_entry ti mc bid blocks]) w = (Ok c, w')"
    and "map scall_id (session_block_calls (map session_block blocks)) = map kcall_id calls"
  shows "calls_durable bid calls w'"
  unfolding calls_durable_def
proof
  fix call assume "call \<in> set calls"
  then have "kcall_id call \<in> set (map scall_id (session_block_calls (map session_block blocks)))"
    using assms(2) by simp
  then have "holds_call bid (kcall_id call) (batch_entry ti mc bid blocks)"
    by (simp add: holds_call_def batch_entry_def)
  moreover have "ActCommitted (transaction_linear sid rv [batch_entry ti mc bid blocks]) \<in> set (w_trace w')"
    using commit_trace [OF assms(1)] by simp
  ultimately show "call_durable bid (kcall_id call) (w_trace w')"
    unfolding call_durable_def
    by (intro exI [of _ "transaction_linear sid rv [batch_entry ti mc bid blocks]"] conjI)
      (simp_all only: transaction_linear_kinds list_ex_iff list.set, simp)
qed

lemma commit_batch_round_steps:
  assumes "commit_batch_round env ctx cx turn eid mc out completed w = (r, w')"
    and "transition st (ModelCallCompleted eid out) = Ok completed"
  shows "driver_steps env ctx w w'"
proof (cases "\<exists>e b calls. effect completed = Some (ExecuteToolBatch e b calls)")
  case True
  then obtain e b calls where eff: "effect completed = Some (ExecuteToolBatch e b calls)" by blast
  note ids = batch_effect_calls [OF assms(2) eff]
  let ?w1 = "set_phase (RunningToolBatch Preparing) w"
  have s1: "driver_steps env ctx w ?w1" by (rule one_step) simp
  obtain cr w2 where c: "do_commit ctx (transaction_linear (cx_session_id cx) (cx_revision cx)
      [batch_entry (sh_turn_id (w_shared ?w1)) mc b (ao_blocks out)]) ?w1 = (cr, w2)" by fastforce
  have s2: "driver_steps env ctx w w2" by (rule step_last [OF s1 step_commit [OF c]])
  show ?thesis
  proof (cases cr)
    case (Ok cm)
    let ?w3 = "push (EvToolBatchRequested b (length calls)) w2"
    have p: "driver_steps env ctx w2 ?w3" by (rule one_step) simp
    have "calls_durable b calls ?w3"
      using calls_durable_steps [OF committed_batch_durable [OF c [unfolded Ok] ids] p] .
    then show ?thesis
      using assms(1) eff c Ok steps_trans [OF steps_trans [OF s2 p] run_batch_round_steps]
      by (simp add: commit_batch_round_def Let_def)
  next
    case (Err er)
    with assms(1) eff c steps_trans [OF s2 turn_fail_steps] show ?thesis
      by (auto simp: commit_batch_round_def Let_def)
  next
    case Panic
    with assms(1) eff c s2 show ?thesis by (auto simp: commit_batch_round_def Let_def)
  qed
next
  case False
  with assms(1) show ?thesis
    by (auto simp: commit_batch_round_def intro: turn_fail_steps split: option.split_asm kernel_effect.split_asm)
qed

lemma model_round_steps:
  assumes "model_round env ctx cx turn eid mc i ms ta w = (r, w')"
  shows "driver_steps env ctx w w'"
proof -
  obtain bl w1 where call: "drive_model_call_with_recovery env ctx cx turn eid mc i ms ta w = (bl, w1)"
    by fastforce
  then have s1: "driver_steps env ctx w w1"
    by (auto simp: drive_model_call_with_recovery_def intro: recovery_loop_steps)
  show ?thesis
    using assms call s1
    by (auto simp: model_round_def intro: steps_trans [OF s1 turn_fail_steps]
        steps_trans [OF s1 settle_success_steps] step_last [OF s1 step_panic]
        steps_trans [OF s1 commit_batch_round_steps]
        split: option.split_asm rres.split_asm if_split_asm)
qed

lemma drive_loop_steps:
  "drive_loop env ctx turn fuel cx i eff w = Some w' \<Longrightarrow> driver_steps env ctx w w'"
proof (induction fuel arbitrary: cx i eff w)
  case (Suc fuel)
  show ?case
  proof (cases eff)
    case (RequestModel e m ms ta)
    obtain r w1 where r: "model_round env ctx cx turn e m (i + 1) ms ta w = (r, w1)" by fastforce
    note s1 = model_round_steps [OF r]
    show ?thesis
      using Suc.prems RequestModel r s1 steps_trans [OF s1 Suc.IH]
      by (auto split: option.split_asm prod.split_asm)
  next
    case (ExecuteToolBatch e b calls)
    with Suc.prems show ?thesis by (auto intro: one_step)
  qed
qed simp

section \<open>Before the loop\<close>

lemma seal_loop_steps:
  "seal_loop ctx sid rv sealed ots w = (r, w') \<Longrightarrow> driver_steps env ctx w w'"
proof (induction ots arbitrary: rv sealed w)
  case (Cons ot ots)
  obtain cr w1 where c: "do_commit ctx (transaction_linear sid rv (seal_entries ot)) w = (cr, w1)"
    by fastforce
  show ?case
    using Cons.prems c Cons.IH one_step(8) [OF c] step_first [OF step_commit [OF c]]
    by (auto split: rres.split_asm)
qed simp

lemma prior_turns_sealed_steps:
  "driver_steps env ctx w (fold (\<lambda>turn_id. on_shared (prior_turn_sealed turn_id)) xs w)"
proof (induction xs arbitrary: w)
  case (Cons x xs)
  have "on_shared (prior_turn_sealed x) w = push (EvPriorTurnSealed x) w"
    by (simp add: push_def on_shared_def prior_turn_sealed_def)
  then show ?case using step_first [OF step_publish Cons.IH] by simp
qed simp

lemma seal_stale_turns_steps:
  assumes "seal_stale_turns ctx sid v w = (r, w')"
  shows "driver_steps env ctx w w'"
proof (cases "view_open_turns v = []")
  case True
  with assms show ?thesis by (auto simp: seal_stale_turns_def seal_stale_turns_with_def)
next
  case False
  obtain sr w1 where loop: "seal_loop ctx sid (view_revision v) [] (view_open_turns v) w = (sr, w1)"
    by fastforce
  note s1 = seal_loop_steps [OF loop, of env]
  obtain vr w2 where vw: "do_view ctx sid w1 = (vr, w2)" by fastforce
  note s2 = step_last [OF s1 step_view [OF vw]]
  show ?thesis
    using assms False loop vw s1 s2 steps_trans [OF s2 prior_turns_sealed_steps]
    by (auto simp: seal_stale_turns_def seal_stale_turns_with_def
        intro: step_last [OF s1 step_settle] step_last [OF s2 step_settle]
        split: rres.split_asm seal_failure.split_asm)
qed

lemma zero_trace_cancel_steps: "driver_steps env ctx w (zero_trace_cancel w)"
  unfolding zero_trace_cancel_def
  by (rule step_last [OF cancellation_observed_steps step_settle]) simp

lemma summary_loop_steps:
  assumes "\<And>w. driver_steps env ctx w (snd (poll w))"
  shows "summary_loop poll items blocks started w = (r, w') \<Longrightarrow> driver_steps env ctx w w'"
proof (induction items arbitrary: blocks started w)
  case Nil
  obtain b w1 where p: "poll w = (b, w1)" by fastforce
  with assms [of w] Nil show ?case by (auto split: bool.split_asm option.split_asm)
next
  case (Cons item items)
  obtain b w1 where p: "poll w = (b, w1)" by fastforce
  have s1: "driver_steps env ctx w w1" using assms [of w] p by simp
  show ?case
  proof (cases "\<exists>bl st. summary_loop poll items bl st w1 = (r, w')")
    case True
    then show ?thesis using Cons.IH steps_trans [OF s1] by blast
  next
    case False
    with Cons.prems p s1 show ?thesis
      by (simp split: bool.split_asm stream_item.split_asm model_event.split_asm if_split_asm)
  qed
qed

lemma generate_summary_steps:
  assumes "generate_summary env ctx (is_cancel_requested env) sid v w = (r, w')"
  shows "driver_steps env ctx w w'"
proof -
  have poll: "driver_steps env ctx w (snd (is_cancel_requested env w))" for w
    by (rule one_step(2) [of env w "fst (is_cancel_requested env w)"]) simp
  obtain b w1 where p: "is_cancel_requested env w = (b, w1)" by fastforce
  note s1 = one_step(2) [OF p, of ctx]
  let ?w2 = "log_action (ActModelStarted (summary_request ctx sid v)) (tick env w1)"
  have s2: "driver_steps env ctx w ?w2"
    by (rule step_first [OF step_poll [OF p] step_first [OF step_tick one_step(6)]])
  show ?thesis
    using assms p s1 s2 steps_trans [OF s2 summary_loop_steps [OF poll]]
    by (auto simp: generate_summary_def Let_def split: bool.split_asm sum.split_asm)
qed

lemma maybe_auto_compact_steps:
  assumes "maybe_auto_compact env ctx sid v w = (r, w')"
  shows "driver_steps env ctx w w'"
proof (cases "should_auto_compact ctx sid v w \<and>
    (\<exists>c. select_boundary v (cc_keep_recent_turns (cfg_compaction (ec_config ctx))) = Some c)")
  case True
  then obtain covers where sel: "should_auto_compact ctx sid v w"
    "select_boundary v (cc_keep_recent_turns (cfg_compaction (ec_config ctx))) = Some covers" by blast
  obtain sr w1 where sum: "generate_summary env ctx (is_cancel_requested env) sid v
      (push EvContextCompactionStarted w) = (sr, w1)" by fastforce
  have s1: "driver_steps env ctx w w1"
    by (rule step_first [OF step_publish generate_summary_steps [OF sum]]) simp
  obtain c2 w2 where p2: "is_cancel_requested env w1 = (c2, w2)" by fastforce
  note s2 = step_last [OF s1 step_poll [OF p2]]
  show ?thesis
  proof (cases "\<exists>summary. sr = Ok summary \<and> \<not> c2")
    case True
    then obtain summary where ok: "sr = Ok summary" "\<not> c2" by blast
    obtain cr w3 where c3: "do_commit ctx (transaction_linear sid (view_revision v)
        [Compaction summary covers]) w2 = (cr, w3)" by fastforce
    note s3 = step_last [OF s2 step_commit [OF c3]]
    obtain c4 w4 where p4: "is_cancel_requested env (push (EvContextCompactionCompleted covers) w3) = (c4, w4)"
      by fastforce
    have s4: "driver_steps env ctx w w4"
      by (rule step_last [OF step_last [OF s3 step_publish] step_poll [OF p4]]) simp
    obtain vr w5 where v5: "do_view ctx sid w4 = (vr, w5)" by fastforce
    note s5 = step_last [OF s4 step_view [OF v5]]
    show ?thesis
      using assms sel sum ok p2 c3 p4 v5 s3 s5 steps_trans [OF s4 zero_trace_cancel_steps]
      by (auto simp: maybe_auto_compact_def intro: step_last [OF s3 step_publish]
          step_last [OF s5 step_settle] split: rres.split_asm bool.split_asm)
  next
    case False
    then show ?thesis
      using assms sel sum p2 s1 steps_trans [OF s1 zero_trace_cancel_steps]
        steps_trans [OF s2 zero_trace_cancel_steps]
      by (auto simp: maybe_auto_compact_def intro: step_last [OF s1 step_publish]
          step_last [OF s1 step_panic] split: rres.split_asm bool.split_asm summary_failure.split_asm)
  qed
next
  case False
  with assms show ?thesis by (auto simp: maybe_auto_compact_def split: option.split_asm if_split_asm)
qed

lemma start_turn_steps:
  assumes "start_turn env ctx sid user v w = Some w'"
  shows "driver_steps env ctx w w'"
proof -
  let ?w = "on_shared turn_started w"
  have "?w = push (EvTurnStarted (sh_turn_id (w_shared w))) w"
    by (simp add: push_def on_shared_def turn_started_def)
  then have s0: "driver_steps env ctx w ?w" using one_step(3) [of "EvTurnStarted (sh_turn_id (w_shared w))"] by simp
  obtain c w1 where p: "is_cancel_requested env ?w = (c, w1)" by fastforce
  note s1 = step_last [OF s0 step_poll [OF p]]
  have commits: "driver_steps env ctx w w2" if "do_commit ctx tx w1 = (r, w2)" for tx r w2
    by (rule step_last [OF s1 step_commit [OF that]])
  show ?thesis
    using assms p
    by (auto simp: start_turn_def Let_def
        intro: step_last [OF s0 step_settle] step_last [OF s0 step_panic] commits
          steps_trans [OF s1 zero_trace_cancel_steps] step_last [OF commits step_settle]
          steps_trans [OF commits drive_loop_steps]
        split: rres.split_asm bool.split_asm prod.split_asm option.split_asm)
qed

theorem drive_turn_steps:
  assumes "drive_turn env ctx sid user w = Some w'"
  shows "driver_steps env ctx w w'"
proof -
  obtain vr w1 where v: "do_view ctx sid w = (vr, w1)" by fastforce
  note s1 = one_step(9) [OF v, of env]
  show ?thesis
    using assms v s1
    by (auto simp: drive_turn_def intro: step_last [OF s1 step_settle]
        steps_trans [OF s1 seal_stale_turns_steps]
        steps_trans [OF steps_trans [OF s1 seal_stale_turns_steps] maybe_auto_compact_steps]
        steps_trans [OF steps_trans [OF steps_trans [OF s1 seal_stale_turns_steps]
            maybe_auto_compact_steps] start_turn_steps]
        split: rres.split_asm option.split_asm prod.split_asm)
qed

end
