(* ===== verification/Engine_Runs.thy ===== *)
theory Engine_Runs
  imports Engine_Steps_Drive
begin

text \<open>
  Invariants of driver runs, each by induction over the driver's steps: write-ahead of tool calls,
  the first cancel reason, one settlement, and the session as the replay of the logged commits.
\<close>

section \<open>Write-ahead\<close>

definition write_ahead :: "('f, 't) trace_action list \<Rightarrow> bool" where
  "write_ahead tr \<longleftrightarrow>
     (\<forall>i < length tr. \<forall>bid call_id. tr ! i = ActInvoked bid call_id \<longrightarrow> call_durable bid call_id (take i tr))"

lemma write_ahead_snoc:
  "write_ahead tr \<Longrightarrow> (\<And>bid c. a = ActInvoked bid c \<Longrightarrow> call_durable bid c tr) \<Longrightarrow> write_ahead (tr @ [a])"
  by (auto simp: write_ahead_def nth_append less_Suc_eq)

lemma step_write_ahead:
  assumes "driver_step env ctx w w'" and "write_ahead (w_trace w)"
  shows "write_ahead (w_trace w')"
  using assms(1)
proof cases
  case (step_commit tx r)
  then show ?thesis
    using commit_trace [OF step_commit] assms(2) by (cases r) (auto intro: write_ahead_snoc)
qed (use assms(2) in \<open>auto simp: poll_trace view_trace intro: write_ahead_snoc\<close>)

lemmas run_write_ahead = steps_invariant [where P = "\<lambda>w. write_ahead (w_trace w)", OF _ _ step_write_ahead]

section \<open>The first cancel reason\<close>

definition cancel_inv :: "operation_shared \<Rightarrow> bool" where
  "cancel_inv sh \<longleftrightarrow>
     sh_cancel_requested sh = (sh_cancel_reason sh \<noteq> None) \<and> sh_tool_cancel sh = sh_cancel_requested sh"

definition same_cancel :: "operation_shared \<Rightarrow> operation_shared \<Rightarrow> bool" where
  "same_cancel sh sh' \<longleftrightarrow>
     sh_cancel_reason sh' = sh_cancel_reason sh \<and> sh_cancel_requested sh' = sh_cancel_requested sh
     \<and> sh_tool_cancel sh' = sh_tool_cancel sh"

lemma publish_cancel [simp]: "same_cancel sh (shared_publish ev sh)"
  by (simp add: same_cancel_def shared_publish_def Let_def split: agent_event.split)

lemma settle_cancel: "shared_settle oc sh = (b, sh') \<Longrightarrow> same_cancel sh sh'"
  by (auto simp: same_cancel_def shared_settle_def Let_def split: if_split_asm runtime_outcome.split_asm)

lemma same_cancel_trans: "same_cancel a b \<Longrightarrow> same_cancel b c \<Longrightarrow> same_cancel a c"
  by (simp add: same_cancel_def)

lemma settlement_cancel: "settlement f \<Longrightarrow> same_cancel sh (f sh)"
  by (auto simp: settlement_def publisher_succeed_def fail_confirmed_def fail_unconfirmed_def
      publisher_fail_def cancel_zero_trace_def cancel_committed_def publish_settled_def
      split: prod.split bool.split
      intro: settle_cancel same_cancel_trans [OF settle_cancel publish_cancel]
        same_cancel_trans [OF same_cancel_trans [OF settle_cancel publish_cancel] publish_cancel])

lemma request_cancel_inv: "cancel_inv sh \<Longrightarrow> cancel_inv (shared_request_cancel r sh)"
  by (auto simp: cancel_inv_def shared_request_cancel_def)

lemma request_cancel_first:
  "sh_cancel_reason sh = Some r \<Longrightarrow> sh_cancel_reason (shared_request_cancel r' sh) = Some r"
  by (simp add: shared_request_cancel_def)

definition cancel_kept :: "cancel_reason option \<Rightarrow> operation_shared \<Rightarrow> bool" where
  "cancel_kept r sh \<longleftrightarrow> cancel_inv sh \<and> (\<forall>x. r = Some x \<longrightarrow> sh_cancel_reason sh = Some x)"

lemma cancel_kept_same: "cancel_kept r sh \<Longrightarrow> same_cancel sh sh' \<Longrightarrow> cancel_kept r sh'"
  by (simp add: cancel_kept_def cancel_inv_def same_cancel_def)

lemma cancel_kept_request: "cancel_kept r sh \<Longrightarrow> cancel_kept r (shared_request_cancel r' sh)"
  by (simp add: cancel_kept_def request_cancel_inv request_cancel_first)

lemma tick_cancel: "cancel_kept r (w_shared w) \<Longrightarrow> cancel_kept r (w_shared (tick env w))"
  by (simp add: tick_def cancel_kept_request split: option.split)

lemma poll_cancel:
  assumes "cancel_kept r (w_shared w)" and "is_cancel_requested env w = (b, w')"
  shows "cancel_kept r (w_shared w')"
proof -
  have "cancel_kept r (snd (shared_check_cancel now sh))" if "cancel_kept r sh" for now sh
    using that by (simp add: shared_check_cancel_def Let_def cancel_kept_request)
  from this [OF tick_cancel [OF assms(1), of env], of "env_now env (w_tick w)"] assms(2) show ?thesis
    by (auto simp: is_cancel_requested_def Let_def split: prod.split_asm)
qed

lemma step_cancel:
  assumes "driver_step env ctx w w'" and "cancel_kept r (w_shared w)"
  shows "cancel_kept r (w_shared w')"
  using assms(1)
proof cases
  case (step_settle f)
  with assms(2) show ?thesis using cancel_kept_same settlement_cancel by auto
next
  case (step_publish ev)
  with assms(2) show ?thesis using cancel_kept_same publish_cancel by (auto simp: push_def)
next
  case (step_phase ph)
  with assms(2) show ?thesis
    by (auto simp: set_phase_def shared_set_phase_def cancel_kept_def cancel_inv_def)
qed (use assms(2) in \<open>auto simp: tick_cancel poll_cancel record_input_tokens_def log_action_def
    driver_panic_def do_commit_def do_view_def Let_def split: prod.split_asm\<close>)

lemmas run_cancel = steps_invariant [where P = "\<lambda>w. cancel_kept r (w_shared w)" for r, OF _ _ step_cancel]

section \<open>One settlement\<close>

text \<open>A settlement is published once, and says what the phase, the exit and the revision say.\<close>

definition settled_consistent :: "operation_shared \<Rightarrow> operation_shared \<Rightarrow> bool" where
  "settled_consistent sh sh' \<longleftrightarrow>
     (\<exists>st dur rv e. sh_phase sh' = Settled st
        \<and> filter is_settlement (sh_events sh') =
            filter is_settlement (sh_events sh) @ [EvOperationSettled (sh_operation_id sh) st dur rv]
        \<and> sh_settlement_revision sh' = Some rv \<and> sh_exit sh' = Some e
        \<and> (dur = Unconfirmed \<longleftrightarrow> e = ExitFailedUnconfirmed)
        \<and> (st = StSucceeded \<longleftrightarrow> e = ExitSucceeded))"

lemma settle_again: "is_settled_phase (sh_phase sh) \<Longrightarrow> settlement f \<Longrightarrow> f sh = sh"
  by (auto simp: settlement_def publisher_succeed_def fail_confirmed_def fail_unconfirmed_def
      publisher_fail_def cancel_zero_trace_def cancel_committed_def shared_settle_def)

lemma settlement_phase: "settlement f \<Longrightarrow> is_settled_phase (sh_phase (f sh))"
  by (auto simp: settlement_def settles)

lemma settlement_once:
  assumes "settlement f" and "\<not> is_settled_phase (sh_phase sh)"
  shows "settled_consistent sh (f sh)"
  using assms(1) settle_unsettled [OF assms(2)]
  by (auto simp: settlement_def publisher_succeed_def fail_confirmed_def fail_unconfirmed_def
      publisher_fail_def cancel_zero_trace_def cancel_committed_def publish_settled_def
      shared_publish_def is_transient_agent_def Let_def settled_consistent_def outcome_status_def
      outcome_exit_def)

section \<open>The session is the replay of the logged commits\<close>

text \<open>The effect of a trace on the contents of a store: the committed transactions, in order.\<close>

fun replay_trace ::
    "('f, 't) trace_action list \<Rightarrow> (rstring \<Rightarrow> session_projection)
      \<Rightarrow> (rstring \<Rightarrow> session_projection, session_error) rres" where
  "replay_trace [] cs = Ok cs"
| "replay_trace (ActCommitted tx # acts) cs =
     rbind (apply_transaction (cs (tx_session_id tx)) tx) (\<lambda>a.
       replay_trace acts (cs(tx_session_id tx := at_projection a)))"
| "replay_trace (_ # acts) cs = replay_trace acts cs"

lemma replay_trace_append:
  "replay_trace (xs @ ys) cs = rbind (replay_trace xs cs) (replay_trace ys)"
proof (induction xs arbitrary: cs)
  case (Cons x xs)
  show ?case
  proof (cases x)
    case (ActCommitted tx)
    with Cons.IH show ?thesis
      by (cases "apply_transaction (cs (tx_session_id tx)) tx") (simp_all add: fun_upd_def)
  qed (use Cons.IH in simp_all)
qed simp

context session_store
begin

definition replayed where
  "replayed cs n w \<longleftrightarrow>
     store_inv (w_store w) \<and> n \<le> length (w_trace w)
     \<and> replay_trace (drop n (w_trace w)) cs = Ok (contents (w_store w))"

lemma step_replayed:
  assumes "driver_step env ctx w w'" and "replayed cs n w" and "ec_commit ctx = commit"
  shows "replayed cs n w'"
  using assms(1)
proof cases
  case (step_commit tx r)
  have si: "store_inv (w_store w)" using assms(2) by (simp add: replayed_def)
  from si show ?thesis
  proof (cases rule: commit_cases [of "w_store w" tx])
    case (committed c a s')
    then have "store_inv s'" using commit_inv [OF si, of tx] by simp
    with committed step_commit assms(2,3) show ?thesis
      by (auto simp: do_commit_def replayed_def replay_trace_append)
  next
    case (refused e s')
    then have "store_inv s'" using commit_inv [OF si, of tx] by simp
    with refused step_commit assms(2,3) show ?thesis
      by (auto simp: do_commit_def replayed_def)
  qed
next
  case (step_poll b)
  with assms(2) show ?thesis
    using quiet_is_cancel_requested [OF step_poll] poll_trace [OF step_poll]
    by (simp add: replayed_def quiet_def)
next
  case (step_view sid v)
  with assms(2) show ?thesis by (auto simp: replayed_def do_view_def Let_def)
qed (use assms(2) in \<open>auto simp: replayed_def replay_trace_append tick_def push_def set_phase_def
    record_input_tokens_def log_action_def driver_panic_def\<close>)

lemma run_replayed:
  assumes "driver_steps env ctx w w'" and "store_inv (w_store w)" and "ec_commit ctx = commit"
  shows "store_inv (w_store w')
    \<and> replay_trace (drop (length (w_trace w)) (w_trace w')) (contents (w_store w)) = Ok (contents (w_store w'))"
proof -
  have "replayed (contents (w_store w)) (length (w_trace w)) w'"
    using assms(1)
  proof (rule steps_invariant)
    show "replayed (contents (w_store w)) (length (w_trace w)) w"
      using assms(2) by (simp add: replayed_def)
  qed (rule step_replayed [OF _ _ assms(3)])
  then show ?thesis by (simp add: replayed_def)
qed

end

end
