(* ===== verification/Engine_Batches.thy ===== *)
theory Engine_Batches
  imports Engine_Steps_Drive "HOL-Library.Multiset"
begin

text \<open>
  What a tool batch does with its calls: they start in source order, at most once and at most
  \<open>limit\<close> at a time; results come back in source order; and a batch that is cancelled half-way leaves
  marks the session accepts.
\<close>

section \<open>Removing a finished call\<close>

lemma mset_swap_remove:
  assumes "i < length xs"
  shows "add_mset (xs ! i) (mset (swap_remove i xs)) = mset xs"
proof -
  have ne: "xs \<noteq> []" using assms by auto
  then have split: "xs = butlast xs @ [last xs]" by simp
  show ?thesis
  proof (cases "i = length xs - 1")
    case True
    then have "xs[i := last xs] = xs" "xs ! i = last xs"
      using ne by (simp_all add: last_conv_nth)
    then show ?thesis
      using ne by (simp add: swap_remove_def) (metis add_mset_add_single mset_append mset_single_iff_right split)
  next
    case False
    then have i: "i < length (butlast xs)" using assms by simp
    then have "swap_remove i xs = (butlast xs)[i := last xs]"
      by (subst split) (simp add: swap_remove_def list_update_append)
    moreover have "butlast xs ! i = xs ! i" using i by (simp add: nth_butlast)
    moreover have "mset xs = add_mset (last xs) (mset (butlast xs))"
      by (subst split) simp
    moreover have "xs ! i \<in># mset (butlast xs)"
      using i \<open>butlast xs ! i = xs ! i\<close> by (metis nth_mem_mset)
    ultimately show ?thesis using i by (simp add: mset_update)
  qed
qed

lemma swap_remove_distinct:
  assumes "i < length xs" "distinct xs"
  shows "distinct (swap_remove i xs)" "xs ! i \<notin> set (swap_remove i xs)"
    "set xs = insert (xs ! i) (set (swap_remove i xs))"
proof -
  have "mset (xs ! i # swap_remove i xs) = mset xs"
    using mset_swap_remove [OF assms(1)] by simp
  then have "distinct (xs ! i # swap_remove i xs)" "set (xs ! i # swap_remove i xs) = set xs"
    using assms(2) mset_eq_imp_distinct_iff mset_eq_setD by blast+
  then show "distinct (swap_remove i xs)" "xs ! i \<notin> set (swap_remove i xs)"
    "set xs = insert (xs ! i) (set (swap_remove i xs))" by auto
qed

section \<open>The states of a parallel batch\<close>

definition invoked :: "rstring \<Rightarrow> kernel_tool_call list \<Rightarrow> nat \<Rightarrow> ('f, 't) trace_action" where
  "invoked bid calls i = ActInvoked bid (kcall_id (calls ! i))"

definition parallel_inv :: "kernel_tool_call list \<Rightarrow> nat \<Rightarrow> parallel_state \<Rightarrow> bool" where
  "parallel_inv calls limit ps \<longleftrightarrow>
     length (ps_slots ps) = length calls \<and> ps_next ps \<le> length calls
     \<and> length (ps_in_flight ps) \<le> limit \<and> distinct (ps_in_flight ps)
     \<and> (\<forall>i \<in> set (ps_in_flight ps). i < ps_next ps)
     \<and> (\<forall>i < length calls. ps_next ps \<le> i \<longrightarrow> ps_slots ps ! i = SlotUnstarted)
     \<and> (ps_port_error ps = None \<longrightarrow>
          (\<forall>i < ps_next ps. i \<notin> set (ps_in_flight ps) \<longrightarrow> ps_slots ps ! i \<noteq> SlotUnstarted))"

lemma parallel_inv_init: "parallel_inv calls limit (parallel_init calls)"
  by (simp add: parallel_inv_def parallel_init_def)

lemma parallel_inv_fields:
  "parallel_inv calls limit (ps\<lparr>ps_stop_starting := b, ps_grace_deadline := d\<rparr>) = parallel_inv calls limit ps"
  "parallel_inv calls limit (ps\<lparr>ps_stop_starting := b\<rparr>) = parallel_inv calls limit ps"
  by (simp_all add: parallel_inv_def)

lemma start_one_inv:
  assumes "parallel_inv calls limit ps" and "length (ps_in_flight ps) < limit" "ps_next ps < length calls"
  shows "parallel_inv calls limit
    (ps\<lparr>ps_next := Suc (ps_next ps), ps_in_flight := ps_in_flight ps @ [ps_next ps]\<rparr>)"
  using assms by (auto simp: parallel_inv_def less_Suc_eq)

lemma execution_trace [simp]:
  "w_trace (publish_started bid call i w) = w_trace w" "w_trace (set_executing a b w) = w_trace w"
  by (simp_all add: publish_started_def set_executing_def)

lemma start_calls_inv:
  "start_calls env bid calls limit ps w = (ps', w') \<Longrightarrow> parallel_inv calls limit ps \<Longrightarrow>
    parallel_inv calls limit ps' \<and> ps_next ps \<le> ps_next ps'
    \<and> w_trace w' = w_trace w @ map (invoked bid calls) [ps_next ps..<ps_next ps']"
proof (induction env bid calls limit ps w rule: start_calls.induct)
  case (1 env bid calls limit ps w)
  show ?case
  proof (cases "\<not> ps_stop_starting ps \<and> length (ps_in_flight ps) < limit \<and> ps_next ps < length calls")
    case True
    obtain c w1 where p: "is_cancel_requested env w = (c, w1)" by fastforce
    show ?thesis
    proof (cases c)
      case c: True
      with 1(2,3) p True show ?thesis
        by (auto simp: start_calls.simps [of env] parallel_inv_fields poll_trace)
    next
      case False
      then have c: "c = False" by simp
      let ?i = "ps_next ps"
      let ?ps = "ps\<lparr>ps_next := Suc ?i, ps_in_flight := ps_in_flight ps @ [?i]\<rparr>"
      let ?w3 = "log_action (ActInvoked bid (kcall_id (calls ! ?i))) (publish_started bid (calls ! ?i) ?i
        (set_executing (length (ps_in_flight ps) + 1) (completed_count (ps_slots ps)) w1))"
      have "start_calls env bid calls limit ?ps ?w3 = (ps', w')"
        using 1(2) p c True by (simp add: start_calls.simps [of env _ _ _ ps] Let_def)
      moreover have "parallel_inv calls limit ?ps" using start_one_inv 1(3) True by simp
      ultimately have ih: "parallel_inv calls limit ps'" "Suc ?i \<le> ps_next ps'"
        "w_trace w' = w_trace ?w3 @ map (invoked bid calls) [Suc ?i..<ps_next ps']"
        using 1(1) [OF True p [symmetric] c refl refl refl refl] by simp_all
      have "[?i..<ps_next ps'] = ?i # [Suc ?i..<ps_next ps']" using ih(2) by (simp add: upt_conv_Cons)
      with ih show ?thesis by (simp add: invoked_def poll_trace [OF p])
    qed
  qed (use 1(2,3) in \<open>auto simp: start_calls.simps [of env]\<close>)
qed

lemma observe_cancel_inv:
  "observe_cancel env grace ps w = (ps', w') \<Longrightarrow>
    parallel_inv calls limit ps' = parallel_inv calls limit ps \<and> ps_next ps' = ps_next ps
    \<and> w_trace w' = w_trace w"
  by (auto simp: observe_cancel_def parallel_inv_fields poll_trace split: prod.split_asm bool.split_asm)

text \<open>Between the end of a call and the recording of its result the call is neither in flight nor
  answered.\<close>

lemma finish_one_inv:
  assumes inv: "parallel_inv calls limit ps" and ne: "ps_in_flight ps \<noteq> []"
    and n: "next_finished env ps w = (NextReady index answer, ps', w')"
    and f: "on_finished env index answer ps' w' = (ps'', w'')"
  shows "parallel_inv calls limit ps'' \<and> ps_next ps'' = ps_next ps \<and> w_trace w'' = w_trace w"
proof -
  obtain i where i: "i < length (ps_in_flight ps)" "index = ps_in_flight ps ! i"
    "ps' = ps\<lparr>ps_in_flight := swap_remove i (ps_in_flight ps)\<rparr>" "w' = tick env w"
  proof -
    from n obtain x where x: "index = ps_in_flight ps ! (x mod length (ps_in_flight ps))"
      "ps' = ps\<lparr>ps_in_flight := swap_remove (x mod length (ps_in_flight ps)) (ps_in_flight ps)\<rparr>"
      "w' = tick env w"
      by (auto simp: next_finished_def Let_def split: option.split_asm prod.split_asm)
    have "x mod length (ps_in_flight ps) < length (ps_in_flight ps)" using ne by simp
    with x that show thesis by blast
  qed
  have d: "distinct (ps_in_flight ps)" using inv by (simp add: parallel_inv_def)
  note rm = swap_remove_distinct [OF i(1) d]
  have index: "index < ps_next ps" "ps_next ps \<le> length calls"
    using inv i(1,2) by (auto simp: parallel_inv_def)
  have "length (ps_in_flight ps) \<le> limit" using inv by (simp add: parallel_inv_def)
  then have len: "length (swap_remove i (ps_in_flight ps)) \<le> limit" by simp
  have answered: "parallel_inv calls limit (ps'\<lparr>ps_slots := (ps_slots ps')[index := slot]\<rparr>)"
    if "slot \<noteq> SlotUnstarted" for slot
    using inv rm index len that i(2,3) by (auto simp: parallel_inv_def nth_list_update)
  have failed: "parallel_inv calls limit (ps'\<lparr>ps_port_error := Some err, ps_stop_starting := True\<rparr>)" for err
    using inv rm len i(3) by (auto simp: parallel_inv_def)
  have stopped: "parallel_inv calls limit
      (ps'\<lparr>ps_slots := (ps_slots ps')[index := SlotStopped], ps_stop_starting := True\<rparr>)"
    using answered [of SlotStopped] by (simp add: parallel_inv_def)
  show ?thesis
    using f i(3,4) answered failed stopped
    by (auto simp: on_finished_def stopped_or_error_def poll_trace
        split: sum.split_asm tool_invoke_end.split_asm prod.split_asm bool.split_asm)
qed

lemma stop_all_nth:
  "i < length slots \<Longrightarrow>
    fold (\<lambda>i slots. slots[i := SlotStopped]) is slots ! i = (if i \<in> set is then SlotStopped else slots ! i)"
  by (induction "is" arbitrary: slots) (auto simp: nth_list_update)

lemma stop_all_inv:
  assumes "parallel_inv calls limit ps"
  shows "parallel_inv calls limit (ps\<lparr>ps_slots := fold (\<lambda>i slots. slots[i := SlotStopped])
    (ps_in_flight ps) (ps_slots ps), ps_in_flight := []\<rparr>)"
proof -
  define slots where "slots = fold (\<lambda>i slots. slots[i := SlotStopped]) (ps_in_flight ps) (ps_slots ps)"
  from assms have inv: "length (ps_slots ps) = length calls" "ps_next ps \<le> length calls"
    "\<And>i. i \<in> set (ps_in_flight ps) \<Longrightarrow> i < ps_next ps"
    "\<And>i. i < length calls \<Longrightarrow> ps_next ps \<le> i \<Longrightarrow> ps_slots ps ! i = SlotUnstarted"
    "\<And>i. ps_port_error ps = None \<Longrightarrow> i < ps_next ps \<Longrightarrow> i \<notin> set (ps_in_flight ps) \<Longrightarrow>
      ps_slots ps ! i \<noteq> SlotUnstarted"
    by (simp_all add: parallel_inv_def)
  have len: "length slots = length calls" using inv(1) by (simp add: slots_def)
  have nth: "slots ! i = (if i \<in> set (ps_in_flight ps) then SlotStopped else ps_slots ps ! i)"
    if "i < length calls" for i using that inv(1) by (simp add: slots_def stop_all_nth)
  have "slots ! i = SlotUnstarted" if "i < length calls" "ps_next ps \<le> i" for i
    using that nth [OF that(1)] inv(3) [of i] inv(4) by auto
  moreover have "slots ! i \<noteq> SlotUnstarted" if "ps_port_error ps = None" "i < ps_next ps" for i
    using that nth [of i] inv(2) inv(5) [OF that] by auto
  ultimately show ?thesis
    unfolding slots_def [symmetric] using len inv(2) by (simp add: parallel_inv_def)
qed

lemma parallel_loop_inv:
  "parallel_loop env grace bid calls limit ps w = (r, w') \<Longrightarrow> parallel_inv calls limit ps \<Longrightarrow>
    (\<exists>n \<le> length calls. ps_next ps \<le> n \<and> w_trace w' = w_trace w @ map (invoked bid calls) [ps_next ps..<n])
    \<and> (\<forall>ps'. r = Some ps' \<longrightarrow> parallel_inv calls limit ps' \<and> ps_in_flight ps' = [])"
proof (induction env grace bid calls limit ps w arbitrary: r w' rule: parallel_loop.induct)
  case (1 env grace bid calls limit ps w)
  obtain ps1 w1 where o1: "observe_cancel env grace ps w = (ps1, w1)" by fastforce
  obtain ps2 w2 where o2: "start_calls env bid calls limit ps1 w1 = (ps2, w2)" by fastforce
  note i1 = observe_cancel_inv [OF o1, of calls limit]
  have i2: "parallel_inv calls limit ps2" "ps_next ps \<le> ps_next ps2"
    "w_trace w2 = w_trace w @ map (invoked bid calls) [ps_next ps..<ps_next ps2]"
    using start_calls_inv [OF o2] i1 1(3) by auto
  have le: "ps_next ps2 \<le> length calls" using i2(1) by (simp add: parallel_inv_def)
  show ?case
  proof (cases "ps_in_flight ps2 = []")
    case True
    with 1(2) o1 o2 i2 le show ?thesis by (auto simp: parallel_loop.simps [of env])
  next
    case False
    obtain n ps3 w3 where o3: "next_finished env ps2 w2 = (n, ps3, w3)" by (metis prod_cases3)
    have t3: "w_trace w3 = w_trace w2"
      using o3 by (auto simp: next_finished_def Let_def split: option.split_asm prod.split_asm)
    show ?thesis
    proof (cases n)
      case (NextReady index answer)
      obtain ps4 w4 where o4: "on_finished env index answer ps3 w3 = (ps4, w4)" by fastforce
      let ?w5 = "set_executing (length (ps_in_flight ps4)) (completed_count (ps_slots ps4)) w4"
      have i4: "parallel_inv calls limit ps4" "ps_next ps4 = ps_next ps2" "w_trace ?w5 = w_trace w2"
        using finish_one_inv [OF i2(1) False _ o4] o3 NextReady by simp_all
      have "parallel_loop env grace bid calls limit ps4 ?w5 = (r, w')"
        using 1(2) o1 o2 False o3 NextReady o4 by (simp add: parallel_loop.simps [of env _ _ _ _ ps])
      from 1(1) [OF o1 [symmetric] o2 [symmetric] False o3 [symmetric] NextReady refl o4 [symmetric]
          this i4(1)] i4 i2
      obtain m where m: "m \<le> length calls" "ps_next ps2 \<le> m"
        "w_trace w' = w_trace w2 @ map (invoked bid calls) [ps_next ps2..<m]"
        "\<forall>ps'. r = Some ps' \<longrightarrow> parallel_inv calls limit ps' \<and> ps_in_flight ps' = []" by auto
      have "[ps_next ps..<m] = [ps_next ps..<ps_next ps2] @ [ps_next ps2..<m]"
        using i2(2) m(2) upt_add_eq_append [of "ps_next ps" "ps_next ps2" "m - ps_next ps2"] by simp
      with m i2 show ?thesis by (intro conjI exI [of _ m]) auto
    next
      case NextDeadline
      then have "ps3 = ps2" using o3
        by (auto simp: next_finished_def Let_def split: option.split_asm prod.split_asm)
      with 1(2) o1 o2 False o3 NextDeadline i2 le t3 stop_all_inv [OF i2(1)] show ?thesis
        by (auto simp: parallel_loop.simps [of env])
    next
      case NextForever
      with 1(2) o1 o2 False o3 i2 le t3 show ?thesis by (auto simp: parallel_loop.simps [of env])
    qed
  qed
qed

section \<open>Serial batches\<close>

lemma settling_trace:
  "\<exists>acts. w_trace (turn_fail ctx cx eid f w) = w_trace w @ acts \<and> (\<forall>b c. ActInvoked b c \<notin> set acts)"
  by (auto simp: turn_fail_def Let_def commit_trace split: rres.split prod.split)

lemma fold_push_trace [simp]: "w_trace (fold push evs w) = w_trace w"
  by (induction evs arbitrary: w) simp_all

definition no_starts :: "('f, 't) trace_action list \<Rightarrow> ('f, 't) trace_action list \<Rightarrow> bool" where
  "no_starts tr tr' \<longleftrightarrow> (\<exists>acts. tr' = tr @ acts \<and> (\<forall>b c. ActInvoked b c \<notin> set acts))"

lemma no_starts_refl [simp]: "no_starts tr tr"
  by (simp add: no_starts_def)

lemma no_starts_trans: "no_starts tr tr1 \<Longrightarrow> no_starts tr1 tr2 \<Longrightarrow> no_starts tr tr2"
  by (auto simp: no_starts_def)

lemma commit_no_starts: "do_commit ctx tx w = (r, w') \<Longrightarrow> no_starts (w_trace w) (w_trace w')"
  by (auto simp: no_starts_def commit_trace split: rres.split)

lemma fail_no_starts: "no_starts (w_trace w) (w_trace (turn_fail ctx cx eid f w))"
  using settling_trace by (simp add: no_starts_def)

lemma cancel_no_starts: "no_starts (w_trace w) (w_trace (observe_and_cancel ctx cx eid me w))"
proof -
  have "no_starts (w_trace w) (w_trace (turn_fail ctx cx eid f w'))"
    if "do_commit ctx tx (on_shared cancellation_observed w) = (Err e, w')" for tx e f w'
    using no_starts_trans [OF commit_no_starts [OF that] fail_no_starts] by simp
  moreover have "no_starts (w_trace w) (w_trace w')"
    if "do_commit ctx tx (on_shared cancellation_observed w) = (r, w')" for tx r w'
    using commit_no_starts [OF that] by simp
  moreover have "no_starts (w_trace w) (w_trace (turn_fail ctx cx eid f (on_shared cancellation_observed w)))"
    for f using fail_no_starts [of "on_shared cancellation_observed w"] by simp
  ultimately show ?thesis
    by (auto simp: observe_and_cancel_def turn_cancel_def Let_def split: rres.split prod.split)
qed

lemma poll_cancel_no_starts:
  "is_cancel_requested env w = (b, w1) \<Longrightarrow>
    no_starts (w_trace w) (w_trace (observe_and_cancel ctx cx eid me w1))"
  using cancel_no_starts [of w1] by (simp only: poll_trace)

lemma poll_fail_no_starts:
  "is_cancel_requested env w = (b, w1) \<Longrightarrow> no_starts (w_trace w) (w_trace (turn_fail ctx cx eid f w1))"
  using fail_no_starts [of w1] by (simp only: poll_trace)

lemma completed_events_trace [simp]:
  "w_trace (fold (\<lambda>(index, call, rich). push (completed_event bid index call rich)) xs w) = w_trace w"
  by (induction xs arbitrary: w) (auto split: prod.split)

lemma commit_results_no_starts:
  assumes "commit_results env ctx cx eid bid rs w = (r, w')"
  shows "no_starts (w_trace w) (w_trace w')"
proof -
  obtain b w1 where p: "is_cancel_requested env w = (b, w1)" by fastforce
  show ?thesis
  proof (cases b)
    case True
    with assms p show ?thesis
      by (auto simp: commit_results_def intro: poll_cancel_no_starts [OF p])
  next
    case False
    let ?w2 = "set_phase (RunningToolBatch CommittingResults) w1"
    obtain cr w3 where c: "do_commit ctx (transaction_linear (cx_session_id cx) (cx_revision cx)
        (map (result_entry_of (sh_turn_id (w_shared ?w2)) bid) rs)) ?w2 = (cr, w3)" by fastforce
    have "no_starts (w_trace w) (w_trace w3)"
      using commit_no_starts [OF c] by (simp add: poll_trace [OF p])
    with assms p False c no_starts_trans [OF _ fail_no_starts] show ?thesis
      by (auto simp: commit_results_def Let_def split: rres.split_asm)
  qed
qed

text \<open>The calls a batch starts: a prefix of the batch, each once, in order.\<close>

definition starts_prefix ::
    "rstring \<Rightarrow> kernel_tool_call list \<Rightarrow> nat \<Rightarrow> ('f, 't) trace_action list \<Rightarrow> ('f, 't) trace_action list \<Rightarrow> bool"
where
  "starts_prefix bid calls i tr tr' \<longleftrightarrow>
     (\<exists>n \<le> length calls. i \<le> n \<and> no_starts (tr @ map (invoked bid calls) [i..<n]) tr')"

lemma starts_none: "no_starts tr tr' \<Longrightarrow> i \<le> length calls \<Longrightarrow> starts_prefix bid calls i tr tr'"
  by (auto simp: starts_prefix_def intro!: exI [of _ i])

lemma starts_prefix_cons:
  assumes "i < length calls" and "starts_prefix bid calls (Suc i) (tr @ [invoked bid calls i]) tr'"
  shows "starts_prefix bid calls i tr tr'"
proof -
  from assms(2) obtain n where n: "n \<le> length calls" "Suc i \<le> n"
    "no_starts ((tr @ [invoked bid calls i]) @ map (invoked bid calls) [Suc i..<n]) tr'"
    by (auto simp: starts_prefix_def)
  then have "[i..<n] = i # [Suc i..<n]" by (simp add: upt_conv_Cons)
  with n show ?thesis by (auto simp: starts_prefix_def intro!: exI [of _ n])
qed

lemma await_trace: "await_invoke env bid call w = (r, w') \<Longrightarrow>
    w_trace w' = w_trace w @ [ActInvoked bid (kcall_id call)]"
  by (auto simp: await_invoke_def Let_def poll_trace
      split: option.split_asm sum.split_asm prod.split_asm bool.split_asm)

lemma serial_loop_starts:
  "serial_loop env ctx cx eid bid calls rest index slots w = (r, w') \<Longrightarrow> drop index calls = rest \<Longrightarrow>
    index \<le> length calls \<Longrightarrow> starts_prefix bid calls index (w_trace w) (w_trace w')"
proof (induction rest arbitrary: index slots w)
  case Nil
  then show ?case by (auto intro: starts_none commit_results_no_starts)
next
  case (Cons call rest)
  have lt: "index < length calls" using Cons.prems(2) by (metis drop_all leI list.distinct(1))
  then have call: "calls ! index = call" "drop (Suc index) calls = rest"
    using Cons.prems(2) by (metis Cons_nth_drop_Suc list.inject)+
  obtain c w1 where p: "is_cancel_requested env w = (c, w1)" by fastforce
  let ?w = "publish_started bid call index (set_executing 1 index w1)"
  obtain wt w2 where aw: "await_invoke env bid call ?w = (wt, w2)" by fastforce
  have t2: "w_trace w2 = w_trace w @ [invoked bid calls index]"
    using await_trace [OF aw] call(1) by (simp add: invoked_def poll_trace [OF p])
  obtain c2 w3 where p2: "is_cancel_requested env w2 = (c2, w3)" by fastforce
  have t3: "w_trace w3 = w_trace w2" by (rule poll_trace [OF p2])
  note run = Cons.prems(1) [simplified serial_loop.simps Let_def p aw p2 prod.case]
  show ?case
  proof (cases c)
    case True
    then show ?thesis
      using run lt by (auto intro!: starts_none poll_cancel_no_starts [OF p])
  next
    case False
    have "starts_prefix bid calls (Suc index) (w_trace w2) (w_trace w')"
    proof (cases "\<exists>result. wt = WaitFinished (EndDone result)")
      case True
      with run False Cons.IH call(2) lt show ?thesis by auto
    next
      case other: False
      have "no_starts (w_trace w2) (w_trace w')"
        using run False other
        by (auto intro: poll_cancel_no_starts [OF p2] poll_fail_no_starts [OF p2] split: invoke_wait.split_asm tool_invoke_end.split_asm bool.split_asm)
      then show ?thesis using lt by (intro starts_none) simp_all
    qed
    then show ?thesis unfolding t2 by (rule starts_prefix_cons [OF lt])
  qed
qed

lemma tool_batch_run_starts:
  assumes "tool_batch_run env ctx cx eid bid calls limit w = (r, w')"
  shows "starts_prefix bid calls 0 (w_trace w) (w_trace w')"
proof (cases "max limit 1 = 1")
  case True
  with assms show ?thesis
    by (auto simp: tool_batch_run_def run_serial_def Let_def intro: serial_loop_starts)
next
  case False
  let ?l = "unat (max limit 1)"
  obtain ps w1 where loop: "parallel_loop env (cfg_tool_cancel_grace (ec_config ctx)) bid calls ?l
      (parallel_init calls) w = (ps, w1)" by fastforce
  obtain n where n: "n \<le> length calls" "w_trace w1 = w_trace w @ map (invoked bid calls) [0..<n]"
    using parallel_loop_inv [OF loop parallel_inv_init] by (auto simp: parallel_init_def)
  obtain c w2 where p: "is_cancel_requested env w1 = (c, w2)" by fastforce
  have results: "commit_results env ctx cx eid bid rs w2 = (r, w') \<Longrightarrow> no_starts (w_trace w1) (w_trace w')"
    for rs using commit_results_no_starts poll_trace [OF p] by metis
  have "no_starts (w_trace w1) (w_trace w')"
    using assms False loop p results
    by (auto simp: tool_batch_run_def run_parallel_def Let_def
        intro: cancel_no_starts fail_no_starts poll_cancel_no_starts [OF p]
        split: option.split_asm if_split_asm)
  with n show ?thesis by (auto simp: starts_prefix_def)
qed

section \<open>Results in source order\<close>

lemma serial_loop_results:
  "serial_loop env ctx cx eid bid calls rest index slots w = (Some (cx', rs), w') \<Longrightarrow>
    length slots = length calls \<Longrightarrow> drop index calls = rest \<Longrightarrow>
    list_all is_done_slot (take index slots) \<Longrightarrow> map fst rs = calls"
proof (induction rest arbitrary: index slots w)
  case Nil
  then have "list_all is_done_slot slots" by simp
  with Nil show ?case
    using done_results_calls commit_results_cx by fastforce
next
  case (Cons call rest)
  have lt: "index < length calls" using Cons.prems(3) by (metis drop_all leI list.distinct(1))
  then have rest: "drop (Suc index) calls = rest"
    using Cons.prems(3) by (metis Cons_nth_drop_Suc list.inject)
  obtain result w2 where "serial_loop env ctx cx eid bid calls rest (Suc index)
      (slots[index := SlotDone result]) w2 = (Some (cx', rs), w')"
    using Cons.prems(1)
    by (auto simp: Let_def split: prod.split_asm bool.split_asm invoke_wait.split_asm tool_invoke_end.split_asm)
  from Cons.IH [OF this] Cons.prems(2,4) rest lt show ?case
    by (simp add: list_all_take_Suc)
qed

lemma tool_batch_run_results:
  assumes "tool_batch_run env ctx cx eid bid calls limit w = (Some (cx', rs), w')"
  shows "map fst rs = calls"
proof (cases "max limit 1 = 1")
  case True
  with assms have "serial_loop env ctx cx eid bid calls calls 0 (map (\<lambda>_. SlotUnstarted) calls) w
      = (Some (cx', rs), w')"
    by (simp add: tool_batch_run_def run_serial_def Let_def)
  then show ?thesis by (rule serial_loop_results) simp_all
next
  case False
  let ?l = "unat (max limit 1)"
  obtain ps w1 where loop: "parallel_loop env (cfg_tool_cancel_grace (ec_config ctx)) bid calls ?l
      (parallel_init calls) w = (ps, w1)" by fastforce
  from assms False loop obtain ps1 w2 where r: "ps = Some ps1" "list_all is_done_slot (ps_slots ps1)"
    "commit_results env ctx cx eid bid (done_results calls (ps_slots ps1)) w2 = (Some (cx', rs), w')"
    by (auto simp: tool_batch_run_def run_parallel_def Let_def unfinished_iff
        split: option.split_asm if_split_asm prod.split_asm)
  have "length (ps_slots ps1) = length calls"
    using parallel_loop_inv [OF loop parallel_inv_init] r(1) by (simp add: parallel_inv_def)
  with r(2,3) show ?thesis using done_results_calls commit_results_cx by fastforce
qed

text \<open>The results of a completed batch are the last transaction of its trace.\<close>

definition committed_results where
  "committed_results cx bid rs w \<longleftrightarrow>
     last (w_trace w) = ActCommitted (transaction_linear (cx_session_id cx) (cx_revision cx)
       (map (result_entry_of (sh_turn_id (w_shared w)) bid) rs))"

lemma completed_events_turn:
  "sh_turn_id (w_shared (fold (\<lambda>(index, call, rich). push (completed_event bid index call rich)) xs w))
    = sh_turn_id (w_shared w)"
  by (induction xs arbitrary: w) (auto simp: push_def on_shared_def)

lemma commit_results_commit:
  assumes "commit_results env ctx cx eid bid rs w = (Some (cx', rs'), w')"
  shows "committed_results cx bid rs' w'"
proof -
  obtain w1 where p: "is_cancel_requested env w = (False, w1)"
    using assms by (auto simp: commit_results_def split: prod.split_asm bool.split_asm)
  define w2 where "w2 = set_phase (RunningToolBatch CommittingResults) w1"
  define tx where "tx = transaction_linear (cx_session_id cx) (cx_revision cx)
    (map (result_entry_of (sh_turn_id (w_shared w2)) bid) rs)"
  obtain c w3 where c: "do_commit ctx tx w2 = (Ok c, w3)" "rs' = rs"
    "w' = fold (\<lambda>(index, call, rich). push (completed_event bid index call rich)) (enumerate 0 rs) w3"
    using assms p by (auto simp: commit_results_def Let_def w2_def tx_def
        split: prod.split_asm rres.split_asm)
  have "w_trace w' = w_trace w2 @ [ActCommitted tx]" using commit_trace [OF c(1)] by (simp add: c(3))
  moreover have "sh_turn_id (w_shared w') = sh_turn_id (w_shared w3)"
    unfolding c(3) by (rule completed_events_turn)
  moreover have "w_shared w3 = w_shared w2" using c(1) by (auto simp: do_commit_def split: prod.split_asm)
  ultimately show ?thesis by (simp add: committed_results_def tx_def c(2))
qed

lemma serial_loop_commit:
  "serial_loop env ctx cx eid bid calls rest index slots w = (Some (cx', rs), w') \<Longrightarrow>
    committed_results cx bid rs w'"
  by (induction rest arbitrary: index slots w)
    (auto simp: Let_def commit_results_commit
      split: prod.split_asm bool.split_asm invoke_wait.split_asm tool_invoke_end.split_asm)

lemma tool_batch_run_commit:
  "tool_batch_run env ctx cx eid bid calls limit w = (Some (cx', rs), w') \<Longrightarrow>
    last (w_trace w') = ActCommitted (transaction_linear (cx_session_id cx) (cx_revision cx)
      (map (result_entry_of (sh_turn_id (w_shared w')) bid) rs))"
  unfolding committed_results_def [symmetric]
  by (auto simp: tool_batch_run_def run_serial_def run_parallel_def Let_def commit_results_commit
      dest: serial_loop_commit split: if_split_asm prod.split_asm option.split_asm)

section \<open>The states of a parallel batch\<close>

text \<open>The states and worlds the iterations of the loop pass through, from the world the batch
  starts in: each operation of the loop in turn.\<close>

inductive batch_state ::
    "('f, 't) environment \<Rightarrow> nat \<Rightarrow> rstring \<Rightarrow> kernel_tool_call list \<Rightarrow> nat \<Rightarrow> ('s, 'f, 't) world
      \<Rightarrow> parallel_state \<Rightarrow> ('s, 'f, 't) world \<Rightarrow> bool"
  for env grace bid calls limit w0 where
    batch_init: "batch_state env grace bid calls limit w0 (parallel_init calls) w0"
  | batch_observe: "batch_state env grace bid calls limit w0 ps w \<Longrightarrow>
      observe_cancel env grace ps w = (ps', w') \<Longrightarrow> batch_state env grace bid calls limit w0 ps' w'"
  | batch_start: "batch_state env grace bid calls limit w0 ps w \<Longrightarrow>
      start_calls env bid calls limit ps w = (ps', w') \<Longrightarrow> batch_state env grace bid calls limit w0 ps' w'"
  | batch_finish: "batch_state env grace bid calls limit w0 ps w \<Longrightarrow> ps_in_flight ps \<noteq> [] \<Longrightarrow>
      next_finished env ps w = (NextReady index answer, ps1, w1) \<Longrightarrow>
      on_finished env index answer ps1 w1 = (ps', w') \<Longrightarrow>
      batch_state env grace bid calls limit w0 ps'
        (set_executing (length (ps_in_flight ps')) (completed_count (ps_slots ps')) w')"

lemma batch_state_inv: "batch_state env grace bid calls limit w0 ps w \<Longrightarrow> parallel_inv calls limit ps"
proof (induction rule: batch_state.induct)
  case batch_init
  show ?case by (rule parallel_inv_init)
next
  case (batch_observe ps w ps' w')
  then show ?case using observe_cancel_inv [OF batch_observe(2)] by simp
next
  case (batch_start ps w ps' w')
  then show ?case using start_calls_inv [OF batch_start(2)] by simp
next
  case (batch_finish ps w index answer ps1 w1 ps' w')
  show ?case using finish_one_inv [OF batch_finish(5,2,3,4)] by simp
qed

end
