(* ===== verification/Engine_Cancel.thy ===== *)
theory Engine_Cancel
  imports Engine_Batches
begin

text \<open>
  Cancelling a batch half-way: the marks for finished, stopped and unstarted calls are ones the
  session accepts, so the operation settles as cancelled and never as a failure.
\<close>

section \<open>Marks\<close>

text \<open>Calls start in order: the unstarted slots are a suffix.\<close>

definition started_prefix :: "batch_slot list \<Rightarrow> bool" where
  "started_prefix slots \<longleftrightarrow>
     (\<exists>n. list_all (\<lambda>slot. slot \<noteq> SlotUnstarted) (take n slots)
        \<and> list_all (\<lambda>slot. slot = SlotUnstarted) (drop n slots))"

definition slot_outcome :: "kernel_tool_call \<Rightarrow> batch_slot \<Rightarrow> tool_result_outcome" where
  "slot_outcome call slot =
     (case slot of
        SlotDone rich \<Rightarrow> sresult_outcome (session_result call (rich_result rich))
      | SlotStopped \<Rightarrow> SInterrupted
      | SlotUnstarted \<Rightarrow> SCancelled)"

definition slot_result :: "kernel_tool_call \<Rightarrow> batch_slot \<Rightarrow> session_tool_result" where
  "slot_result call slot =
     (case slot of
        SlotDone rich \<Rightarrow> session_result call (rich_result rich)
      | SlotStopped \<Rightarrow> session_result_interrupted (kcall_id call)
      | SlotUnstarted \<Rightarrow> session_result_cancelled (kcall_id call))"

lemma cancellation_marks:
  "fst (cancellation_batch ti bid calls slots) =
    map (ToolResult ti bid) (map (\<lambda>(call, slot). slot_result call slot) (zip calls slots))"
  by (auto simp: cancellation_batch_def cancellation_mark_def slot_result_def split: batch_slot.split)

lemma slot_result_simps [simp]:
  "sresult_call_id (slot_result call slot) = kcall_id call"
  "sresult_outcome (slot_result call slot) = slot_outcome call slot"
  by (simp_all add: slot_result_def slot_outcome_def session_result_interrupted_def
      session_result_cancelled_def split: batch_slot.split)

lemma slot_outcome_cancelled: "slot_outcome call slot = SCancelled \<longleftrightarrow> slot = SlotUnstarted"
  by (auto simp: slot_outcome_def session_result_def session_result_success_def session_result_error_def
      split: batch_slot.split tool_result.split)

lemma started_prefix_marks:
  assumes "started_prefix slots" and "length slots = length calls" and "reason \<noteq> ReasonAbandoned"
  shows "marks_allowed (Some reason) (map (\<lambda>(call, slot). slot_outcome call slot) (zip calls slots))"
proof -
  let ?marks = "map (\<lambda>(call, slot). slot_outcome call slot) (zip calls slots)"
  from assms(1) obtain n where n: "\<forall>slot \<in> set (take n slots). slot \<noteq> SlotUnstarted"
    "\<forall>slot \<in> set (drop n slots). slot = SlotUnstarted"
    by (auto simp: started_prefix_def list_all_iff)
  have before: "\<forall>m \<in> set (take n ?marks). m \<noteq> SCancelled"
    using n(1) by (auto simp: take_map take_zip slot_outcome_cancelled dest: set_zip_rightD)
  have from_n: "\<forall>m \<in> set (drop n ?marks). m = SCancelled"
    using n(2) by (auto simp: drop_map drop_zip slot_outcome_cancelled dest: set_zip_rightD)
  have "list_all (\<lambda>m. m = SCancelled) (drop first ?marks)"
    if "position (\<lambda>m. m = SCancelled) ?marks = Some first" for first
  proof -
    have first: "first < length ?marks" "?marks ! first = SCancelled"
      using position_nth [OF that] by blast+
    have "n \<le> first"
    proof (rule ccontr)
      assume "\<not> n \<le> first"
      then have "?marks ! first \<in> set (take n ?marks)"
        using first(1) by (metis in_set_conv_nth length_take min_less_iff_conj not_le nth_take)
      with before first(2) show False by auto
    qed
    then have "set (drop first ?marks) \<subseteq> set (drop n ?marks)" by (rule set_drop_subset_set_drop)
    with from_n show ?thesis by (auto simp: list_all_iff)
  qed
  then show ?thesis
    using assms(3) by (cases reason) (auto simp: marks_allowed_def Let_def split: option.split)
qed

lemma parallel_started_prefix:
  assumes "parallel_inv calls limit ps" and "ps_in_flight ps = []" and "ps_port_error ps = None"
  shows "started_prefix (ps_slots ps)"
  unfolding started_prefix_def list_all_length
  using assms by (intro exI [of _ "ps_next ps"]) (auto simp: parallel_inv_def)

section \<open>Cancelling settles as cancelled\<close>

context available_session_store
begin

lemma cancel_entries_batch:
  assumes "sh_turn_id sh = ti" and "sh_operation_id sh = oi"
  shows "cancel_entries ctx sh marks = marks @
    [TurnTerminated ti (TurnCancelled (shared_cancel_reason sh)),
     OperationSettled oi (OpCancelled (shared_cancel_reason sh))
       (map_option session_usage (sh_last_usage sh)) (Some (ec_generation_choice ctx))]"
  using assms by (simp add: cancel_entries_def Let_def)

lemma batch_cancel_accepted:
  assumes store: "uses_store ctx view commit" and ready: "ready oi ti cx w"
    and state: "cx_state cx = ExpectingToolBatchCompletion e b r mx tid tr calls"
    and slots: "length slots = length calls" "started_prefix slots"
    and reason: "shared_cancel_reason (w_shared w) \<noteq> ReasonAbandoned"
  obtains c w' where "do_commit ctx (transaction_linear (cx_session_id cx) (cx_revision cx)
    (cancel_entries ctx (w_shared w) (fst (cancellation_batch ti b calls slots)))) w = (Ok c, w')"
    "w_shared w' = w_shared w"
proof -
  let ?lc = "sp_lifecycle (contents (w_store w) (cx_session_id cx))"
  let ?rs = "map (\<lambda>(call, slot). slot_result call slot) (zip calls slots)"
  let ?reason = "shared_cancel_reason (w_shared w)"
  from ready have live: "engine_live store_inv oi ti w"
    and rev: "cx_revision cx = sp_revision (contents (w_store w) (cx_session_id cx))"
    by (simp_all add: engine_ready_def)
  have ids: "sh_turn_id (w_shared w) = ti" "sh_operation_id (w_shared w) = oi"
    using live by (simp_all add: engine_live_def)
  define us where "us = map_option session_usage (sh_last_usage (w_shared w))"
  define g where "g = Some (ec_generation_choice ctx)"
  define ks where "ks = [TurnTerminated ti (TurnCancelled ?reason), OperationSettled oi (OpCancelled ?reason) us g]"
  have entries: "cancel_entries ctx (w_shared w) (fst (cancellation_batch ti b calls slots)) =
      map (ToolResult ti b) ?rs @ ks"
    using cancel_entries_batch [OF ids] by (simp add: cancellation_marks ks_def us_def g_def)
  from ready state obtain bs bt where sim: "live_turn ?lc oi ti True (bs @ [bt])"
    "tb_batch_id bt = b" "tb_results bt = []" "tb_call_ids bt = map kcall_id calls"
    "distinct (map kcall_id calls)" "calls \<noteq> []"
    by (auto simp: engine_ready_def)
  have rs: "map sresult_call_id ?rs = map kcall_id calls"
    using slots(1) by (intro nth_equalityI) auto
  have ne: "?rs \<noteq> []" using sim(6) slots(1) by (cases calls; cases slots) auto
  have marks: "marks_allowed (cancel_reason_of ti ks) (map sresult_outcome ?rs)"
  proof -
    have outcomes: "map sresult_outcome ?rs = map (\<lambda>(call, slot). slot_outcome call slot) (zip calls slots)"
      by auto
    show ?thesis
      unfolding outcomes using started_prefix_marks [OF slots(2,1) reason]
      by (simp add: ks_def cancel_reason_of_def)
  qed
  have valid: "validate_transaction ?lc (map (ToolResult ti b) ?rs @ ks) = Ok ()"
    by (rule validate_results [OF sim(1,2,3)])
      (use rs sim(4) ne marks in \<open>simp_all add: ks_def result_entries_def result_entry_def
        List.map_filter_simps assistant_or_batch_def\<close>)
  obtain lc1 where lc1: "rfold lifecycle_accept (map (ToolResult ti b) ?rs) ?lc = Ok lc1"
    "live_turn lc1 oi ti True (bs @ [bt\<lparr>tb_results := tb_call_ids bt\<rparr>])"
    using accept_results [OF sim(1,2), of ?rs] sim(3,4,5) rs by auto
  obtain lc2 where "rfold lifecycle_accept ks lc1 = Ok lc2"
    using accept_cancelled [OF lc1(2) rounds_done_results, of ?reason us g] by (auto simp: ks_def)
  then have fold: "rfold lifecycle_accept (map (ToolResult ti b) ?rs @ ks) ?lc = Ok lc2"
    using lc1(1) by (simp add: rfold_append)
  have some: "map (ToolResult ti b) ?rs @ ks \<noteq> []" by (simp add: ks_def)
  have plain: "\<forall>k \<in> set (map (ToolResult ti b) ?rs @ ks). plain_entry k"
    by (auto simp: plain_entry_def ks_def)
  obtain c w' where "do_commit ctx (transaction_linear (cx_session_id cx) (cx_revision cx)
      (map (ToolResult ti b) ?rs @ ks)) w = (Ok c, w')" "w_shared w' = w_shared w"
    by (rule do_commit_linear [OF store live rev some plain valid fold])
  then show thesis by (rule that [unfolded entries])
qed

text \<open>A batch cancelled by the user, the caller's timeout or a shutdown settles as cancelled.\<close>

lemma batch_cancel_settles:
  assumes store: "uses_store ctx view commit" and ready: "ready oi ti cx w"
    and state: "cx_state cx = ExpectingToolBatchCompletion e b r mx tid tr calls"
    and slots: "length slots = length calls" "started_prefix slots"
    and reason: "shared_cancel_reason (w_shared w) \<noteq> ReasonAbandoned"
  defines "w' \<equiv> observe_and_cancel ctx cx e (cancellation_batch ti b calls slots) w"
  shows "settled_as (sp_lifecycle (contents (w_store w') (cx_session_id cx))) oi
      (OpCancelled (shared_cancel_reason (w_shared w')))
    \<and> sh_settlement_revision (w_shared w') = Some (Committed (sp_revision (contents (w_store w') (cx_session_id cx))))
    \<and> sh_phase (w_shared w') = Settled StCancelled"
proof -
  let ?w = "on_shared cancellation_observed w"
  have eid: "e = ks_effect_id (cx_state cx)" using state by simp
  have truth: "truthful oi (cx_session_id cx) w'"
    unfolding w'_def by (rule ready_cancel [OF store ready eid list_all_marks])
  have r1: "ready oi ti cx ?w" using engine_ready_quiet [OF ready quiet_cancellation_observed] .
  have same: "shared_cancel_reason (w_shared ?w) = shared_cancel_reason (w_shared w)"
    by (simp add: shared_cancel_reason_def cancellation_observed_def)
  obtain c w1 where c: "do_commit ctx (transaction_linear (cx_session_id cx) (cx_revision cx)
      (cancel_entries ctx (w_shared ?w) (fst (cancellation_batch ti b calls slots)))) ?w = (Ok c, w1)"
    "w_shared w1 = w_shared ?w"
    by (rule batch_cancel_accepted [OF store r1 state slots]) (use reason same in simp_all)
  obtain t where "transition (cx_state cx) (CancelRequested e) = Ok t"
    using state by (simp add: transition_def kernel_cancel_def Let_def)
  with c(1) have w': "w' = on_shared (cancel_committed (commit_revision c))
      (fold push (snd (cancellation_batch ti b calls slots)) w1)"
    by (simp add: w'_def observe_and_cancel_def turn_cancel_def Let_def)
  have "quiet w1 (fold push (snd (cancellation_batch ti b calls slots)) w1)" by (rule quiet_fold_push)
  moreover have "\<not> settled_world w1"
    using r1 c(2) by (simp add: engine_ready_def engine_live_def settled_world_def)
  ultimately have "\<not> is_settled_phase (sh_phase (w_shared (fold push (snd (cancellation_batch ti b calls slots)) w1)))"
    by (simp add: quiet_def settled_world_def)
  from cancel_committed_reports [OF this] have "sh_phase (w_shared w') = Settled StCancelled"
    by (simp add: w' reports_def)
  with truth show ?thesis
    by (auto simp: truthfully_settled_def reports_def) (metis operation_status.distinct status_of.elims)+
qed

end

end
