(* ===== verification/Engine_Facts.thy ===== *)
theory Engine_Facts
  imports Engine_Compaction Session_Context_Spec Session_Accept
begin

text \<open>
  The pure parts of the engine: the retry delay against plain arithmetic, the message list a provider
  is given, the compaction boundary against the rules of the session, and the mappings between the
  three vocabularies of messages.
\<close>

section \<open>Retry delays\<close>

text \<open>The delay before jitter, in unbounded arithmetic.\<close>

definition backoff_bound :: "recovery_config \<Rightarrow> u32 \<Rightarrow> nat" where
  "backoff_bound rc retry =
     min (unat (rc_backoff_base_ms rc) * 2 ^ min (unat retry - 1) 16)
       (max (unat (rc_backoff_max_ms rc)) (unat (rc_backoff_base_ms rc)))"

lemma unat_u64_less: "unat (x :: u64) < 2 ^ 64"
  using unsigned_less [of x] by simp

lemma unat_max_u64: "unat (max x y :: u64) = max (unat x) (unat y)"
  by (auto simp: max_def word_le_nat_alt)

lemma unat_min_u64: "unat (min x y :: u64) = min (unat x) (unat y)"
  by (auto simp: min_def word_le_nat_alt)

lemma unat_saturating_mul: "unat (saturating_mul a b) = min (unat a * unat b) (2 ^ 64 - 1)"
proof (cases "unat a * unat b < 2 ^ 64")
  case True
  then have "unat (a * b) = unat a * unat b" by (simp add: unat_word_ariths)
  with True show ?thesis by (simp add: saturating_mul_def)
next
  case False
  have "unat (- 1 :: u64) = 2 ^ 64 - 1" by (simp add: unsigned_minus_1_eq_mask mask_eq_exp_minus_1)
  with False show ?thesis by (simp add: saturating_mul_def)
qed

lemma unat_pow2_u64:
  assumes "n \<le> 16"
  shows "unat ((2 :: u64) ^ n) = 2 ^ n"
proof -
  have "(2 :: nat) ^ n < 2 ^ 64" using assms by (intro power_strict_increasing) simp_all
  moreover have "(2 :: u64) ^ n = of_nat (2 ^ n)" by simp
  ultimately show ?thesis
    using assms by (simp add: unsigned_of_nat take_bit_nat_eq_self del: of_nat_power)
qed

lemma backoff_bounded:
  "unat (min (saturating_mul (rc_backoff_base_ms rc) (2 ^ min (unat retry - 1) 16))
      (max (rc_backoff_max_ms rc) (rc_backoff_base_ms rc))) = backoff_bound rc retry"
proof -
  have cap: "max (unat (rc_backoff_max_ms rc)) (unat (rc_backoff_base_ms rc)) \<le> 2 ^ 64 - 1"
    using unat_u64_less [of "rc_backoff_max_ms rc"] unat_u64_less [of "rc_backoff_base_ms rc"] by simp
  show ?thesis
    unfolding unat_min_u64 unat_max_u64 unat_saturating_mul backoff_bound_def
    using cap by (simp add: unat_pow2_u64 min.assoc min_absorb2)
qed

lemma jitter_offset:
  assumes "jitter \<noteq> 0"
  shows "unat (ucast (ucast (v mod max jitter 1 :: u64) :: u32) :: u64) < unat jitter"
proof -
  have "max jitter 1 = jitter"
    using assms by (simp add: max_def word_le_nat_alt) (metis One_nat_def Suc_leI le_antisym
        unat_1 unat_gt_0 word_unat_eq_iff)
  then have lt: "unat (v mod max jitter 1) < unat jitter"
    using assms by (simp add: unat_mod) (metis mod_less_divisor unat_gt_0)
  have "unat (ucast (ucast (v mod max jitter 1) :: u32) :: u64) = unat (v mod max jitter 1) mod 2 ^ 32"
    by (simp add: unsigned_ucast_eq take_bit_eq_mod unat_mod)
  also have "\<dots> \<le> unat (v mod max jitter 1)" by simp
  finally show ?thesis using lt by simp
qed

lemma backoff_delay_range:
  "backoff_bound rc retry - backoff_bound rc retry div 4 \<le> unat (backoff_delay rc retry v)
    \<and> unat (backoff_delay rc retry v) \<le> backoff_bound rc retry"
proof -
  define bounded where "bounded = min (saturating_mul (rc_backoff_base_ms rc) (2 ^ min (unat retry - 1) 16))
      (max (rc_backoff_max_ms rc) (rc_backoff_base_ms rc))"
  have b: "unat bounded = backoff_bound rc retry"
    unfolding bounded_def by (rule backoff_bounded)
  have quarter: "unat (bounded div 4) = backoff_bound rc retry div 4"
    using b by (simp add: unat_div)
  show ?thesis
  proof (cases "bounded div 4 = 0")
    case True
    then have "backoff_delay rc retry v = bounded"
      by (simp add: backoff_delay_def bounded_def Let_def)
    with b show ?thesis by simp
  next
    case False
    define off where "off = (ucast (ucast (v mod max (bounded div 4) 1) :: u32) :: u64)"
    have off: "unat off < unat (bounded div 4)"
      unfolding off_def by (rule jitter_offset [OF False])
    then have le: "unat off \<le> unat bounded" using quarter b by simp
    have "backoff_delay rc retry v = bounded - off"
      using False by (simp add: backoff_delay_def bounded_def off_def Let_def)
    then have "unat (backoff_delay rc retry v) = unat bounded - unat off"
      using le by (simp add: unat_sub word_le_nat_alt)
    with b quarter off show ?thesis by simp
  qed
qed

section \<open>The message list of a model call\<close>

fun message_calls :: "model_assistant_block list \<Rightarrow> rstring list" where
  "message_calls [] = []"
| "message_calls (MText _ # bs) = message_calls bs"
| "message_calls (MToolCall c # bs) = mcall_id c # message_calls bs"

text \<open>What providers demand: after a message with tool calls, exactly one result per call, in order,
  before anything else; and no other results.\<close>

fun paired :: "rstring list \<Rightarrow> model_message list \<Rightarrow> bool" where
  "paired pending [] \<longleftrightarrow> pending = []"
| "paired pending (MmToolResult i _ # ms) \<longleftrightarrow>
     (case pending of [] \<Rightarrow> False | j # rest \<Rightarrow> i = j \<and> paired rest ms)"
| "paired pending (MmAssistant blocks # ms) \<longleftrightarrow> pending = [] \<and> paired (message_calls blocks) ms"
| "paired pending (_ # ms) \<longleftrightarrow> pending = [] \<and> paired [] ms"

text \<open>What a session guarantees of its own messages: a result answers the first unanswered call of
  the batch before it. The last calls of a batch may be missing.\<close>

fun answers_in_order :: "rstring list \<Rightarrow> context_message list \<Rightarrow> bool" where
  "answers_in_order pending [] \<longleftrightarrow> True"
| "answers_in_order pending (CmToolResult i _ # ms) \<longleftrightarrow>
     (case pending of [] \<Rightarrow> False | j # rest \<Rightarrow> i = j \<and> answers_in_order rest ms)"
| "answers_in_order pending (CmAssistantToolCalls _ blocks # ms) \<longleftrightarrow>
     answers_in_order (tool_call_ids_from_session blocks) ms"
| "answers_in_order pending (CmAssistant blocks # ms) \<longleftrightarrow>
     tool_call_ids_from_session blocks = [] \<and> answers_in_order [] ms"
| "answers_in_order pending (_ # ms) \<longleftrightarrow> answers_in_order [] ms"

lemma message_calls_from_session [simp]:
  "message_calls (model_blocks_from_session bs) = tool_call_ids_from_session bs"
proof (induction bs)
  case (Cons b bs)
  then show ?case
    by (cases b) (simp_all add: model_blocks_from_session_def tool_call_ids_from_session_def
        model_call_of_session_def List.map_filter_simps)
qed (simp add: model_blocks_from_session_def tool_call_ids_from_session_def List.map_filter_simps)

lemma paired_flush:
  "paired pending (flush_interrupted_placeholders pending @ ms) = paired [] ms"
  by (induction pending) (simp_all add: flush_interrupted_placeholders_def)

lemma paired_flush_end: "paired pending (flush_interrupted_placeholders pending)"
  using paired_flush [of pending "[]"] by simp

lemma context_messages_loop_paired:
  "answers_in_order pending ms \<Longrightarrow> paired pending (context_messages_loop ms pending)"
proof (induction pending ms rule: answers_in_order.induct)
  case (2 pending i oc ms)
  then show ?case by (cases pending) simp_all
qed (simp_all add: paired_flush paired_flush_end)

section \<open>Mapping round trips\<close>

lemma kernel_parts_roundtrip: "runtime_parts_from_kernel (kernel_user_parts ps) = ps"
  by (induction ps) (auto simp: runtime_parts_from_kernel_def kernel_user_parts_def
      runtime_part_from_kernel_def kernel_user_part_def split: runtime_part.split)

lemma session_parts_roundtrip:
  "runtime_parts_from_session (session_user_parts ps) = runtime_parts_from_kernel ps"
  by (induction ps) (auto simp: runtime_parts_from_session_def session_user_parts_def
      runtime_parts_from_kernel_def runtime_part_from_session_def session_user_part_of_def
      runtime_part_from_kernel_def split: user_part.split)

lemma blocks_roundtrip: "model_blocks_from_kernel (kernel_blocks_from_model bs) = bs"
  by (induction bs) (auto simp: model_blocks_from_kernel_def kernel_blocks_from_model_def
      model_call_of_kernel_def kernel_call_of_model_def split: model_assistant_block.split)

lemma session_blocks_roundtrip:
  "model_blocks_from_session (map session_block bs) = model_blocks_from_kernel bs"
  by (induction bs) (auto simp: model_blocks_from_session_def model_blocks_from_kernel_def
      session_block_def model_call_of_session_def model_call_of_kernel_def split: assistant_block.split)

lemma result_roundtrip:
  "model_outcome_of_session (sresult_outcome (session_result call r)) =
    model_outcome_of_kernel (kresult_outcome (kernel_result call r))"
  by (simp add: session_result_def kernel_result_def session_result_success_def
      session_result_error_def kernel_result_success_def kernel_result_error_def
      model_outcome_of_session_def model_outcome_of_kernel_def split: tool_result.split)

section \<open>Compaction boundaries\<close>

lemma select_boundary_Some:
  assumes "select_boundary v k = Some covers"
  obtains i where "i < length (view_settled_turn_boundaries v)"
    "view_settled_turn_boundaries v ! i = covers"
    "length (view_settled_turn_boundaries v) - Suc i = unat k"
    "\<And>p. view_latest_compaction_boundary v = Some p \<Longrightarrow>
      \<exists>j < i. view_settled_turn_boundaries v ! j = p"
proof -
  let ?b = "view_settled_turn_boundaries v"
  let ?i = "length ?b - unat k - 1"
  have len: "unat k < length ?b" and eq: "?b ! ?i = covers"
    and prev: "\<And>p. view_latest_compaction_boundary v = Some p \<Longrightarrow>
      \<exists>j. position (\<lambda>e. e = p) ?b = Some j \<and> j < ?i"
    using assms by (auto simp: select_boundary_def Let_def split: if_split_asm option.split_asm)
  show thesis
  proof (rule that [of ?i])
    show "\<exists>j < ?i. ?b ! j = p" if p: "view_latest_compaction_boundary v = Some p" for p
    proof -
      obtain j where "position (\<lambda>e. e = p) ?b = Some j" "j < ?i" using prev [OF p] by blast
      with position_nth show ?thesis by blast
    qed
  qed (use len eq in auto)
qed

lemma settled_indices:
  obtains S where "map entry_id (filter is_settled es) = map (\<lambda>i. entry_id (es ! i)) S"
    "sorted S" "distinct S" "\<forall>i \<in> set S. i < length es \<and> is_settled (es ! i)"
proof -
  let ?S = "filter (\<lambda>i. is_settled (es ! i)) [0..<length es]"
  have "filter is_settled es = map (\<lambda>i. es ! i) ?S"
    by (metis (no_types, lifting) comp_def filter_cong filter_map map_nth)
  then show thesis
    by (intro that [of ?S]) (auto simp: sorted_wrt_filter)
qed

text \<open>The boundary the engine selects is one the session accepts.\<close>

lemma selected_boundary_accepted:
  assumes "context_of es cp" and d: "distinct (map entry_id es)"
    and bounds: "view_settled_turn_boundaries v = settled_boundary_ids cp"
    and latest: "view_latest_compaction_boundary v = latest_compaction_boundary cp"
    and sel: "select_boundary v k = Some covers" and "summary \<noteq> []"
  shows "\<exists>cp'. accept_compaction summary covers cp = Ok cp'"
proof -
  let ?b = "view_settled_turn_boundaries v"
  obtain S where S: "map entry_id (filter is_settled es) = map (\<lambda>i. entry_id (es ! i)) S"
    "sorted S" "distinct S" "\<forall>i \<in> set S. i < length es \<and> is_settled (es ! i)"
    by (rule settled_indices)
  have b: "?b = map (\<lambda>i. entry_id (es ! i)) S"
    using context_of_boundary_ids [OF assms(1) refl] bounds S(1) by simp
  obtain i where i: "i < length ?b" "?b ! i = covers"
    "\<And>p. view_latest_compaction_boundary v = Some p \<Longrightarrow> \<exists>j < i. ?b ! j = p"
    using select_boundary_Some [OF sel] by metis
  have iS: "i < length S" "entry_id (es ! (S ! i)) = covers" using i(1,2) b by auto
  have S_len: "S ! j < length es" if "j < length S" for j using S(4) that by auto
  have inj: "m = n" if "m < length es" "n < length es" "entry_id (es ! m) = entry_id (es ! n)" for m n
    using d that by (metis length_map nth_eq_iff_index_eq nth_map)
  have "covers \<in> set (map fst (boundaries_of es))"
    using iS S(4) unfolding keys_boundaries_of S(1) by force
  then obtain sb where "map_of (boundaries_of es) covers = Some sb"
    by (cases "map_of (boundaries_of es) covers") (auto simp: map_of_eq_None_iff)
  then have sb: "hm_get (cp_settled_boundaries cp) covers = Some sb"
    using assms(1) by (simp add: context_of_def hm_get_def)
  then obtain m where m: "m < length es" "entry_id (es ! m) = covers" "sb = boundary_at es m"
    using boundaries_of_get [OF d, of covers sb] assms(1) by (auto simp: context_of_def)
  have mi: "m = S ! i" using inj m(1,2) S_len iS by metis
  have "sb_entry_ordinal (cs_boundary c) < sb_entry_ordinal sb" if c: "cp_latest_compaction cp = Some c" for c
  proof -
    obtain n where n: "n < length es" "entry_id (es ! n) = cs_covers_up_to c" "cs_boundary c = boundary_at es n"
      using assms(1) c by (auto simp: context_of_def)
    obtain j where j: "j < i" "?b ! j = cs_covers_up_to c"
      using i(3) [of "cs_covers_up_to c"] latest c by (auto simp: latest_compaction_boundary_def)
    then have "n = S ! j" using inj [OF n(1) S_len [of j]] n(2) iS(1) b by auto
    moreover have "S ! j < S ! i"
      using S(2,3) j(1) iS(1) by (metis nth_eq_iff_index_eq order.strict_trans order_le_less sorted_nth_mono less_irrefl)
    ultimately show ?thesis by (simp add: n(3) m(3) mi boundary_at_def)
  qed
  then show ?thesis
    using sb assms(6) by (fastforce simp: accept_compaction_def Let_def split: option.split)
qed

end
