(* ===== verification/Engine_Demo.thy ===== *)
theory Engine_Demo
  imports Engine_Durable
begin

text \<open>
  A small concrete agent for the witnesses: the in-memory store, a model that asks for two tool calls
  and then answers, tools that succeed, and users who cancel or do not.
\<close>

definition demo_config :: "u32 \<Rightarrow> nat runtime_config" where
  "demo_config parallel =
     \<lparr>cfg_system_prompt = lit ''sys'', cfg_model_target = lit ''m'',
      cfg_generation = \<lparr>gcfg_max_output_tokens = 16, gcfg_temperature = 0,
        gcfg_reasoning_effort = None, gcfg_tool_choice = ChoiceAuto\<rparr>,
      cfg_max_tool_rounds = 2, cfg_max_parallel_tool_calls = parallel, cfg_operation_timeout = None,
      cfg_tool_cancel_grace = 5,
      cfg_compaction = \<lparr>cc_context_budget = None, cc_auto_threshold = 0, cc_keep_recent_turns = 1,
        cc_estimate_bytes_per_token = 4\<rparr>,
      cfg_recovery = \<lparr>rc_enabled = True, rc_max_retries = 2, rc_backoff_base_ms = 500,
        rc_backoff_max_ms = 8000\<rparr>\<rparr>"

definition demo_ctx :: "u32 \<Rightarrow> (memory_session_store, nat, nat) engine_context" where
  "demo_ctx parallel =
     \<lparr>ec_view = memory_context_view, ec_commit = memory_commit, ec_config = demo_config parallel,
      ec_display = \<lparr>gd_provider = None, gd_model_name = lit ''m'', gd_model_id = lit ''m'',
        gd_image_input = False\<rparr>,
      ec_tools = [], ec_describe = (\<lambda>_. lit ''error''), ec_over_threshold = (\<lambda>_ _ _. False)\<rparr>"

definition demo_calls :: "model_assistant_block list" where
  "demo_calls =
     [MToolCall \<lparr>mcall_id = lit ''c1'', mcall_name = lit ''read'', mcall_arguments = []\<rparr>,
      MToolCall \<lparr>mcall_id = lit ''c2'', mcall_name = lit ''read'', mcall_arguments = []\<rparr>]"

definition demo_answer :: "(nat, nat) model_call_snapshot \<Rightarrow> stream_item list + model_error" where
  "demo_answer request =
     (if mc_model_call_index request = 1 then Inl [ItemEvent (MeCompleted demo_calls)]
      else Inl [ItemEvent (MeTextDelta (lit ''hi'')), ItemEvent (MeCompleted [MText (lit ''hi'')])])"

definition demo_done :: invoke_answer where
  "demo_done = Inl (EndDone \<lparr>rich_result = TrSuccess (lit ''ok''), rich_display = None\<rparr>)"

text \<open>The user cancels at the interaction \<open>at\<close>, if ever; the last call started ends first.\<close>

definition demo_env :: "nat option \<Rightarrow> (nat, nat) environment" where
  "demo_env at =
     \<lparr>env_request = (\<lambda>n. if Some n = at then Some ReasonUser else None), env_now = (\<lambda>n. n),
      env_start = (\<lambda>_. demo_answer), env_invoke = (\<lambda>_ _. Some demo_done),
      env_next = (\<lambda>_ k. Some (k - 1, demo_done)), env_maintenance_cancel = (\<lambda>_. False),
      env_jitter = (\<lambda>_. 7)\<rparr>"

definition demo_oid :: rstring where
  "demo_oid = lit ''op''"

definition demo_world :: "(memory_session_store, nat, nat) world" where
  "demo_world =
     \<lparr>w_tick = 0, w_store = memory_new, w_shared = shared_new demo_oid (lit ''turn'') Queued,
      w_last_input_tokens = [], w_trace = [], w_panicked = False, w_blocked = False\<rparr>"

definition demo_user :: runtime_user_message where
  "demo_user = \<lparr>rum_parts = [RText (lit ''go'')]\<rparr>"

definition demo_session :: rstring where
  "demo_session = lit ''s''"

definition demo_drive :: "nat option \<Rightarrow> u32 \<Rightarrow> (driver_exit \<times> (memory_session_store, nat, nat) world) option" where
  "demo_drive at parallel = drive (demo_env at) (demo_ctx parallel) demo_session demo_user demo_world"

section \<open>A batch in execution\<close>

text \<open>A store that accepts every transaction, for runs where the session does not matter.\<close>

definition yes_commit :: "nat store_commit" where
  "yes_commit s tx =
     (Ok \<lparr>commit_revision = revision_zero, commit_entries = [], commit_current_leaf = []\<rparr>, s)"

definition yes_ctx :: "(nat, nat, nat) engine_context" where
  "yes_ctx =
     \<lparr>ec_view = (\<lambda>_ _. Panic), ec_commit = yes_commit, ec_config = demo_config 2,
      ec_display = \<lparr>gd_provider = None, gd_model_name = [], gd_model_id = [], gd_image_input = False\<rparr>,
      ec_tools = [], ec_describe = (\<lambda>_. []), ec_over_threshold = (\<lambda>_ _ _. False)\<rparr>"

definition yes_world :: "(nat, nat, nat) world" where
  "yes_world =
     \<lparr>w_tick = 0, w_store = 0, w_shared = shared_new demo_oid (lit ''turn'') Queued,
      w_last_input_tokens = [], w_trace = [], w_panicked = False, w_blocked = False\<rparr>"

definition demo_batch_id :: rstring where
  "demo_batch_id = lit ''turn:tool-batch:1''"

definition demo_kernel_calls :: "kernel_tool_call list" where
  "demo_kernel_calls = [\<lparr>kcall_id = lit ''c1'', kcall_name = lit ''read'', kcall_arguments = []\<rparr>,
     \<lparr>kcall_id = lit ''c2'', kcall_name = lit ''read'', kcall_arguments = []\<rparr>]"

text \<open>A session with a durable batch of two calls, and the driver that executes it when the user
  has just cancelled.\<close>

definition demo_batch_tx :: session_transaction where
  "demo_batch_tx = transaction_linear demo_session revision_zero
     [OperationStarted demo_oid, TurnStarted demo_oid (lit ''turn''),
      UserMessage (lit ''turn'') [SText (lit ''go'')],
      AssistantToolCallBatch (lit ''turn'') (lit ''m'') demo_batch_id
        [SToolCall \<lparr>scall_id = lit ''c1'', scall_name = lit ''read'', scall_arguments = []\<rparr>,
         SToolCall \<lparr>scall_id = lit ''c2'', scall_name = lit ''read'', scall_arguments = []\<rparr>]]"

definition demo_batch_applied :: applied_transaction where
  "demo_batch_applied = the_ok (apply_transaction projection_empty demo_batch_tx)"

definition demo_batch_cx :: turn_cx where
  "demo_batch_cx =
     \<lparr>cx_session_id = demo_session, cx_revision = sp_revision (at_projection demo_batch_applied),
      cx_current_leaf = [],
      cx_state = ExpectingToolBatchCompletion (lit ''e'') demo_batch_id 1 2 (lit ''turn'') []
        demo_kernel_calls\<rparr>"

definition demo_batch_world :: "(memory_session_store, nat, nat) world" where
  "demo_batch_world =
     \<lparr>w_tick = 0, w_store = snd (memory_commit memory_new demo_batch_tx),
      w_shared = shared_request_cancel ReasonUser (shared_new demo_oid (lit ''turn'') Queued),
      w_last_input_tokens = [], w_trace = [], w_panicked = False, w_blocked = False\<rparr>"

lemma demo_batch_ok: "is_Ok (apply_transaction projection_empty demo_batch_tx)"
  by code_simp

lemma demo_batch_store:
  "memory_inv (w_store demo_batch_world)
    \<and> memory_projection (w_store demo_batch_world) demo_session = at_projection demo_batch_applied"
proof -
  have new: "memory_projection memory_new sid = projection_empty" for sid
    by (simp add: memory_projection_def memory_new_def)
  have ok: "apply_transaction (memory_projection memory_new (tx_session_id demo_batch_tx)) demo_batch_tx
      = Ok demo_batch_applied"
    using demo_batch_ok by (simp add: new demo_batch_applied_def)
  have rev: "tx_expected_revision demo_batch_tx =
      sp_revision (memory_projection memory_new (tx_session_id demo_batch_tx))"
    unfolding new by code_simp
  obtain c where c: "applied_commit demo_batch_applied = Ok c"
    using applied_commit_Ok [OF ok] by blast
  have "tx_session_id demo_batch_tx = demo_session" by (simp add: demo_batch_tx_def)
  with memory_commit_Ok [OF memory_inv_new rev ok c] memory_commit_inv [OF memory_inv_new, of demo_batch_tx]
  show ?thesis by (simp add: demo_batch_world_def memory_projection_insert)
qed

definition demo_batch_record :: tool_batch_record where
  "demo_batch_record =
     \<lparr>tb_batch_id = demo_batch_id, tb_call_ids = [lit ''c1'', lit ''c2''], tb_results = []\<rparr>"

lemma demo_batch_ready:
  "engine_ready memory_inv memory_projection demo_oid (lit ''turn'') demo_batch_cx demo_batch_world"
proof -
  let ?lc = "sp_lifecycle (at_projection demo_batch_applied)"
  have live: "live_turn ?lc demo_oid (lit ''turn'') True ([] @ [demo_batch_record])
      \<and> tb_batch_id demo_batch_record = demo_batch_id \<and> tb_results demo_batch_record = []
      \<and> tb_call_ids demo_batch_record = map kcall_id demo_kernel_calls
      \<and> distinct (map kcall_id demo_kernel_calls) \<and> demo_kernel_calls \<noteq> []
      \<and> map tb_batch_id ([] @ [demo_batch_record]) = round_batch_ids (lit ''turn'') (unat (1 :: u32))"
  proof (intro conjI)
    have "(case hm_get (lc_operations ?lc) demo_oid of Some p \<Rightarrow>
          op_outcome p = None \<and> op_turn_id p = Some (lit ''turn'') | None \<Rightarrow> False)
        \<and> (case hm_get (lc_turns ?lc) (lit ''turn'') of Some t \<Rightarrow>
          tn_operation_id t = demo_oid \<and> tn_outcome t = None \<and> tn_has_user_message t
          \<and> \<not> tn_has_assistant_message t \<and> tn_failure t = None \<and> tn_tool_batches t = [demo_batch_record]
          | None \<Rightarrow> False)"
      by code_simp
    then show "live_turn ?lc demo_oid (lit ''turn'') True ([] @ [demo_batch_record])"
      by (auto simp: live_turn_def split: option.split_asm)
  qed code_simp+
  have turns: "lc_open_turn_ids ?lc = [lit ''turn'']" by code_simp
  have "turn_sim (cx_state demo_batch_cx) ?lc demo_oid (lit ''turn'')"
    unfolding demo_batch_cx_def turn_cx.simps turn_sim.simps
    by (intro conjI refl exI [of _ "[]"] exI [of _ demo_batch_record]) (use live in blast)+
  with demo_batch_store turns show ?thesis
    by (simp add: engine_ready_def engine_live_def demo_batch_cx_def settled_world_def
        demo_batch_world_def shared_request_cancel_def shared_new_def)
qed

end
