(* ===== verification/Engine_Properties.thy ===== *)
theory Engine_Properties
  imports Engine_Runs Engine_Cancel Engine_Turn_Start Engine_Facts Engine_Demo Session_Demo
begin

text \<open>
  The properties of the turn engine, each with its witness on the small agent of \<open>Engine_Demo\<close>
  over the in-memory store.
\<close>

section \<open>Whole operations\<close>





text \<open>The witness: the in-memory store and the small agent, cancelled by the user or not.\<close>

lemma demo_world_fields [simp]:
  "w_store demo_world = memory_new" "w_panicked demo_world = False" "w_trace demo_world = []"
  "sh_phase (w_shared demo_world) = Queued" "sh_operation_id (w_shared demo_world) = demo_oid"
  "sh_cancel_reason (w_shared demo_world) = None" "sh_cancel_requested (w_shared demo_world) = False"
  "sh_tool_cancel (w_shared demo_world) = False" "sh_events (w_shared demo_world) = []"
  "sh_exit (w_shared demo_world) = None"
  by (simp_all add: demo_world_def shared_new_def)


lemma memory_new_empty [simp]: "memory_projection memory_new sid = projection_empty"
  by (simp add: memory_projection_def memory_new_def)

lemma empty_operations [simp]: "hm_get (lc_operations (sp_lifecycle projection_empty)) oi = None"
  by (simp add: projection_empty_def lifecycle_empty_def)



section \<open>What a run guarantees\<close>

text \<open>C5. Write-ahead: a tool is only ever invoked for a call of a batch that was durable before, in
  every run of the driver, under every interleaving of answers and cancel requests and over every
  store.\<close>

theorem tool_calls_write_ahead:
  assumes "drive_turn env ctx sid user w = Some w'" and "w_trace w = []"
  shows "\<forall>i < length (w_trace w'). \<forall>bid call_id. w_trace w' ! i = ActInvoked bid call_id \<longrightarrow>
    (\<exists>j < i. \<exists>tx. w_trace w' ! j = ActCommitted tx \<and>
       list_ex (holds_call bid call_id) (map ne_kind (tx_entries tx)))"
proof (intro allI impI)
  fix i bid call_id
  assume i: "i < length (w_trace w')" "w_trace w' ! i = ActInvoked bid call_id"
  have "write_ahead (w_trace w')"
    by (rule run_write_ahead [OF drive_turn_steps [OF assms(1)]])
      (simp add: assms(2) write_ahead_def)
  with i have "call_durable bid call_id (take i (w_trace w'))"
    by (simp add: write_ahead_def)
  then show "\<exists>j < i. \<exists>tx. w_trace w' ! j = ActCommitted tx \<and>
      list_ex (holds_call bid call_id) (map ne_kind (tx_entries tx))"
    using i(1) by (auto simp: call_durable_def in_set_conv_nth)
qed

theorem tool_calls_write_ahead_witness:
  "\<exists>w'. drive_turn (demo_env None) (demo_ctx 2) demo_session demo_user demo_world = Some w'
     \<and> write_ahead (w_trace w')"
proof -
  obtain w' where run: "drive_turn (demo_env None) (demo_ctx 2) demo_session demo_user demo_world = Some w'"
    using drive_turn_returns by blast
  have "call_durable bid call_id (take i (w_trace w'))"
    if "i < length (w_trace w')" "w_trace w' ! i = ActInvoked bid call_id" for i bid call_id
    using tool_calls_write_ahead [OF run demo_world_fields(3)] that
    by (auto simp: call_durable_def in_set_conv_nth) (metis nth_take)
  with run show ?thesis by (auto simp: write_ahead_def)
qed







section \<open>Tool batches\<close>






text \<open>C30. The configured parallelism is never exceeded: in every state a parallel batch passes
  through, at most \<open>limit\<close> calls are in flight, each of them once and started before, no call
  beyond the next to start has a slot filled, and while no port error has occurred every call
  started has either ended or is in flight.\<close>

theorem parallel_calls_bounded:
  assumes "batch_state env grace bid calls limit w0 ps w"
  shows "length (ps_in_flight ps) \<le> limit \<and> distinct (ps_in_flight ps)
    \<and> (\<forall>i \<in> set (ps_in_flight ps). i < ps_next ps) \<and> ps_next ps \<le> length calls
    \<and> (\<forall>i < length calls. ps_next ps \<le> i \<longrightarrow> ps_slots ps ! i = SlotUnstarted)
    \<and> (ps_port_error ps = None \<longrightarrow>
         (\<forall>i < ps_next ps. i \<notin> set (ps_in_flight ps) \<longrightarrow> ps_slots ps ! i \<noteq> SlotUnstarted))"
  using batch_state_inv [OF assms] by (simp add: parallel_inv_def)

theorem parallel_calls_bounded_witness:
  "length (ps_in_flight (fst (start_calls (demo_env None) [2] demo_kernel_calls 1
      (parallel_init demo_kernel_calls) yes_world))) \<le> 1"
proof -
  obtain ps w where s: "start_calls (demo_env None) [2] demo_kernel_calls 1
      (parallel_init demo_kernel_calls) yes_world = (ps, w)" by fastforce
  have "batch_state (demo_env None) 0 [2] demo_kernel_calls 1 yes_world ps w"
    by (rule batch_start [OF batch_init s])
  from parallel_calls_bounded [OF this] show ?thesis unfolding s by simp
qed



section \<open>Pure parts\<close>




text \<open>C33. A compaction boundary the engine selects is one the session accepts, and it keeps exactly
  the configured number of settled turns after it: selection and acceptance agree on which
  boundaries exist and on going forward only.\<close>

theorem selected_boundary_compacts:
  assumes "session_history sid h sp" and "context_view sp sid = Ok v"
    and "select_boundary v keep = Some covers" and "summary \<noteq> []"
  shows "(\<exists>cp. accept_compaction summary covers (sp_context sp) = Ok cp)
    \<and> (\<exists>before recent. view_settled_turn_boundaries v = before @ covers # recent
         \<and> length recent = unat keep)"
proof
  have v: "view_settled_turn_boundaries v = settled_boundary_ids (sp_context sp)"
    "view_latest_compaction_boundary v = latest_compaction_boundary (sp_context sp)"
    using assms(2) by (auto simp: context_view_def rbind_eq_Ok)
  show "\<exists>cp. accept_compaction summary covers (sp_context sp) = Ok cp"
    by (rule selected_boundary_accepted [OF history_context [OF assms(1)] history_ids_distinct [OF assms(1)]
          v assms(3,4)])
  obtain i where i: "i < length (view_settled_turn_boundaries v)"
    "view_settled_turn_boundaries v ! i = covers"
    "length (view_settled_turn_boundaries v) - Suc i = unat keep"
    using select_boundary_Some [OF assms(3)] by metis
  then show "\<exists>before recent. view_settled_turn_boundaries v = before @ covers # recent
      \<and> length recent = unat keep"
    using id_take_nth_drop [OF i(1)] by (metis length_drop)
qed

theorem selected_boundary_compacts_witness:
  "\<exists>cp. accept_compaction (lit ''sum'') (lit ''s:entry:8'') (sp_context (at_projection demo_applied3)) = Ok cp"
proof -
  have v: "context_view (at_projection demo_applied3) demo_sid =
      Ok (the_ok (context_view (at_projection demo_applied3) demo_sid))"
    using context_view_Ok [OF history_inv [OF demo_history3], of demo_sid] by auto
  have sel: "select_boundary (the_ok (context_view (at_projection demo_applied3) demo_sid)) 0 =
      Some (lit ''s:entry:8'')" by code_simp
  from selected_boundary_compacts [OF demo_history3 v sel, of "lit ''sum''"] show ?thesis
    by (simp add: lit_def)
qed

text \<open>C34. The layers exchange messages without loss: user parts survive the way through the kernel and
  the session, assistant blocks the way through the kernel and the session, and a tool result
  reaches the model as the same outcome through either.\<close>

theorem message_mappings_roundtrip:
  "runtime_parts_from_session (session_user_parts (kernel_user_parts parts)) = parts
   \<and> model_blocks_from_session (map session_block (kernel_blocks_from_model blocks)) = blocks
   \<and> model_outcome_of_session (sresult_outcome (session_result call r)) =
       model_outcome_of_kernel (kresult_outcome (kernel_result call r))"
  by (simp add: session_parts_roundtrip kernel_parts_roundtrip session_blocks_roundtrip
      blocks_roundtrip result_roundtrip)

end
