(* ===== verification/Stream_Transient.thy ===== *)
theory Stream_Transient
  imports Runtime_Types
begin

text \<open>
  The coalescing store between a driver and the coordinator (\<^verbatim>\<open>transient.rs\<close>): one slot each for
  text, reasoning and usage of the running model call, the slots of earlier calls sealed before a
  reliable event, the live tail of each tool, and the latest phase. What is shown is not what is
  durable: the store may merge, but is meant to keep the streamed text in order. Cutting a merged
  text at the byte limit panics inside a character.
\<close>

section \<open>Slots\<close>

definition delta_merge_chunk_max :: nat where
  "delta_merge_chunk_max = 4096"

definition tool_progress_slots_max :: nat where
  "tool_progress_slots_max = 32"

definition sealed_pending_gen_max :: nat where
  "sealed_pending_gen_max = 8"

record model_stream_slots =
  ms_text :: "rstring option"
  ms_reasoning :: "(rstring \<times> rstring) option"
  ms_usage :: "(rstring \<times> token_usage) option"

definition ms_default :: model_stream_slots where
  "ms_default = \<lparr>ms_text = None, ms_reasoning = None, ms_usage = None\<rparr>"

definition ms_is_empty :: "model_stream_slots \<Rightarrow> bool" where
  "ms_is_empty ms \<longleftrightarrow> ms_text ms = None \<and> ms_reasoning ms = None \<and> ms_usage ms = None"

definition ms_len :: "model_stream_slots \<Rightarrow> nat" where
  "ms_len ms = of_bool (ms_text ms \<noteq> None) + of_bool (ms_reasoning ms \<noteq> None) + of_bool (ms_usage ms \<noteq> None)"

text \<open>The open slots are the fields of the same names of \<^verbatim>\<open>DriverSlots\<close>, grouped.\<close>

record driver_slots =
  ds_open :: model_stream_slots
  ds_tool_progress :: "(rstring, agent_event) hashmap"
  ds_phase :: "operation_phase option"
  ds_sealed :: model_stream_slots
  ds_sealed_pending :: "model_stream_slots list"

definition slots_new :: driver_slots where
  "slots_new = \<lparr>ds_open = ms_default, ds_tool_progress = [], ds_phase = None, ds_sealed = ms_default,
     ds_sealed_pending = []\<rparr>"

section \<open>Merging\<close>

text \<open>Append and cut at the limit.\<close>

definition push_capped :: "rstring \<Rightarrow> rstring \<Rightarrow> (rstring, unit) rres" where
  "push_capped held delta =
     (let text = held @ delta
      in if delta_merge_chunk_max < utf8_bytes text then
           (case take_bytes delta_merge_chunk_max text of Some t \<Rightarrow> Ok t | None \<Rightarrow> Panic)
         else Ok text)"

definition merge_text :: "rstring option \<Rightarrow> rstring \<Rightarrow> (rstring option, unit) rres" where
  "merge_text slot delta =
     rbind (push_capped (case slot of Some t \<Rightarrow> t | None \<Rightarrow> []) delta) (\<lambda>t. Ok (Some t))"

definition merge_reasoning ::
    "(rstring \<times> rstring) option \<Rightarrow> rstring \<Rightarrow> rstring \<Rightarrow> ((rstring \<times> rstring) option, unit) rres" where
  "merge_reasoning slot model_call_id text =
     (case slot of
        Some (i, held) \<Rightarrow>
          if i = model_call_id then rbind (push_capped held text) (\<lambda>t. Ok (Some (i, t)))
          else Ok (Some (model_call_id, text))
      | None \<Rightarrow> Ok (Some (model_call_id, text)))"

definition stream_call_id :: "model_stream_slots \<Rightarrow> rstring option" where
  "stream_call_id ms =
     (case ms_reasoning ms of
        Some (i, _) \<Rightarrow> Some i
      | None \<Rightarrow> map_option fst (ms_usage ms))"

definition can_merge_stream_slots :: "model_stream_slots \<Rightarrow> model_stream_slots \<Rightarrow> bool" where
  "can_merge_stream_slots held incoming \<longleftrightarrow>
     (case (stream_call_id held, stream_call_id incoming) of
        (Some l, Some r) \<Rightarrow> l = r
      | _ \<Rightarrow> True)"

definition merge_stream_slots ::
    "model_stream_slots \<Rightarrow> model_stream_slots \<Rightarrow> (model_stream_slots, unit) rres" where
  "merge_stream_slots target incoming =
     rbind (case ms_text incoming of Some delta \<Rightarrow> merge_text (ms_text target) delta | None \<Rightarrow> Ok (ms_text target))
       (\<lambda>text.
     rbind (case ms_reasoning incoming of Some (i, t) \<Rightarrow> merge_reasoning (ms_reasoning target) i t
              | None \<Rightarrow> Ok (ms_reasoning target))
       (\<lambda>reasoning.
     Ok \<lparr>ms_text = text, ms_reasoning = reasoning,
         ms_usage = (case ms_usage incoming of Some u \<Rightarrow> Some u | None \<Rightarrow> ms_usage target)\<rparr>))"

definition model_stream_events :: "model_stream_slots \<Rightarrow> agent_event list" where
  "model_stream_events held =
     (case ms_reasoning held of Some (i, t) \<Rightarrow> [EvReasoningDelta i t] | None \<Rightarrow> [])
     @ (case ms_text held of Some delta \<Rightarrow> [EvTextDelta delta] | None \<Rightarrow> [])
     @ (case ms_usage held of Some (i, u) \<Rightarrow> [EvModelUsageUpdated i u] | None \<Rightarrow> [])"

section \<open>Operations\<close>

text \<open>A reliable event is only a debug assertion here; a release build ignores it.\<close>

definition publish_agent :: "agent_event \<Rightarrow> driver_slots \<Rightarrow> (driver_slots, unit) rres" where
  "publish_agent ev ds =
     (case ev of
        EvTextDelta delta \<Rightarrow>
          rbind (merge_text (ms_text (ds_open ds)) delta) (\<lambda>t.
            Ok (ds\<lparr>ds_open := (ds_open ds)\<lparr>ms_text := t\<rparr>\<rparr>))
      | EvReasoningDelta i text \<Rightarrow>
          rbind (merge_reasoning (ms_reasoning (ds_open ds)) i text) (\<lambda>r.
            Ok (ds\<lparr>ds_open := (ds_open ds)\<lparr>ms_reasoning := r\<rparr>\<rparr>))
      | EvModelUsageUpdated i usage \<Rightarrow> Ok (ds\<lparr>ds_open := (ds_open ds)\<lparr>ms_usage := Some (i, usage)\<rparr>\<rparr>)
      | EvToolExecutionProgress _ call_id _ _ \<Rightarrow>
          (let progress = ds_tool_progress ds;
               progress1 =
                 (if tool_progress_slots_max \<le> length progress \<and> hm_get progress call_id = None then
                    (case hm_keys progress of
                       [] \<Rightarrow> progress
                     | oldest # _ \<Rightarrow> hm_remove oldest progress)
                  else progress)
           in Ok (ds\<lparr>ds_tool_progress := hm_insert call_id ev progress1\<rparr>))
      | _ \<Rightarrow> Ok ds)"

definition publish_phase :: "operation_phase \<Rightarrow> driver_slots \<Rightarrow> driver_slots" where
  "publish_phase ph ds = ds\<lparr>ds_phase := Some ph\<rparr>"

definition has_data :: "driver_slots \<Rightarrow> bool" where
  "has_data ds \<longleftrightarrow>
     \<not> ms_is_empty (ds_open ds) \<or> ds_tool_progress ds \<noteq> [] \<or> ds_phase ds \<noteq> None
     \<or> \<not> ms_is_empty (ds_sealed ds) \<or> ds_sealed_pending ds \<noteq> []"

definition sealed_len :: "driver_slots \<Rightarrow> nat" where
  "sealed_len ds = ms_len (ds_sealed ds) + sum_list (map ms_len (ds_sealed_pending ds))"

definition seal_model_stream :: "driver_slots \<Rightarrow> (driver_slots, unit) rres" where
  "seal_model_stream ds =
     (let open_slots = ds_open ds; ds1 = ds\<lparr>ds_open := ms_default\<rparr>
      in if ms_is_empty open_slots then Ok ds1
         else if ms_is_empty (ds_sealed ds) \<or> can_merge_stream_slots (ds_sealed ds) open_slots then
           rbind (merge_stream_slots (ds_sealed ds) open_slots) (\<lambda>s. Ok (ds1\<lparr>ds_sealed := s\<rparr>))
         else
           (let pending = (if sealed_pending_gen_max \<le> length (ds_sealed_pending ds)
                           then tl (ds_sealed_pending ds) else ds_sealed_pending ds)
            in Ok (ds1\<lparr>ds_sealed_pending := pending @ [ds_sealed ds], ds_sealed := open_slots\<rparr>)))"

definition drain_model_stream :: "driver_slots \<Rightarrow> agent_event list \<times> driver_slots" where
  "drain_model_stream ds =
     (concat (map model_stream_events (ds_sealed_pending ds @ [ds_sealed ds, ds_open ds])),
      ds\<lparr>ds_sealed_pending := [], ds_sealed := ms_default, ds_open := ms_default\<rparr>)"

definition drain_tool_progress :: "driver_slots \<Rightarrow> agent_event list \<times> driver_slots" where
  "drain_tool_progress ds = (map snd (ds_tool_progress ds), ds\<lparr>ds_tool_progress := []\<rparr>)"

definition drain_transients ::
    "driver_slots \<Rightarrow> operation_phase option \<times> agent_event list \<times> driver_slots" where
  "drain_transients ds =
     (let (stream, ds1) = drain_model_stream (ds\<lparr>ds_phase := None\<rparr>);
          (progress, ds2) = drain_tool_progress ds1
      in (ds_phase ds, stream @ progress, ds2))"

section \<open>Streamed text\<close>

text \<open>What the driver does to the store between two drains.\<close>

datatype transient_op = TopPublish agent_event | TopSeal

definition transient_step :: "transient_op \<Rightarrow> driver_slots \<Rightarrow> (driver_slots, unit) rres" where
  "transient_step op ds = (case op of TopPublish ev \<Rightarrow> publish_agent ev ds | TopSeal \<Rightarrow> seal_model_stream ds)"

definition text_of_event :: "agent_event \<Rightarrow> rstring" where
  "text_of_event ev = (case ev of EvTextDelta t \<Rightarrow> t | _ \<Rightarrow> [])"

definition reasoning_of_event :: "agent_event \<Rightarrow> rstring" where
  "reasoning_of_event ev = (case ev of EvReasoningDelta _ t \<Rightarrow> t | _ \<Rightarrow> [])"

definition published :: "(agent_event \<Rightarrow> rstring) \<Rightarrow> transient_op list \<Rightarrow> rstring" where
  "published f ops = concat (map (\<lambda>op. case op of TopPublish ev \<Rightarrow> f ev | TopSeal \<Rightarrow> []) ops)"

definition drained_text :: "agent_event list \<Rightarrow> rstring" where
  "drained_text evs = concat (map text_of_event evs)"

definition slot_text :: "model_stream_slots \<Rightarrow> rstring" where
  "slot_text ms = (case ms_text ms of Some t \<Rightarrow> t | None \<Rightarrow> [])"

definition slot_reasoning :: "model_stream_slots \<Rightarrow> nat" where
  "slot_reasoning ms = (case ms_reasoning ms of Some (_, t) \<Rightarrow> utf8_bytes t | None \<Rightarrow> 0)"

definition generations :: "driver_slots \<Rightarrow> model_stream_slots list" where
  "generations ds = ds_sealed_pending ds @ [ds_sealed ds, ds_open ds]"

text \<open>The text held, the reasoning bytes held, and the generations parked.\<close>

definition holds_stream :: "rstring \<Rightarrow> nat \<Rightarrow> nat \<Rightarrow> driver_slots \<Rightarrow> bool" where
  "holds_stream t r n ds \<longleftrightarrow>
     concat (map slot_text (generations ds)) = t
     \<and> sum_list (map slot_reasoning (generations ds)) \<le> r \<and> length (ds_sealed_pending ds) \<le> n"

lemma holds_stream_new: "holds_stream [] 0 0 slots_new"
  by (simp add: holds_stream_def generations_def slots_new_def ms_default_def slot_text_def slot_reasoning_def)

lemma drained_generation: "drained_text (model_stream_events ms) = slot_text ms"
  by (cases "ms_reasoning ms"; cases "ms_text ms"; cases "ms_usage ms")
    (auto simp: drained_text_def model_stream_events_def slot_text_def text_of_event_def)

lemma drained_text_concat: "drained_text (concat xss) = concat (map drained_text xss)"
  by (induction xss) (simp_all add: drained_text_def)

lemma drained_text_append: "drained_text (xs @ ys) = drained_text xs @ drained_text ys"
  by (simp add: drained_text_def)

lemma drained_held: "holds_stream t r n ds \<Longrightarrow> drained_text (fst (drain_model_stream ds)) = t"
  by (simp add: holds_stream_def drain_model_stream_def generations_def drained_text_concat
      drained_text_append drained_generation comp_def)

lemma push_capped_fits: "utf8_bytes (held @ delta) \<le> delta_merge_chunk_max \<Longrightarrow> push_capped held delta = Ok (held @ delta)"
  by (simp add: push_capped_def Let_def)

lemma merge_text_fits:
  "utf8_bytes ((case slot of Some t \<Rightarrow> t | None \<Rightarrow> []) @ delta) \<le> delta_merge_chunk_max \<Longrightarrow>
    merge_text slot delta = Ok (Some ((case slot of Some t \<Rightarrow> t | None \<Rightarrow> []) @ delta))"
  by (simp only: merge_text_def push_capped_fits rbind.simps)

lemma merge_reasoning_fits:
  assumes "(case slot of Some (_, t) \<Rightarrow> utf8_bytes t | None \<Rightarrow> 0) + utf8_bytes text \<le> delta_merge_chunk_max"
  obtains j t where "merge_reasoning slot i text = Ok (Some (j, t))"
    "utf8_bytes t \<le> (case slot of Some (_, t) \<Rightarrow> utf8_bytes t | None \<Rightarrow> 0) + utf8_bytes text"
proof (cases "\<exists>held. slot = Some (i, held)")
  case True
  then obtain held where slot: "slot = Some (i, held)" by blast
  with assms have "push_capped held text = Ok (held @ text)" by (simp add: push_capped_fits)
  with slot that show thesis by (simp add: merge_reasoning_def)
next
  case False
  then have "merge_reasoning slot i text = Ok (Some (i, text))"
    by (auto simp: merge_reasoning_def split: option.split)
  with that show thesis by simp
qed

lemma merge_slots_fit:
  assumes "utf8_bytes (slot_text target @ slot_text incoming) \<le> delta_merge_chunk_max"
    and "slot_reasoning target + slot_reasoning incoming \<le> delta_merge_chunk_max"
  obtains s where "merge_stream_slots target incoming = Ok s"
    "slot_text s = slot_text target @ slot_text incoming"
    "slot_reasoning s \<le> slot_reasoning target + slot_reasoning incoming"
proof -
  obtain t where t: "(case ms_text incoming of Some delta \<Rightarrow> merge_text (ms_text target) delta
      | None \<Rightarrow> Ok (ms_text target)) = Ok t"
    "(case t of Some t \<Rightarrow> t | None \<Rightarrow> []) = slot_text target @ slot_text incoming"
    using assms(1) by (cases "ms_text incoming") (auto simp: merge_text_fits slot_text_def)
  obtain r where r: "(case ms_reasoning incoming of Some (i, t) \<Rightarrow> merge_reasoning (ms_reasoning target) i t
      | None \<Rightarrow> Ok (ms_reasoning target)) = Ok r"
    "(case r of Some (_, t) \<Rightarrow> utf8_bytes t | None \<Rightarrow> 0) \<le> slot_reasoning target + slot_reasoning incoming"
  proof (cases "ms_reasoning incoming")
    case (Some p)
    obtain i tx where p: "p = (i, tx)" by fastforce
    then have le: "(case ms_reasoning target of Some (_, t) \<Rightarrow> utf8_bytes t | None \<Rightarrow> 0) + utf8_bytes tx
        \<le> delta_merge_chunk_max"
      using assms(2) Some by (simp add: slot_reasoning_def)
    obtain j t where "merge_reasoning (ms_reasoning target) i tx = Ok (Some (j, t))"
      "utf8_bytes t \<le> (case ms_reasoning target of Some (_, t) \<Rightarrow> utf8_bytes t | None \<Rightarrow> 0) + utf8_bytes tx"
      by (rule merge_reasoning_fits [OF le])
    with Some p that show thesis by (simp add: slot_reasoning_def)
  qed (simp add: slot_reasoning_def that)
  from t r that show thesis by (simp add: merge_stream_slots_def slot_text_def slot_reasoning_def)
qed

lemma publish_holds:
  assumes "holds_stream t r n ds" and "utf8_bytes (t @ text_of_event ev) \<le> delta_merge_chunk_max"
    and "r + utf8_bytes (reasoning_of_event ev) \<le> delta_merge_chunk_max"
  obtains ds' where "publish_agent ev ds = Ok ds'"
    "holds_stream (t @ text_of_event ev) (r + utf8_bytes (reasoning_of_event ev)) n ds'"
proof (cases ev)
  case (EvTextDelta delta)
  have "utf8_bytes (slot_text (ds_open ds) @ delta) \<le> delta_merge_chunk_max"
    using assms(1,2) EvTextDelta by (auto simp: holds_stream_def generations_def text_of_event_def)
  then have "merge_text (ms_text (ds_open ds)) delta = Ok (Some (slot_text (ds_open ds) @ delta))"
    using merge_text_fits by (simp add: slot_text_def)
  with EvTextDelta assms(1) that show thesis
    by (simp add: publish_agent_def holds_stream_def generations_def text_of_event_def
        reasoning_of_event_def slot_text_def slot_reasoning_def)
next
  case (EvReasoningDelta i tx)
  have le: "(case ms_reasoning (ds_open ds) of Some (_, t) \<Rightarrow> utf8_bytes t | None \<Rightarrow> 0) + utf8_bytes tx
      \<le> delta_merge_chunk_max"
    using assms(1,3) EvReasoningDelta
    by (auto simp: holds_stream_def generations_def reasoning_of_event_def slot_reasoning_def)
  obtain j u where "merge_reasoning (ms_reasoning (ds_open ds)) i tx = Ok (Some (j, u))"
    "utf8_bytes u \<le> (case ms_reasoning (ds_open ds) of Some (_, t) \<Rightarrow> utf8_bytes t | None \<Rightarrow> 0) + utf8_bytes tx"
    by (rule merge_reasoning_fits [OF le])
  with EvReasoningDelta assms(1) that show thesis
    by (simp add: publish_agent_def holds_stream_def generations_def text_of_event_def
        reasoning_of_event_def slot_text_def slot_reasoning_def)
qed (use assms(1) that in \<open>simp_all add: publish_agent_def holds_stream_def generations_def text_of_event_def
    reasoning_of_event_def slot_text_def slot_reasoning_def Let_def\<close>)

lemma empty_slots: "ms_is_empty ms \<Longrightarrow> slot_text ms = [] \<and> slot_reasoning ms = 0"
  by (simp add: ms_is_empty_def slot_text_def slot_reasoning_def)

lemma default_slots [simp]: "slot_text ms_default = []" "slot_reasoning ms_default = 0"
  by (simp_all add: ms_default_def slot_text_def slot_reasoning_def)

lemma seal_holds:
  assumes held: "holds_stream t r n ds" and "utf8_bytes t \<le> delta_merge_chunk_max"
    and "r \<le> delta_merge_chunk_max" "n < sealed_pending_gen_max"
  obtains ds' where "seal_model_stream ds = Ok ds'" "holds_stream t r (Suc n) ds'"
proof (cases "ms_is_empty (ds_open ds)")
  case True
  with held that empty_slots [OF True] show thesis
    by (simp add: seal_model_stream_def holds_stream_def generations_def)
next
  case open_slots: False
  show thesis
  proof (cases "ms_is_empty (ds_sealed ds) \<or> can_merge_stream_slots (ds_sealed ds) (ds_open ds)")
    case True
    have "utf8_bytes (slot_text (ds_sealed ds) @ slot_text (ds_open ds)) \<le> delta_merge_chunk_max"
      "slot_reasoning (ds_sealed ds) + slot_reasoning (ds_open ds) \<le> delta_merge_chunk_max"
      using held assms(2,3) by (auto simp: holds_stream_def generations_def)
    then obtain s where "merge_stream_slots (ds_sealed ds) (ds_open ds) = Ok s"
      "slot_text s = slot_text (ds_sealed ds) @ slot_text (ds_open ds)"
      "slot_reasoning s \<le> slot_reasoning (ds_sealed ds) + slot_reasoning (ds_open ds)"
      by (rule merge_slots_fit)
    with open_slots True held that show thesis
      by (simp add: seal_model_stream_def holds_stream_def generations_def Let_def)
  next
    case False
    with open_slots held assms(4) that show thesis
      by (simp add: seal_model_stream_def holds_stream_def generations_def Let_def)
  qed
qed

definition seals :: "transient_op list \<Rightarrow> nat" where
  "seals ops = length (filter (\<lambda>op. op = TopSeal) ops)"

lemma published_Cons:
  "published f (op # ops) = (case op of TopPublish ev \<Rightarrow> f ev | TopSeal \<Rightarrow> []) @ published f ops"
  by (simp add: published_def)

lemma run_holds:
  "holds_stream t r n ds \<Longrightarrow> utf8_bytes (t @ published text_of_event ops) \<le> delta_merge_chunk_max \<Longrightarrow>
    r + utf8_bytes (published reasoning_of_event ops) \<le> delta_merge_chunk_max \<Longrightarrow>
    n + seals ops \<le> sealed_pending_gen_max \<Longrightarrow>
    \<exists>ds'. rfold transient_step ops ds = Ok ds' \<and> holds_stream (t @ published text_of_event ops)
      (r + utf8_bytes (published reasoning_of_event ops)) (n + seals ops) ds'"
proof (induction ops arbitrary: t r n ds)
  case Nil
  then show ?case by (simp add: published_def seals_def)
next
  case (Cons op ops)
  show ?case
  proof (cases op)
    case (TopPublish ev)
    obtain ds1 where "publish_agent ev ds = Ok ds1"
      "holds_stream (t @ text_of_event ev) (r + utf8_bytes (reasoning_of_event ev)) n ds1"
      by (rule publish_holds [OF Cons.prems(1), of ev])
        (use Cons.prems(2,3) TopPublish in \<open>simp_all add: published_Cons\<close>)
    with Cons.IH [OF this(2)] Cons.prems TopPublish show ?thesis
      by (simp add: published_Cons seals_def transient_step_def add.assoc)
  next
    case TopSeal
    obtain ds1 where "seal_model_stream ds = Ok ds1" "holds_stream t r (Suc n) ds1"
      by (rule seal_holds [OF Cons.prems(1)])
        (use Cons.prems(2-4) TopSeal in \<open>simp_all add: published_Cons seals_def\<close>)
    with Cons.IH [OF this(2)] Cons.prems TopSeal show ?thesis
      by (simp add: published_Cons seals_def transient_step_def)
  qed
qed

end
