(* ===== verification/Jsonl_Codec.thy ===== *)
theory Jsonl_Codec
  imports Session_Entry
begin

text \<open>
  The records of the JSONL log and their conversion from and to session entries
  (\<^verbatim>\<open>philo-session-jsonl/src/schema/record.rs\<close>, \<^verbatim>\<open>codec.rs\<close>). Images are stored beside the log,
  under the hash of their bytes: encoding collects what has to be stored, decoding asks a loader.
  What \<^verbatim>\<open>serde\<close> derives for the records is not modelled here; the store takes it as a parameter.
\<close>

section \<open>Records\<close>

datatype reason_record = RecUser | RecTimeout | RecAbandoned

datatype outcome_record = RecSucceeded | RecFailed | RecCancelled

datatype failure_kind_record =
  RecModelCall | RecInvalidModelOutput | RecPersistence | RecRuntimeDriver | RecToolExecution

record failure_record =
  fr_kind :: failure_kind_record
  fr_message :: rstring

datatype tool_outcome_record =
    OutSuccess rstring
  | OutError rstring rstring
  | OutCancelled
  | OutInterrupted

record tool_result_record =
  trr_call_id :: rstring
  trr_outcome :: tool_outcome_record

datatype assistant_block_record = BlkText rstring | BlkToolCall rstring rstring rstring

text \<open>An image: its media type, the name of its artifact and its length.\<close>

datatype user_part_record = PrtText rstring | PrtImage rstring rstring u64

record user_message_record =
  umr_turn_id :: rstring
  umr_parts :: "user_part_record list"

record assistant_batch_record =
  abr_turn_id :: rstring
  abr_model_call_id :: rstring
  abr_tool_batch_id :: rstring
  abr_blocks :: "assistant_block_record list"

record assistant_message_record =
  amr_turn_id :: rstring
  amr_blocks :: "assistant_block_record list"

record token_usage_record =
  ur_input_tokens :: "u64 option"
  ur_output_tokens :: "u64 option"
  ur_cache_read_tokens :: "u64 option"
  ur_cache_write_tokens :: "u64 option"
  ur_reasoning_tokens :: "u64 option"

record generation_choice_record =
  gr_provider :: "rstring option"
  gr_model_id :: rstring
  gr_reasoning_effort :: "rstring option"

datatype kind_record =
    KrOperationStarted rstring
  | KrTurnStarted rstring rstring
  | KrUserMessage user_message_record
  | KrAssistantToolCallBatch assistant_batch_record
  | KrToolResult rstring rstring tool_result_record
  | KrAssistantMessage assistant_message_record
  | KrTurnFailure rstring failure_record
  | KrTurnTerminated rstring outcome_record "reason_record option"
  | KrOperationSettled rstring outcome_record "reason_record option" "token_usage_record option"
      "generation_choice_record option"
  | KrCompaction rstring rstring
  | KrTitleSet rstring

record entry_record =
  er_id :: rstring
  er_parent :: "rstring option"
  er_kind :: kind_record

record transaction_record =
  tr_v :: u64
  tr_revision :: u64
  tr_entries :: "entry_record list"

definition schema_version :: u64 where
  "schema_version = 2"

record pending_artifact =
  pa_hash :: rstring
  pa_bytes :: "u8 list"

section \<open>Encoding\<close>

definition encode_reason :: "cancel_reason \<Rightarrow> reason_record" where
  "encode_reason r =
     (case r of ReasonUser \<Rightarrow> RecUser | ReasonTimeout \<Rightarrow> RecTimeout | ReasonAbandoned \<Rightarrow> RecAbandoned)"

definition encode_usage :: "session_token_usage \<Rightarrow> token_usage_record" where
  "encode_usage u =
     \<lparr>ur_input_tokens = su_input_tokens u, ur_output_tokens = su_output_tokens u,
      ur_cache_read_tokens = su_cache_read_tokens u, ur_cache_write_tokens = su_cache_write_tokens u,
      ur_reasoning_tokens = su_reasoning_tokens u\<rparr>"

definition encode_generation :: "session_generation_choice \<Rightarrow> generation_choice_record" where
  "encode_generation c =
     \<lparr>gr_provider = gc_provider c, gr_model_id = gc_model_id c, gr_reasoning_effort = gc_reasoning_effort c\<rparr>"

definition encode_block :: "session_assistant_block \<Rightarrow> assistant_block_record" where
  "encode_block b =
     (case b of
        STextBlock text \<Rightarrow> BlkText text
      | SToolCall call \<Rightarrow> BlkToolCall (scall_id call) (scall_name call) (scall_arguments call))"

definition encode_failure_kind :: "turn_failure_kind \<Rightarrow> failure_kind_record" where
  "encode_failure_kind k =
     (case k of
        FkModelCall \<Rightarrow> RecModelCall
      | FkInvalidModelOutput \<Rightarrow> RecInvalidModelOutput
      | FkPersistence \<Rightarrow> RecPersistence
      | FkRuntimeDriver \<Rightarrow> RecRuntimeDriver
      | FkToolExecution \<Rightarrow> RecToolExecution)"

definition encode_tool_outcome :: "tool_result_outcome \<Rightarrow> tool_outcome_record" where
  "encode_tool_outcome r =
     (case r of
        SSuccess content \<Rightarrow> OutSuccess content
      | SError code message \<Rightarrow> OutError code message
      | SCancelled \<Rightarrow> OutCancelled
      | SInterrupted \<Rightarrow> OutInterrupted)"

text \<open>The artifacts collected so far are threaded through; one hash is collected once.\<close>

definition encode_part ::
    "(u8 list \<Rightarrow> rstring) \<Rightarrow> session_user_part \<Rightarrow> pending_artifact list
      \<Rightarrow> user_part_record \<times> pending_artifact list" where
  "encode_part sha256_hex part pending =
     (case part of
        SText text \<Rightarrow> (PrtText text, pending)
      | SImage media_type bytes \<Rightarrow>
          (let hash = sha256_hex bytes
           in (PrtImage media_type hash (of_nat (length bytes)),
               if list_ex (\<lambda>artifact. pa_hash artifact = hash) pending then pending
               else pending @ [\<lparr>pa_hash = hash, pa_bytes = bytes\<rparr>])))"

text \<open>\<^verbatim>\<open>iter().map(..).collect()\<close> with the artifacts as its captured state.\<close>

fun encode_list :: "('a \<Rightarrow> 's \<Rightarrow> 'b \<times> 's) \<Rightarrow> 'a list \<Rightarrow> 's \<Rightarrow> 'b list \<times> 's" where
  "encode_list f [] s = ([], s)"
| "encode_list f (x # xs) s =
     (let (y, s1) = f x s; (ys, s2) = encode_list f xs s1 in (y # ys, s2))"

definition encode_kind ::
    "(u8 list \<Rightarrow> rstring) \<Rightarrow> session_entry_kind \<Rightarrow> pending_artifact list
      \<Rightarrow> kind_record \<times> pending_artifact list" where
  "encode_kind sha256_hex kind pending =
     (case kind of
        OperationStarted operation_id \<Rightarrow> (KrOperationStarted operation_id, pending)
      | TurnStarted operation_id turn_id \<Rightarrow> (KrTurnStarted operation_id turn_id, pending)
      | UserMessage turn_id parts \<Rightarrow>
          (let (rs, pending1) = encode_list (encode_part sha256_hex) parts pending
           in (KrUserMessage \<lparr>umr_turn_id = turn_id, umr_parts = rs\<rparr>, pending1))
      | AssistantToolCallBatch turn_id model_call_id tool_batch_id blocks \<Rightarrow>
          (KrAssistantToolCallBatch
             \<lparr>abr_turn_id = turn_id, abr_model_call_id = model_call_id, abr_tool_batch_id = tool_batch_id,
              abr_blocks = map encode_block blocks\<rparr>, pending)
      | ToolResult turn_id tool_batch_id result \<Rightarrow>
          (KrToolResult turn_id tool_batch_id
             \<lparr>trr_call_id = sresult_call_id result,
              trr_outcome = encode_tool_outcome (sresult_outcome result)\<rparr>, pending)
      | AssistantMessage turn_id blocks \<Rightarrow>
          (KrAssistantMessage \<lparr>amr_turn_id = turn_id, amr_blocks = map encode_block blocks\<rparr>, pending)
      | TurnFailureEntry turn_id failure \<Rightarrow>
          (KrTurnFailure turn_id
             \<lparr>fr_kind = encode_failure_kind (tf_kind failure), fr_message = tf_message failure\<rparr>, pending)
      | TurnTerminated turn_id outcome \<Rightarrow>
          (let (oc, reason) =
                 (case outcome of
                    TurnSucceeded \<Rightarrow> (RecSucceeded, None)
                  | TurnFailed \<Rightarrow> (RecFailed, None)
                  | TurnCancelled reason \<Rightarrow> (RecCancelled, Some (encode_reason reason)))
           in (KrTurnTerminated turn_id oc reason, pending))
      | OperationSettled operation_id outcome usage generation \<Rightarrow>
          (let (oc, reason) =
                 (case outcome of
                    OpSucceeded \<Rightarrow> (RecSucceeded, None)
                  | OpFailed \<Rightarrow> (RecFailed, None)
                  | OpCancelled reason \<Rightarrow> (RecCancelled, Some (encode_reason reason)))
           in (KrOperationSettled operation_id oc reason (map_option encode_usage usage)
                 (map_option encode_generation generation), pending))
      | Compaction summary covers_up_to \<Rightarrow> (KrCompaction summary covers_up_to, pending)
      | TitleSet title \<Rightarrow> (KrTitleSet title, pending))"

definition encode_entry ::
    "(u8 list \<Rightarrow> rstring) \<Rightarrow> session_entry \<Rightarrow> pending_artifact list
      \<Rightarrow> entry_record \<times> pending_artifact list" where
  "encode_entry sha256_hex entry pending =
     (let (kind, pending1) = encode_kind sha256_hex (entry_kind entry) pending
      in (\<lparr>er_id = entry_id entry, er_parent = entry_parent entry, er_kind = kind\<rparr>, pending1))"

section \<open>Decoding\<close>

definition decode_reason :: "reason_record option \<Rightarrow> (cancel_reason, rstring) rres" where
  "decode_reason r =
     (case r of
        Some RecUser \<Rightarrow> Ok ReasonUser
      | Some RecTimeout \<Rightarrow> Ok ReasonTimeout
      | Some RecAbandoned \<Rightarrow> Ok ReasonAbandoned
      | None \<Rightarrow> Err (lit ''cancelled outcome is missing required reason''))"

definition decode_usage :: "token_usage_record \<Rightarrow> session_token_usage" where
  "decode_usage u =
     \<lparr>su_input_tokens = ur_input_tokens u, su_output_tokens = ur_output_tokens u,
      su_cache_read_tokens = ur_cache_read_tokens u, su_cache_write_tokens = ur_cache_write_tokens u,
      su_reasoning_tokens = ur_reasoning_tokens u\<rparr>"

definition decode_generation :: "generation_choice_record \<Rightarrow> session_generation_choice" where
  "decode_generation r =
     \<lparr>gc_provider = gr_provider r, gc_model_id = gr_model_id r, gc_reasoning_effort = gr_reasoning_effort r\<rparr>"

definition decode_block :: "assistant_block_record \<Rightarrow> session_assistant_block" where
  "decode_block b =
     (case b of
        BlkText text \<Rightarrow> STextBlock text
      | BlkToolCall i name arguments \<Rightarrow>
          SToolCall \<lparr>scall_id = i, scall_name = name, scall_arguments = arguments\<rparr>)"

definition decode_failure_kind :: "failure_kind_record \<Rightarrow> turn_failure_kind" where
  "decode_failure_kind k =
     (case k of
        RecModelCall \<Rightarrow> FkModelCall
      | RecInvalidModelOutput \<Rightarrow> FkInvalidModelOutput
      | RecPersistence \<Rightarrow> FkPersistence
      | RecRuntimeDriver \<Rightarrow> FkRuntimeDriver
      | RecToolExecution \<Rightarrow> FkToolExecution)"

definition decode_tool_result :: "tool_result_record \<Rightarrow> session_tool_result" where
  "decode_tool_result r =
     (case trr_outcome r of
        OutSuccess content \<Rightarrow> session_result_success (trr_call_id r) content
      | OutError code message \<Rightarrow> session_result_error (trr_call_id r) code message
      | OutCancelled \<Rightarrow> session_result_cancelled (trr_call_id r)
      | OutInterrupted \<Rightarrow> session_result_interrupted (trr_call_id r))"

type_synonym artifact_loader = "rstring \<Rightarrow> u64 \<Rightarrow> (u8 list, rstring) rres"

definition decode_part :: "artifact_loader \<Rightarrow> user_part_record \<Rightarrow> (session_user_part, rstring) rres" where
  "decode_part load_artifact part =
     (case part of
        PrtText text \<Rightarrow> Ok (SText text)
      | PrtImage media_type artifact len \<Rightarrow>
          rbind (load_artifact artifact len) (\<lambda>bytes. Ok (SImage media_type bytes)))"

definition decode_kind :: "artifact_loader \<Rightarrow> kind_record \<Rightarrow> (session_entry_kind, rstring) rres" where
  "decode_kind load_artifact kind =
     (case kind of
        KrOperationStarted operation_id \<Rightarrow> Ok (OperationStarted operation_id)
      | KrTurnStarted operation_id turn_id \<Rightarrow> Ok (TurnStarted operation_id turn_id)
      | KrUserMessage r \<Rightarrow>
          rbind (rmap (decode_part load_artifact) (umr_parts r)) (\<lambda>parts.
            Ok (UserMessage (umr_turn_id r) parts))
      | KrAssistantToolCallBatch r \<Rightarrow>
          Ok (AssistantToolCallBatch (abr_turn_id r) (abr_model_call_id r) (abr_tool_batch_id r)
                (map decode_block (abr_blocks r)))
      | KrToolResult turn_id tool_batch_id result \<Rightarrow>
          Ok (ToolResult turn_id tool_batch_id (decode_tool_result result))
      | KrAssistantMessage r \<Rightarrow> Ok (AssistantMessage (amr_turn_id r) (map decode_block (amr_blocks r)))
      | KrTurnFailure turn_id failure \<Rightarrow>
          Ok (TurnFailureEntry turn_id
                \<lparr>tf_kind = decode_failure_kind (fr_kind failure), tf_message = fr_message failure\<rparr>)
      | KrTurnTerminated turn_id outcome reason \<Rightarrow>
          (case outcome of
             RecSucceeded \<Rightarrow> Ok (TurnTerminated turn_id TurnSucceeded)
           | RecFailed \<Rightarrow> Ok (TurnTerminated turn_id TurnFailed)
           | RecCancelled \<Rightarrow>
               rbind (decode_reason reason) (\<lambda>r. Ok (TurnTerminated turn_id (TurnCancelled r))))
      | KrOperationSettled operation_id outcome reason usage generation \<Rightarrow>
          rbind
            (case outcome of
               RecSucceeded \<Rightarrow> Ok OpSucceeded
             | RecFailed \<Rightarrow> Ok OpFailed
             | RecCancelled \<Rightarrow> rbind (decode_reason reason) (\<lambda>r. Ok (OpCancelled r)))
            (\<lambda>oc. Ok (OperationSettled operation_id oc (map_option decode_usage usage)
                       (map_option decode_generation generation)))
      | KrCompaction summary covers_up_to \<Rightarrow> Ok (Compaction summary covers_up_to)
      | KrTitleSet title \<Rightarrow> Ok (TitleSet title))"

definition decode_entry :: "artifact_loader \<Rightarrow> entry_record \<Rightarrow> (session_entry, rstring) rres" where
  "decode_entry load_artifact record =
     rbind (decode_kind load_artifact (er_kind record)) (\<lambda>kind.
       Ok (from_persisted (er_id record) (er_parent record) kind))"

section \<open>The round trip\<close>

lemma decode_reason_encode [simp]: "decode_reason (Some (encode_reason r)) = Ok r"
  by (cases r) (simp_all add: decode_reason_def encode_reason_def)

lemma decode_usage_encode [simp]: "decode_usage (encode_usage u) = u"
  by (simp add: decode_usage_def encode_usage_def)

lemma decode_generation_encode [simp]: "decode_generation (encode_generation c) = c"
  by (simp add: decode_generation_def encode_generation_def)

lemma decode_block_encode [simp]: "decode_block (encode_block b) = b"
  by (cases b) (simp_all add: decode_block_def encode_block_def)

lemma decode_failure_kind_encode [simp]: "decode_failure_kind (encode_failure_kind k) = k"
  by (cases k) (simp_all add: decode_failure_kind_def encode_failure_kind_def)

lemma decode_tool_result_encode [simp]:
  "decode_tool_result \<lparr>trr_call_id = sresult_call_id r, trr_outcome = encode_tool_outcome (sresult_outcome r)\<rparr> = r"
  by (cases "sresult_outcome r")
    (simp_all add: decode_tool_result_def encode_tool_outcome_def session_result_success_def
      session_result_error_def session_result_cancelled_def session_result_interrupted_def)

text \<open>The images of an entry, and a loader that finds them under their hashes.\<close>

definition part_images :: "session_user_part \<Rightarrow> u8 list list" where
  "part_images part = (case part of SText _ \<Rightarrow> [] | SImage _ bytes \<Rightarrow> [bytes])"

definition kind_images :: "session_entry_kind \<Rightarrow> u8 list list" where
  "kind_images kind = (case kind of UserMessage _ parts \<Rightarrow> concat (map part_images parts) | _ \<Rightarrow> [])"

definition loads :: "(u8 list \<Rightarrow> rstring) \<Rightarrow> artifact_loader \<Rightarrow> u8 list list \<Rightarrow> bool" where
  "loads sha256_hex load_artifact images \<longleftrightarrow>
     (\<forall>bytes \<in> set images. load_artifact (sha256_hex bytes) (of_nat (length bytes)) = Ok bytes)"

lemma loads_append [simp]: "loads h l (xs @ ys) \<longleftrightarrow> loads h l xs \<and> loads h l ys"
  by (auto simp: loads_def)

lemma decode_part_encode:
  "loads h l (part_images part) \<Longrightarrow> decode_part l (fst (encode_part h part pending)) = Ok part"
  by (cases part) (simp_all add: encode_part_def decode_part_def part_images_def loads_def Let_def)

lemma fst_encode_list_map:
  "(\<And>x s. x \<in> set xs \<Longrightarrow> g (fst (f x s)) = Ok x) \<Longrightarrow> rmap g (fst (encode_list f xs s)) = Ok xs"
proof (induction xs arbitrary: s)
  case (Cons x xs)
  then show ?case by (simp add: case_prod_beta)
qed simp

lemma decode_parts_encode:
  "loads h l (concat (map part_images parts)) \<Longrightarrow>
    rmap (decode_part l) (fst (encode_list (encode_part h) parts pending)) = Ok parts"
  by (rule fst_encode_list_map) (auto simp: loads_def intro!: decode_part_encode)

lemma decode_kind_encode:
  assumes "loads h l (kind_images kind)"
  shows "decode_kind l (fst (encode_kind h kind pending)) = Ok kind"
proof (cases kind)
  case (UserMessage ti parts)
  with assms decode_parts_encode [of h l parts pending] show ?thesis
    by (simp add: encode_kind_def decode_kind_def kind_images_def case_prod_beta)
next
  case (TurnTerminated ti oc)
  then show ?thesis by (cases oc) (simp_all add: encode_kind_def decode_kind_def)
next
  case (OperationSettled oi oc u g)
  then show ?thesis
    by (cases oc) (simp_all add: encode_kind_def decode_kind_def option.map_comp comp_def option.map_ident)
qed (simp_all add: encode_kind_def decode_kind_def comp_def)

lemma decode_entry_encode:
  "loads h l (kind_images (entry_kind e)) \<Longrightarrow> decode_entry l (fst (encode_entry h e pending)) = Ok e"
  using decode_kind_encode [of h l "entry_kind e" pending]
  by (simp add: decode_entry_def encode_entry_def from_persisted_def case_prod_beta)

section \<open>The artifacts collected\<close>

definition collect_image :: "(u8 list \<Rightarrow> rstring) \<Rightarrow> u8 list \<Rightarrow> pending_artifact list \<Rightarrow> pending_artifact list" where
  "collect_image h bytes pending =
     (if list_ex (\<lambda>artifact. pa_hash artifact = h bytes) pending then pending
      else pending @ [\<lparr>pa_hash = h bytes, pa_bytes = bytes\<rparr>])"

definition entry_images :: "session_entry list \<Rightarrow> u8 list list" where
  "entry_images es = concat (map (\<lambda>e. kind_images (entry_kind e)) es)"

lemma snd_encode_part: "snd (encode_part h part pending) = fold (collect_image h) (part_images part) pending"
  by (cases part) (simp_all add: encode_part_def part_images_def collect_image_def Let_def)

lemma snd_encode_list:
  "(\<And>x s. snd (f x s) = fold g (k x) s) \<Longrightarrow> snd (encode_list f xs s) = fold g (concat (map k xs)) s"
proof (induction xs arbitrary: s)
  case (Cons x xs)
  then show ?case by (simp add: case_prod_beta)
qed simp

lemma snd_encode_kind: "snd (encode_kind h kind pending) = fold (collect_image h) (kind_images kind) pending"
proof (cases kind)
  case (UserMessage ti parts)
  then show ?thesis
    using snd_encode_list [of "encode_part h", OF snd_encode_part]
    by (simp add: encode_kind_def kind_images_def case_prod_beta)
qed (simp_all add: encode_kind_def kind_images_def case_prod_beta)

lemma snd_encode_entry:
  "snd (encode_entry h e pending) = fold (collect_image h) (kind_images (entry_kind e)) pending"
  using snd_encode_kind by (simp add: encode_entry_def case_prod_beta)

lemma snd_encode_entries:
  "snd (encode_list (encode_entry h) es pending) = fold (collect_image h) (entry_images es) pending"
  unfolding entry_images_def by (rule snd_encode_list) (rule snd_encode_entry)

lemma decode_entries_encode:
  "loads h l (entry_images es) \<Longrightarrow> rmap (decode_entry l) (fst (encode_list (encode_entry h) es pending)) = Ok es"
  by (rule fst_encode_list_map) (auto simp: loads_def entry_images_def intro!: decode_entry_encode)

text \<open>What is encoded does not depend on what was collected before.\<close>

lemma fst_encode_list:
  "(\<And>x s. fst (f x s) = g x) \<Longrightarrow> fst (encode_list f xs s) = map g xs"
proof (induction xs arbitrary: s)
  case (Cons x xs)
  then show ?case by (simp add: case_prod_beta)
qed simp

lemma fst_encode_part: "fst (encode_part h part pending) = fst (encode_part h part [])"
  by (cases part) (simp_all add: encode_part_def Let_def)

lemma fst_encode_kind: "fst (encode_kind h kind pending) = fst (encode_kind h kind [])"
proof (cases kind)
  case (UserMessage ti parts)
  then show ?thesis
    using fst_encode_list [of "encode_part h", OF fst_encode_part]
    by (simp add: encode_kind_def case_prod_beta)
qed (simp_all add: encode_kind_def case_prod_beta)

lemma fst_encode_entry: "fst (encode_entry h e pending) = fst (encode_entry h e [])"
  using fst_encode_kind [of h "entry_kind e" pending] by (simp add: encode_entry_def case_prod_beta)

text \<open>With a hash free of collisions every image is collected under its own bytes.\<close>

definition collected :: "(u8 list \<Rightarrow> rstring) \<Rightarrow> pending_artifact list \<Rightarrow> bool" where
  "collected h pending \<longleftrightarrow> (\<forall>a \<in> set pending. pa_hash a = h (pa_bytes a))"

lemma collect_images:
  assumes "inj h" "collected h pending"
  shows "collected h (fold (collect_image h) images pending)
    \<and> pa_bytes ` set (fold (collect_image h) images pending) = pa_bytes ` set pending \<union> set images"
  using assms(2)
proof (induction images arbitrary: pending)
  case (Cons b images)
  have "collected h (collect_image h b pending)"
    "pa_bytes ` set (collect_image h b pending) = insert b (pa_bytes ` set pending)"
    using Cons.prems injD [OF assms(1)]
    by (auto simp: collect_image_def collected_def list_ex_iff image_iff)
  with Cons.IH [OF this(1)] show ?case by simp
qed simp_all

end
