(* ===== verification/Jsonl_Recovery.thy ===== *)
theory Jsonl_Recovery
  imports Jsonl_Codec Session_Store
begin

text \<open>
  Opening a session of the JSONL store (\<^verbatim>\<open>artifact.rs\<close>, \<^verbatim>\<open>error.rs\<close>, \<^verbatim>\<open>store/recovery.rs\<close>,
  the files of \<^verbatim>\<open>store/layout.rs\<close>): the files of a session, the answers of the operating system,
  artifacts, the title sidecar, and the recovery of a log with a torn tail.

  The JSON library and the hash are a parameter (\<open>json_port\<close>). The operating system is a parameter
  too: for each command an \<open>io_plan\<close> says which calls fail, with the kind of error, and how much a
  failing write leaves behind.
\<close>

section \<open>Parameters\<close>

text \<open>Writing a record as one line, reading a line as a JSON value (an error says whether the input
  ended early), the field \<^verbatim>\<open>v\<close> of a value, and reading a value as a record; SHA-256 in hexadecimal;
  the \<^verbatim>\<open>Debug\<close> form of a session error.\<close>

record 'j json_port =
  jp_serialize :: "transaction_record \<Rightarrow> (u8 list, rstring) rres"
  jp_parse :: "u8 list \<Rightarrow> ('j, rstring \<times> bool) rres"
  jp_version :: "'j \<Rightarrow> u64 option"
  jp_record :: "'j \<Rightarrow> (transaction_record, rstring) rres"
  jp_sha256_hex :: "u8 list \<Rightarrow> rstring"
  jp_debug :: "session_error \<Rightarrow> rstring"

datatype lock_answer = LockTaken | LockHeld | LockFails rstring rstring

datatype truncate_answer =
  TruncateDone | TruncateOpenFails rstring | TruncateSetFails rstring | TruncateSyncFails rstring

text \<open>A failed artifact leaves a temporary file with the first bytes, or none.\<close>

datatype artifact_answer = ArtifactDone | ArtifactFails "nat option" rstring

text \<open>A failed append leaves the first bytes of the line; a failed sync leaves all of it.\<close>

datatype append_answer = AppendDone | AppendFails nat rstring | AppendSyncFails rstring

record io_plan =
  io_lock :: lock_answer
  io_read_log :: "rstring option"
  io_list_artifacts :: "rstring option"
  io_read_artifact :: "rstring \<Rightarrow> rstring option"
  io_truncate :: truncate_answer
  io_open_log :: "rstring option"
  io_title_readable :: bool
  io_title_written :: bool
  io_create_dir :: "rstring option"
  io_sync_dir :: "rstring option"
  io_sync_root :: "rstring option"
  io_artifact :: "rstring \<Rightarrow> artifact_answer"
  io_sync_artifacts :: "rstring option"
  io_append :: append_answer
  io_list_root :: "rstring option"
  io_modified :: "rstring \<Rightarrow> u64 option"
  io_final_sync :: "rstring \<Rightarrow> bool"

section \<open>Files and errors\<close>

text \<open>The files of one session directory: the log and how much of it is durable, the artifacts and
  those that are durable, and the title sidecar. A missing log reads as an empty one.\<close>

record session_files =
  sf_log :: "u8 list"
  sf_synced :: nat
  sf_artifacts :: "(rstring, u8 list) hashmap"
  sf_durable :: "(rstring, u8 list) hashmap"
  sf_title :: "rstring option"

definition files_new :: session_files where
  "files_new = \<lparr>sf_log = [], sf_synced = 0, sf_artifacts = [], sf_durable = [], sf_title = None\<rparr>"

datatype open_error = IoFailure rstring | Locked rstring | Corrupt u64 rstring | UnsupportedSchema u64

definition open_error_text :: "open_error \<Rightarrow> rstring" where
  "open_error_text e =
     (case e of
        IoFailure context \<Rightarrow> lit ''jsonl io failure: '' @ context
      | Locked path \<Rightarrow> lit ''jsonl session locked by another writer: '' @ path
      | Corrupt line reason \<Rightarrow>
          lit ''jsonl log corrupt at line '' @ dec (unat line) @ lit '': '' @ reason
      | UnsupportedSchema found \<Rightarrow>
          lit ''jsonl schema version '' @ dec (unat found) @ lit '' is unsupported (expected 2)'')"

definition io_error :: "string \<Rightarrow> rstring \<Rightarrow> open_error" where
  "io_error context kind = IoFailure (lit context @ lit '' ('' @ kind @ lit '')'')"

record recovery_report =
  rr_transactions :: u64
  rr_truncated_tail_bytes :: u64
  rr_orphan_artifacts :: "rstring list"

definition report_empty :: recovery_report where
  "report_empty = \<lparr>rr_transactions = 0, rr_truncated_tail_bytes = 0, rr_orphan_artifacts = []\<rparr>"

record session_state =
  st_projection :: session_projection
  st_report :: recovery_report
  st_sidecar_title :: "rstring option"
  st_poisoned :: "rstring option"

section \<open>Artifacts\<close>

definition temp_name :: "rstring \<Rightarrow> rstring" where
  "temp_name hash = hash @ lit ''.tmp''"

definition store_artifact ::
    "io_plan \<Rightarrow> pending_artifact \<Rightarrow> session_files \<Rightarrow> rstring option \<times> session_files" where
  "store_artifact plan a f =
     (let hash = pa_hash a; bytes = pa_bytes a; temp = temp_name hash in
      if hm_get (sf_artifacts f) hash \<noteq> None then (None, f)
      else case io_artifact plan hash of
          ArtifactDone \<Rightarrow>
            (None, f\<lparr>sf_artifacts := hm_insert hash bytes (hm_remove temp (sf_artifacts f))\<rparr>)
        | ArtifactFails written kind \<Rightarrow>
            (Some kind,
             case written of
               None \<Rightarrow> f
             | Some n \<Rightarrow> f\<lparr>sf_artifacts := hm_insert temp (take n bytes) (sf_artifacts f)\<rparr>))"

definition load_artifact ::
    "'j json_port \<Rightarrow> (rstring \<Rightarrow> rstring option) \<Rightarrow> (rstring, u8 list) hashmap \<Rightarrow> artifact_loader" where
  "load_artifact J unreadable artifacts hash expected_len =
     (let failed = (\<lambda>kind. Err (lit ''referenced artifact '' @ hash @ lit '' unreadable: '' @ kind)) in
      case unreadable hash of
        Some kind \<Rightarrow> failed kind
      | None \<Rightarrow>
          (case hm_get artifacts hash of
             None \<Rightarrow> failed (lit ''NotFound'')
           | Some bytes \<Rightarrow>
               if of_nat (length bytes) \<noteq> expected_len then
                 Err (lit ''artifact '' @ hash @ lit '' length '' @ dec (length bytes)
                      @ lit '' does not match recorded length '' @ dec (unat expected_len))
               else if jp_sha256_hex J bytes \<noteq> hash then
                 Err (lit ''artifact '' @ hash @ lit '' content does not match its hash'')
               else Ok bytes))"

section \<open>The title sidecar\<close>

definition read_title_file :: "io_plan \<Rightarrow> session_files \<Rightarrow> rstring option" where
  "read_title_file plan f =
     (if io_title_readable plan then
        (case sf_title f of
           None \<Rightarrow> None
         | Some text \<Rightarrow> if trim text \<noteq> [] then Some (trim text) else None)
      else None)"

definition write_title_file :: "io_plan \<Rightarrow> rstring option \<Rightarrow> session_files \<Rightarrow> session_files" where
  "write_title_file plan t f = (if io_title_written plan then f\<lparr>sf_title := t\<rparr> else f)"

definition sync_title_sidecar ::
    "io_plan \<Rightarrow> session_state \<Rightarrow> session_files \<Rightarrow> session_state \<times> session_files" where
  "sync_title_sidecar plan st f =
     (let resolved = title (st_projection st) in
      if resolved = st_sidecar_title st then (st, f)
      else
        (let f1 = write_title_file plan resolved f in
         if resolved = None \<or> read_title_file plan f1 = resolved
         then (st\<lparr>st_sidecar_title := resolved\<rparr>, f1) else (st, f1)))"

section \<open>Recovery\<close>

text \<open>The names of the artifacts a decoded transaction refers to.\<close>

definition part_artifact :: "user_part_record \<Rightarrow> rstring list" where
  "part_artifact part = (case part of PrtText _ \<Rightarrow> [] | PrtImage _ artifact _ \<Rightarrow> [artifact])"

definition record_artifacts :: "transaction_record \<Rightarrow> rstring list" where
  "record_artifacts r =
     concat (map (\<lambda>e. case er_kind e of
                        KrUserMessage m \<Rightarrow> concat (map part_artifact (umr_parts m))
                      | _ \<Rightarrow> []) (tr_entries r))"

text \<open>One complete line that is a JSON value.\<close>

definition recover_line ::
    "'j json_port \<Rightarrow> artifact_loader \<Rightarrow> u64 \<Rightarrow> 'j \<Rightarrow> session_projection
      \<Rightarrow> (session_projection \<times> rstring list, open_error) rres" where
  "recover_line J load line_number json projection =
     (case jp_version J json of
        None \<Rightarrow> Err (Corrupt line_number (lit ''envelope parse failed: missing numeric schema version''))
      | Some found \<Rightarrow>
          if found \<noteq> schema_version then Err (UnsupportedSchema found)
          else
            (case jp_record J json of
               Panic \<Rightarrow> Panic
             | Err error \<Rightarrow> Err (Corrupt line_number (lit ''envelope parse failed: '' @ error))
             | Ok record \<Rightarrow>
                 if tr_v record \<noteq> schema_version then Err (UnsupportedSchema (tr_v record))
                 else if tr_revision record \<noteq> line_number then
                   Err (Corrupt line_number
                     (lit ''revision '' @ dec (unat (tr_revision record))
                      @ lit '' does not match transaction position '' @ dec (unat line_number)))
                 else
                   (case rmap (decode_entry load) (tr_entries record) of
                      Panic \<Rightarrow> Panic
                    | Err reason \<Rightarrow> Err (Corrupt line_number reason)
                    | Ok entries \<Rightarrow>
                        (case replay projection entries of
                           Panic \<Rightarrow> Panic
                         | Err error \<Rightarrow>
                             Err (Corrupt line_number
                               (lit ''validation core rejected the transaction: '' @ jp_debug J error))
                         | Ok projection1 \<Rightarrow> Ok (projection1, record_artifacts record)))))"

text \<open>The loop over the lines: what remains of the bytes, the lines and bytes read so far. Its result
  has the offset a torn tail starts at, if there is one.\<close>

function recover_loop ::
    "'j json_port \<Rightarrow> artifact_loader \<Rightarrow> u8 list \<Rightarrow> u64 \<Rightarrow> nat \<Rightarrow> session_projection \<Rightarrow> rstring list
      \<Rightarrow> (session_projection \<times> rstring list \<times> nat option, open_error) rres" where
  "recover_loop J load bytes line_number offset projection referenced =
     (if bytes = [] then Ok (projection, referenced, None)
      else
        (case position (\<lambda>byte. byte = 10) bytes of
           None \<Rightarrow> Ok (projection, referenced, Some offset)
         | Some relative_end \<Rightarrow>
             (let line = take relative_end bytes;
                  rest = drop (Suc relative_end) bytes
              in case jp_parse J line of
                   Panic \<Rightarrow> Panic
                 | Err (error, is_eof) \<Rightarrow>
                     if rest = [] \<and> is_eof then Ok (projection, referenced, Some offset)
                     else Err (Corrupt (line_number + 1) (lit ''envelope parse failed: '' @ error))
                 | Ok json \<Rightarrow>
                     (case recover_line J load (line_number + 1) json projection of
                        Panic \<Rightarrow> Panic
                      | Err e \<Rightarrow> Err e
                      | Ok (projection1, names) \<Rightarrow>
                          recover_loop J load rest (line_number + 1) (offset + Suc relative_end)
                            projection1 (referenced @ names)))))"
  by pat_completeness auto
termination recover_loop
  by (relation "measure (\<lambda>(J, load, bytes, n, off, p, r). length bytes)") auto

declare recover_loop.simps [simp del]

definition orphans :: "rstring list \<Rightarrow> session_files \<Rightarrow> rstring list" where
  "orphans referenced f = sort (filter (\<lambda>name. name \<notin> set referenced) (hm_keys (sf_artifacts f)))"

definition truncate_tail ::
    "io_plan \<Rightarrow> nat option \<Rightarrow> session_files \<Rightarrow> (u64, open_error) rres \<times> session_files" where
  "truncate_tail plan truncate_at f =
     (case truncate_at of
        None \<Rightarrow> (Ok 0, f)
      | Some keep \<Rightarrow>
          (let shorter = f\<lparr>sf_log := take keep (sf_log f), sf_synced := min keep (sf_synced f)\<rparr> in
           case io_truncate plan of
             TruncateOpenFails kind \<Rightarrow> (Err (io_error ''opening log for tail truncation'' kind), f)
           | TruncateSetFails kind \<Rightarrow> (Err (io_error ''truncating torn tail'' kind), f)
           | TruncateSyncFails kind \<Rightarrow> (Err (io_error ''syncing truncated log'' kind), shorter)
           | TruncateDone \<Rightarrow>
               (Ok (of_nat (length (sf_log f)) - of_nat keep), shorter\<lparr>sf_synced := keep\<rparr>)))"

text \<open>Whether the lock is free; \<open>path\<close> is the path of the lock file.\<close>

definition acquire_lock :: "io_plan \<Rightarrow> rstring \<Rightarrow> (unit, open_error) rres" where
  "acquire_lock plan path =
     (case io_lock plan of
        LockTaken \<Rightarrow> Ok ()
      | LockHeld \<Rightarrow> Err (Locked path)
      | LockFails context kind \<Rightarrow> Err (IoFailure (context @ lit '' ('' @ kind @ lit '')'')))"

definition read_log :: "io_plan \<Rightarrow> session_files \<Rightarrow> (u8 list, open_error) rres" where
  "read_log plan f =
     (case io_read_log plan of
        Some kind \<Rightarrow> Err (io_error ''reading session log'' kind)
      | None \<Rightarrow> Ok (sf_log f))"

definition list_orphans ::
    "io_plan \<Rightarrow> rstring list \<Rightarrow> session_files \<Rightarrow> (rstring list, open_error) rres" where
  "list_orphans plan referenced f =
     (case io_list_artifacts plan of
        Some kind \<Rightarrow>
          if sf_artifacts f \<noteq> [] then Err (io_error ''listing artifacts'' kind) else Ok []
      | None \<Rightarrow> Ok (orphans referenced f))"

definition open_log :: "io_plan \<Rightarrow> string \<Rightarrow> (unit, open_error) rres" where
  "open_log plan context =
     (case io_open_log plan of
        Some kind \<Rightarrow> Err (io_error context kind)
      | None \<Rightarrow> Ok ())"

definition recover_locked ::
    "'j json_port \<Rightarrow> io_plan \<Rightarrow> rstring \<Rightarrow> session_files
      \<Rightarrow> (session_state, open_error) rres \<times> session_files" where
  "recover_locked J plan path f =
     (case rbind (acquire_lock plan path) (\<lambda>_.
           rbind (read_log plan f) (\<lambda>bytes.
           rbind (recover_loop J (load_artifact J (io_read_artifact plan) (sf_artifacts f)) bytes 0 0
                    projection_empty [])
             (\<lambda>(projection, referenced, truncate_at).
           rbind (list_orphans plan referenced f) (\<lambda>orphan_artifacts.
             Ok (projection, orphan_artifacts, truncate_at))))) of
        Panic \<Rightarrow> (Panic, f)
      | Err e \<Rightarrow> (Err e, f)
      | Ok (projection, orphan_artifacts, truncate_at) \<Rightarrow>
          (case truncate_tail plan truncate_at f of
             (Panic, f1) \<Rightarrow> (Panic, f1)
           | (Err e, f1) \<Rightarrow> (Err e, f1)
           | (Ok truncated_tail_bytes, f1) \<Rightarrow>
               (case open_log plan ''opening log for append'' of
                  Panic \<Rightarrow> (Panic, f1)
                | Err e \<Rightarrow> (Err e, f1)
                | Ok _ \<Rightarrow>
                    (let resolved = title projection;
                         f2 = (if read_title_file plan f1 \<noteq> resolved
                               then write_title_file plan resolved f1 else f1)
                     in (Ok \<lparr>st_projection = projection,
                             st_report = \<lparr>rr_transactions = revision_get (sp_revision projection),
                               rr_truncated_tail_bytes = truncated_tail_bytes,
                               rr_orphan_artifacts = orphan_artifacts\<rparr>,
                             st_sidecar_title = resolved, st_poisoned = None\<rparr>, f2)))))"

end
