(* ===== verification/Jsonl_Layout.thy ===== *)
theory Jsonl_Layout
  imports Philo_Prelude
begin

text \<open>
  The directory names of sessions (\<^verbatim>\<open>philo-session-jsonl/src/store/layout.rs\<close>): an encoding of the
  UTF-8 bytes of the id into lower-case letters, digits and escapes. Bytes and the characters of the
  ASCII names are numbers here. \<^verbatim>\<open>String::bytes\<close> and \<^verbatim>\<open>String::from_utf8\<close> are the encoder and the
  strict decoder of UTF-8.
\<close>

section \<open>UTF-8\<close>

definition is_scalar :: "nat \<Rightarrow> bool" where
  "is_scalar c \<longleftrightarrow> c < 0xD800 \<or> 0xE000 \<le> c \<and> c < 0x110000"

definition utf8_char :: "nat \<Rightarrow> nat list" where
  "utf8_char c =
     (if c < 128 then [c]
      else if c < 2048 then [192 + c div 64, 128 + c mod 64]
      else if c < 65536 then [224 + c div 4096, 128 + c div 64 mod 64, 128 + c mod 64]
      else [240 + c div 262144, 128 + c div 4096 mod 64, 128 + c div 64 mod 64, 128 + c mod 64])"

definition utf8_encode :: "rstring \<Rightarrow> nat list" where
  "utf8_encode s = concat (map utf8_char s)"

definition continuation :: "nat \<Rightarrow> bool" where
  "continuation b \<longleftrightarrow> 128 \<le> b \<and> b < 192"

fun utf8_decode :: "nat list \<Rightarrow> rstring option" where
  "utf8_decode [] = Some []"
| "utf8_decode (b0 # bs) =
     (if b0 < 128 then map_option (Cons b0) (utf8_decode bs)
      else if 194 \<le> b0 \<and> b0 < 224 then
        (case bs of
           b1 # bs1 \<Rightarrow>
             if continuation b1 then
               map_option (Cons ((b0 - 192) * 64 + (b1 - 128))) (utf8_decode bs1)
             else None
         | _ \<Rightarrow> None)
      else if 224 \<le> b0 \<and> b0 < 240 then
        (case bs of
           b1 # b2 # bs2 \<Rightarrow>
             if continuation b1 \<and> continuation b2 \<and> (b0 = 224 \<longrightarrow> 160 \<le> b1) \<and> (b0 = 237 \<longrightarrow> b1 < 160) then
               map_option (Cons ((b0 - 224) * 4096 + (b1 - 128) * 64 + (b2 - 128))) (utf8_decode bs2)
             else None
         | _ \<Rightarrow> None)
      else if 240 \<le> b0 \<and> b0 < 245 then
        (case bs of
           b1 # b2 # b3 # bs3 \<Rightarrow>
             if continuation b1 \<and> continuation b2 \<and> continuation b3
                \<and> (b0 = 240 \<longrightarrow> 144 \<le> b1) \<and> (b0 = 244 \<longrightarrow> b1 < 144) then
               map_option (Cons ((b0 - 240) * 262144 + (b1 - 128) * 4096 + (b2 - 128) * 64 + (b3 - 128)))
                 (utf8_decode bs3)
             else None
         | _ \<Rightarrow> None)
      else None)"

lemma length_utf8_char: "length (utf8_char c) = utf8_len c"
  by (simp add: utf8_char_def utf8_len_def)

lemma utf8_char_bytes: "is_scalar c \<Longrightarrow> b \<in> set (utf8_char c) \<Longrightarrow> b < 256"
  by (auto simp: utf8_char_def is_scalar_def split: if_split_asm)

lemma split_two: "(c :: nat) div 64 * 64 + c mod 64 = c"
  by simp

lemma split_three: "(c :: nat) div 4096 * 4096 + c div 64 mod 64 * 64 + c mod 64 = c"
proof -
  have "c div 64 div 64 * 64 + c div 64 mod 64 = c div 64" by (rule split_two)
  then have "(c div 4096 * 64 + c div 64 mod 64) * 64 + c mod 64 = c"
    using split_two [of c] by (simp add: div_mult2_eq [symmetric])
  then show ?thesis by (simp add: algebra_simps)
qed

lemma split_four:
  "(c :: nat) div 262144 * 262144 + c div 4096 mod 64 * 4096 + c div 64 mod 64 * 64 + c mod 64 = c"
proof -
  have "c div 4096 div 64 * 64 + c div 4096 mod 64 = c div 4096" by (rule split_two)
  then have "(c div 262144 * 64 + c div 4096 mod 64) * 4096 + c div 64 mod 64 * 64 + c mod 64 = c"
    using split_three [of c] by (simp add: div_mult2_eq [symmetric])
  then show ?thesis by (simp add: algebra_simps)
qed

lemma utf8_decode_char:
  assumes "is_scalar c"
  shows "utf8_decode (utf8_char c @ bs) = map_option (Cons c) (utf8_decode bs)"
proof -
  consider "c < 128" | "128 \<le> c" "c < 2048" | "2048 \<le> c" "c < 65536" | "65536 \<le> c" "c < 0x110000"
    using assms by (force simp: is_scalar_def)
  then show ?thesis
  proof cases
    case 1
    then show ?thesis by (simp add: utf8_char_def)
  next
    case 2
    then have "2 \<le> c div 64" "c div 64 < 32" by auto
    with 2 split_two [of c] show ?thesis by (simp add: utf8_char_def continuation_def)
  next
    case 3
    then have lead: "c div 4096 < 16" by auto
    have first: "c div 4096 = 0 \<Longrightarrow> 32 \<le> c div 64 mod 64"
    proof -
      assume "c div 4096 = 0"
      then have "c < 4096" by (simp add: div_eq_0_iff)
      then have "c div 64 < 64" by auto
      with 3 show ?thesis by simp
    qed
    have surrogate: "c div 4096 = 13 \<Longrightarrow> c div 64 mod 64 < 32"
    proof -
      assume 13: "c div 4096 = 13"
      then have "53248 \<le> c" "c < 57344" by auto
      with assms have "c < 55296" by (auto simp: is_scalar_def)
      with 13 split_three [of c] show ?thesis by simp
    qed
    from 3 lead first surrogate split_three [of c] show ?thesis
      by (simp add: utf8_char_def continuation_def)
  next
    case 4
    then have lead: "c div 262144 < 5" by auto
    have first: "c div 262144 = 0 \<Longrightarrow> 16 \<le> c div 4096 mod 64"
    proof -
      assume "c div 262144 = 0"
      then have "c < 262144" by (simp add: div_eq_0_iff)
      then have "c div 4096 < 64" by auto
      with 4 show ?thesis by simp
    qed
    have last: "c div 262144 = 4 \<Longrightarrow> c div 4096 mod 64 < 16"
      using 4 split_four [of c] by simp
    from 4 lead first last split_four [of c] show ?thesis
      by (simp add: utf8_char_def continuation_def)
  qed
qed

lemma utf8_roundtrip: "list_all is_scalar s \<Longrightarrow> utf8_decode (utf8_encode s) = Some s"
  by (induction s) (simp_all add: utf8_encode_def utf8_decode_char)

section \<open>Directory names\<close>

definition plain_byte :: "nat \<Rightarrow> bool" where
  "plain_byte b \<longleftrightarrow> 97 \<le> b \<and> b \<le> 122 \<or> 48 \<le> b \<and> b \<le> 57 \<or> b = 45 \<or> b = 95"

text \<open>One upper-case hexadecimal digit, and the encoding of one byte.\<close>

definition hex_digit :: "nat \<Rightarrow> nat" where
  "hex_digit n = (if n < 10 then 48 + n else 55 + n)"

definition dir_byte :: "nat \<Rightarrow> rstring" where
  "dir_byte b = (if plain_byte b then [b] else [37, hex_digit (b div 16), hex_digit (b mod 16)])"

definition session_dir_name :: "rstring \<Rightarrow> rstring" where
  "session_dir_name sid = lit ''s-'' @ concat (map dir_byte (utf8_encode sid))"

definition hex_value :: "nat \<Rightarrow> nat option" where
  "hex_value b =
     (if 48 \<le> b \<and> b \<le> 57 then Some (b - 48)
      else if 65 \<le> b \<and> b \<le> 70 then Some (b - 65 + 10)
      else None)"

text \<open>The loop over the bytes of the name.\<close>

fun decode_dir_bytes :: "nat list \<Rightarrow> nat list option" where
  "decode_dir_bytes [] = Some []"
| "decode_dir_bytes (b # bs) =
     (if b = 37 then
        (case bs of
           h # l # rest \<Rightarrow>
             (case hex_value h of
                None \<Rightarrow> None
              | Some high \<Rightarrow>
                  (case hex_value l of
                     None \<Rightarrow> None
                   | Some low \<Rightarrow> map_option (Cons (high * 16 + low)) (decode_dir_bytes rest)))
         | _ \<Rightarrow> None)
      else if plain_byte b then map_option (Cons b) (decode_dir_bytes bs)
      else None)"

definition decode_session_dir_name :: "rstring \<Rightarrow> rstring option" where
  "decode_session_dir_name name =
     (if take 2 name = lit ''s-'' then
        Option.bind (decode_dir_bytes (drop 2 name)) (\<lambda>decoded.
        Option.bind (utf8_decode decoded) (\<lambda>sid.
          if session_dir_name sid = name then Some sid else None))
      else None)"

lemma hex_value_digit: "n < 16 \<Longrightarrow> hex_value (hex_digit n) = Some n"
  by (auto simp: hex_value_def hex_digit_def)

lemma decode_dir_byte:
  assumes "b < 256"
  shows "decode_dir_bytes (dir_byte b @ bs) = map_option (Cons b) (decode_dir_bytes bs)"
proof (cases "plain_byte b")
  case True
  then have "b \<noteq> 37" by (auto simp: plain_byte_def)
  with True show ?thesis by (simp add: dir_byte_def)
next
  case False
  have "b div 16 < 16" using assms by auto
  with False show ?thesis by (simp add: dir_byte_def hex_value_digit)
qed

lemma decode_dir_name: "\<forall>b \<in> set bs. b < 256 \<Longrightarrow> decode_dir_bytes (concat (map dir_byte bs)) = Some bs"
  by (induction bs) (simp_all add: decode_dir_byte)

lemma utf8_bytes_small: "list_all is_scalar s \<Longrightarrow> b \<in> set (utf8_encode s) \<Longrightarrow> b < 256"
  by (auto simp: utf8_encode_def list_all_iff dest: utf8_char_bytes)

lemma dir_name_decodes:
  assumes "list_all is_scalar sid"
  shows "decode_session_dir_name (session_dir_name sid) = Some sid"
proof -
  have "decode_dir_bytes (drop 2 (session_dir_name sid)) = Some (utf8_encode sid)"
    using decode_dir_name [of "utf8_encode sid"] utf8_bytes_small [OF assms]
    by (simp add: session_dir_name_def)
  then show ?thesis
    using utf8_roundtrip [OF assms]
    by (simp add: decode_session_dir_name_def session_dir_name_def)
qed

lemma decoded_name_canonical: "decode_session_dir_name name = Some sid \<Longrightarrow> name = session_dir_name sid"
  by (auto simp: decode_session_dir_name_def Option.bind_eq_Some_conv split: if_split_asm)

text \<open>The characters of a name: nothing a path separator or a relative path could be made of.\<close>

definition safe_name_char :: "nat \<Rightarrow> bool" where
  "safe_name_char b \<longleftrightarrow> plain_byte b \<or> b = 37 \<or> 65 \<le> b \<and> b \<le> 70"

lemma hex_digit_safe: "n < 16 \<Longrightarrow> safe_name_char (hex_digit n)"
  by (simp add: safe_name_char_def hex_digit_def plain_byte_def)

lemma dir_byte_safe: "b < 256 \<Longrightarrow> list_all safe_name_char (dir_byte b)"
proof -
  assume "b < 256"
  then have "b div 16 < 16" "b mod 16 < 16" by auto
  from this [THEN hex_digit_safe] show ?thesis by (simp add: dir_byte_def) (simp add: safe_name_char_def)
qed

lemma dir_name_safe:
  assumes "list_all is_scalar sid" and "x \<in> set (session_dir_name sid)"
  shows "safe_name_char x"
proof -
  have "list_all safe_name_char (lit ''s-'')" by code_simp
  then have "safe_name_char y" if "y \<in> set (lit ''s-'')" for y using that by (simp add: list_all_iff)
  moreover have "safe_name_char y" if "y \<in> set (dir_byte b)" "b \<in> set (utf8_encode sid)" for y b
    using that utf8_bytes_small [OF assms(1)] dir_byte_safe [of b] by (simp add: list_all_iff)
  ultimately show ?thesis using assms(2) by (auto simp: session_dir_name_def)
qed

end
