(* ===== verification/Jsonl_Store.thy ===== *)
theory Jsonl_Store
  imports Jsonl_Recovery Jsonl_Layout
begin

text \<open>
  The actor of the JSONL session store (\<^verbatim>\<open>philo-session-jsonl/src/store/actor.rs\<close>): the sessions
  it has opened, the session directories on disk, and one operation per command. Directories are
  keyed by the session id; that their names do not clash is \<open>session_dir_roundtrip\<close>. The plans of
  the operating system are consumed one per command.
\<close>

record jsonl_store =
  js_root :: rstring
  js_disk :: "(rstring, session_files) hashmap"
  js_foreign :: "rstring list"
  js_sessions :: "(rstring, session_state) hashmap"
  js_io :: "nat \<Rightarrow> io_plan"
  js_tick :: nat

definition jsonl_new :: "rstring \<Rightarrow> (nat \<Rightarrow> io_plan) \<Rightarrow> jsonl_store" where
  "jsonl_new root io =
     \<lparr>js_root = root, js_disk = [], js_foreign = [], js_sessions = [], js_io = io, js_tick = 0\<rparr>"

definition session_dir :: "jsonl_store \<Rightarrow> rstring \<Rightarrow> rstring" where
  "session_dir s sid = js_root s @ lit ''/'' @ session_dir_name sid"

definition files_of :: "jsonl_store \<Rightarrow> rstring \<Rightarrow> session_files" where
  "files_of s sid = (case hm_get (js_disk s) sid of Some f \<Rightarrow> f | None \<Rightarrow> files_new)"

definition set_files :: "rstring \<Rightarrow> session_files \<Rightarrow> jsonl_store \<Rightarrow> jsonl_store" where
  "set_files sid f s = s\<lparr>js_disk := hm_insert sid f (js_disk s)\<rparr>"

definition set_state :: "rstring \<Rightarrow> session_state \<Rightarrow> jsonl_store \<Rightarrow> jsonl_store" where
  "set_state sid st s = s\<lparr>js_sessions := hm_insert sid st (js_sessions s)\<rparr>"

definition lock_path :: "jsonl_store \<Rightarrow> rstring \<Rightarrow> rstring" where
  "lock_path s sid = session_dir s sid @ lit ''/lock''"

section \<open>Opening sessions\<close>

text \<open>A session directory that exists is recovered.\<close>

definition recover_existing ::
    "'j json_port \<Rightarrow> io_plan \<Rightarrow> rstring \<Rightarrow> jsonl_store
      \<Rightarrow> (session_state, open_error) rres \<times> jsonl_store" where
  "recover_existing J plan sid s =
     (case recover_locked J plan (lock_path s sid) (files_of s sid) of
        (r, f) \<Rightarrow> (r, set_files sid f s))"

definition create_session ::
    "io_plan \<Rightarrow> rstring \<Rightarrow> jsonl_store \<Rightarrow> (session_state, open_error) rres \<times> jsonl_store" where
  "create_session plan sid s =
     (case io_create_dir plan of
        Some kind \<Rightarrow> (Err (io_error ''creating session dir'' kind), s)
      | None \<Rightarrow>
          (rbind (acquire_lock plan (lock_path s sid)) (\<lambda>_.
           rbind (open_log plan ''creating session log'') (\<lambda>_.
           rbind (case io_sync_dir plan of Some kind \<Rightarrow> Err (io_error ''syncing directory'' kind) | None \<Rightarrow> Ok ())
             (\<lambda>_.
           rbind (case io_sync_root plan of Some kind \<Rightarrow> Err (io_error ''syncing directory'' kind) | None \<Rightarrow> Ok ())
             (\<lambda>_.
             Ok \<lparr>st_projection = projection_empty, st_report = report_empty, st_sidecar_title = None,
                 st_poisoned = None\<rparr>)))),
           set_files sid files_new s))"

definition touch ::
    "'j json_port \<Rightarrow> io_plan \<Rightarrow> rstring \<Rightarrow> bool \<Rightarrow> jsonl_store
      \<Rightarrow> (session_state option, open_error) rres \<times> jsonl_store" where
  "touch J plan sid create_missing s =
     (case hm_get (js_sessions s) sid of
        Some st \<Rightarrow> (Ok (Some st), s)
      | None \<Rightarrow>
          (let opened = (\<lambda>(r, s1). case r of
                 Panic \<Rightarrow> (Panic, s1)
               | Err e \<Rightarrow> (Err e, s1)
               | Ok st \<Rightarrow> (Ok (Some st), set_state sid st s1))
           in if hm_get (js_disk s) sid \<noteq> None then opened (recover_existing J plan sid s)
              else if create_missing then opened (create_session plan sid s)
              else (Ok None, s)))"

section \<open>Commands\<close>

definition next_plan :: "jsonl_store \<Rightarrow> io_plan \<times> jsonl_store" where
  "next_plan s = (js_io s (js_tick s), s\<lparr>js_tick := js_tick s + 1\<rparr>)"

definition jsonl_context_view ::
    "'j json_port \<Rightarrow> rstring \<Rightarrow> jsonl_store
      \<Rightarrow> (session_context_view, session_error) rres \<times> jsonl_store" where
  "jsonl_context_view J sid s =
     (let (plan, s0) = next_plan s in
      case touch J plan sid False s0 of
        (Ok (Some st), s1) \<Rightarrow> (context_view (st_projection st) sid, s1)
      | (Ok None, s1) \<Rightarrow> (context_view projection_empty sid, s1)
      | (Err e, s1) \<Rightarrow> (Err (StoreUnavailable (open_error_text e)), s1)
      | (Panic, s1) \<Rightarrow> (Panic, s1))"

definition jsonl_recover_session ::
    "'j json_port \<Rightarrow> rstring \<Rightarrow> jsonl_store \<Rightarrow> (recovery_report, open_error) rres \<times> jsonl_store" where
  "jsonl_recover_session J sid s =
     (let (plan, s0) = next_plan s in
      case hm_get (js_sessions s0) sid of
        Some st \<Rightarrow> (Ok (st_report st), s0)
      | None \<Rightarrow>
          if hm_get (js_disk s0) sid = None then (Ok report_empty, s0)
          else (case recover_existing J plan sid s0 of
                  (Ok st, s1) \<Rightarrow> (Ok (st_report st), set_state sid st s1)
                | (Err e, s1) \<Rightarrow> (Err e, s1)
                | (Panic, s1) \<Rightarrow> (Panic, s1)))"

text \<open>The directories of the store root: those of the sessions, and others, whose names decode to
  nothing or are not looked at.\<close>

definition scan_session_dirs :: "io_plan \<Rightarrow> jsonl_store \<Rightarrow> ((rstring \<times> rstring) list, open_error) rres" where
  "scan_session_dirs plan s =
     (case io_list_root plan of
        Some kind \<Rightarrow> Err (io_error ''listing store root'' kind)
      | None \<Rightarrow>
          Ok (List.map_filter (\<lambda>name. map_option (\<lambda>sid. (sid, name)) (decode_session_dir_name name))
                (map session_dir_name (hm_keys (js_disk s)) @ js_foreign s)))"

definition jsonl_list_sessions :: "jsonl_store \<Rightarrow> (rstring list, open_error) rres \<times> jsonl_store" where
  "jsonl_list_sessions s =
     (let (plan, s0) = next_plan s
      in (rbind (scan_session_dirs plan s0) (\<lambda>dirs. Ok (map fst dirs)), s0))"

definition jsonl_list_session_summaries ::
    "jsonl_store \<Rightarrow> (session_summary list, open_error) rres \<times> jsonl_store" where
  "jsonl_list_session_summaries s =
     (let (plan, s0) = next_plan s
      in (rbind (scan_session_dirs plan s0) (\<lambda>dirs.
            Ok (map (\<lambda>(sid, dir).
                   \<lparr>sum_session_id = sid, sum_title = read_title_file plan (files_of s0 sid),
                    sum_updated_at = io_modified plan sid\<rparr>) dirs)), s0))"

subsection \<open>Commit\<close>

fun store_artifacts ::
    "io_plan \<Rightarrow> pending_artifact list \<Rightarrow> session_files \<Rightarrow> rstring option \<times> session_files" where
  "store_artifacts plan [] f = (None, f)"
| "store_artifacts plan (a # pending) f =
     (case store_artifact plan a f of
        (None, f1) \<Rightarrow> store_artifacts plan pending f1
      | (Some kind, f1) \<Rightarrow>
          (Some (lit ''artifact write or fsync failed ('' @ kind @ lit '')''), f1))"

text \<open>The artifacts before the line: the reason of a failure, if any.\<close>

definition write_artifacts ::
    "io_plan \<Rightarrow> pending_artifact list \<Rightarrow> session_files \<Rightarrow> rstring option \<times> session_files" where
  "write_artifacts plan pending f =
     (if pending = [] then (None, f)
      else case store_artifacts plan pending f of
          (Some reason, f1) \<Rightarrow> (Some reason, f1)
        | (None, f1) \<Rightarrow>
            (case io_sync_artifacts plan of
               Some kind \<Rightarrow>
                 (Some (lit ''artifact directory sync failed: ''
                        @ open_error_text (io_error ''syncing directory'' kind)), f1)
             | None \<Rightarrow> (None, f1\<lparr>sf_durable := sf_artifacts f1\<rparr>)))"

definition append_line :: "io_plan \<Rightarrow> u8 list \<Rightarrow> session_files \<Rightarrow> rstring option \<times> session_files" where
  "append_line plan line f =
     (let failed = (\<lambda>kind. Some (lit ''append or fsync failed ('' @ kind @ lit '')'')) in
      case io_append plan of
        AppendDone \<Rightarrow>
          (None, f\<lparr>sf_log := sf_log f @ line, sf_synced := length (sf_log f @ line)\<rparr>)
      | AppendFails n kind \<Rightarrow> (failed kind, f\<lparr>sf_log := sf_log f @ take n line\<rparr>)
      | AppendSyncFails kind \<Rightarrow> (failed kind, f\<lparr>sf_log := sf_log f @ line\<rparr>))"

definition transaction_record_of ::
    "(u8 list \<Rightarrow> rstring) \<Rightarrow> u64 \<Rightarrow> session_entry list \<Rightarrow> transaction_record \<times> pending_artifact list" where
  "transaction_record_of sha256_hex revision entries =
     (let (rs, pending) = encode_list (encode_entry sha256_hex) entries []
      in (\<lparr>tr_v = schema_version, tr_revision = revision, tr_entries = rs\<rparr>, pending))"

definition poison ::
    "rstring \<Rightarrow> rstring \<Rightarrow> session_state \<Rightarrow> session_files \<Rightarrow> jsonl_store
      \<Rightarrow> (session_commit, session_error) rres \<times> jsonl_store" where
  "poison sid reason st f s =
     (Err (StoreUnavailable reason), set_state sid (st\<lparr>st_poisoned := Some reason\<rparr>) (set_files sid f s))"

text \<open>After the checks: the artifacts, the line, the new projection, the title.\<close>

definition write_transaction ::
    "'j json_port \<Rightarrow> io_plan \<Rightarrow> rstring \<Rightarrow> applied_transaction \<Rightarrow> session_state \<Rightarrow> jsonl_store
      \<Rightarrow> (session_commit, session_error) rres \<times> jsonl_store" where
  "write_transaction J plan sid applied st s =
     (let (record, pending) =
            transaction_record_of (jp_sha256_hex J) (revision_get (sp_revision (at_projection applied)))
              (at_entries applied)
      in case write_artifacts plan pending (files_of s sid) of
           (Some reason, f1) \<Rightarrow> poison sid reason st f1 s
         | (None, f1) \<Rightarrow>
             (case jp_serialize J record of
                Panic \<Rightarrow> (Panic, set_files sid f1 s)
              | Err error \<Rightarrow>
                  (Err (StoreUnavailable (lit ''envelope serialization failed: '' @ error)),
                   set_files sid f1 s)
              | Ok line \<Rightarrow>
                  (case append_line plan (line @ [10]) f1 of
                     (Some reason, f2) \<Rightarrow> poison sid reason st f2 s
                   | (None, f2) \<Rightarrow>
                       (let (st1, f3) =
                              sync_title_sidecar plan (st\<lparr>st_projection := at_projection applied\<rparr>) f2
                        in (applied_commit applied, set_state sid st1 (set_files sid f3 s))))))"

definition commit_loaded ::
    "'j json_port \<Rightarrow> io_plan \<Rightarrow> session_transaction \<Rightarrow> session_state \<Rightarrow> jsonl_store
      \<Rightarrow> (session_commit, session_error) rres \<times> jsonl_store" where
  "commit_loaded J plan tx st s =
     (case st_poisoned st of
        Some reason \<Rightarrow>
          (Err (StoreUnavailable (lit ''session refused after write failure: '' @ reason)), s)
      | None \<Rightarrow>
          if tx_expected_revision tx \<noteq> sp_revision (st_projection st) then
            (Err (RevisionConflict (tx_expected_revision tx) (sp_revision (st_projection st))), s)
          else
            (case apply_transaction (st_projection st) tx of
               Panic \<Rightarrow> (Panic, s)
             | Err e \<Rightarrow> (Err e, s)
             | Ok applied \<Rightarrow> write_transaction J plan (tx_session_id tx) applied st s))"

definition jsonl_commit ::
    "'j json_port \<Rightarrow> jsonl_store \<Rightarrow> session_transaction
      \<Rightarrow> (session_commit, session_error) rres \<times> jsonl_store" where
  "jsonl_commit J s tx =
     (let (plan, s0) = next_plan s in
      case touch J plan (tx_session_id tx) True s0 of
        (Ok (Some st), s1) \<Rightarrow> commit_loaded J plan tx st s1
      | (Ok None, s1) \<Rightarrow> (Panic, s1)
      | (Err e, s1) \<Rightarrow> (Err (StoreUnavailable (open_error_text e)), s1)
      | (Panic, s1) \<Rightarrow> (Panic, s1))"

subsection \<open>Stopping\<close>

text \<open>A last sync of every open log, whose failure is ignored, and the sessions are closed.\<close>

definition final_sync :: "io_plan \<Rightarrow> rstring \<Rightarrow> session_files \<Rightarrow> session_files" where
  "final_sync plan sid f = (if io_final_sync plan sid then f\<lparr>sf_synced := length (sf_log f)\<rparr> else f)"

definition jsonl_finish :: "jsonl_store \<Rightarrow> jsonl_store" where
  "jsonl_finish s =
     (let (plan, s0) = next_plan s
      in (fold (\<lambda>sid s. set_files sid (final_sync plan sid (files_of s sid)) s) (hm_keys (js_sessions s0)) s0)
           \<lparr>js_sessions := []\<rparr>)"

section \<open>Crashes\<close>

text \<open>The process is gone and with it the sessions it had open; a new one opens the same root.\<close>

definition jsonl_restart :: "jsonl_store \<Rightarrow> jsonl_store" where
  "jsonl_restart s = s\<lparr>js_sessions := []\<rparr>"

text \<open>What a loss of power may leave of the files: the durable bytes of the log and any prefix of the
  rest, each artifact as it is or as it last was durable, and anything in temporary files. Syncing the
  log is taken to make the path to it durable, so that only a directory whose log was never synced
  may be lost.\<close>

definition survives :: "session_files \<Rightarrow> session_files \<Rightarrow> bool" where
  "survives f f' \<longleftrightarrow>
     (\<exists>n. sf_synced f \<le> n \<and> sf_log f' = take n (sf_log f))
     \<and> sf_synced f' = length (sf_log f')
     \<and> (\<forall>name. (\<nexists>hash. name = temp_name hash) \<longrightarrow>
          hm_get (sf_artifacts f') name \<in> {hm_get (sf_artifacts f) name, hm_get (sf_durable f) name})
     \<and> sf_durable f' = sf_artifacts f'"

definition power_loss :: "jsonl_store \<Rightarrow> jsonl_store \<Rightarrow> bool" where
  "power_loss s s' \<longleftrightarrow>
     js_sessions s' = []
     \<and> (\<forall>sid. case hm_get (js_disk s) sid of
            None \<Rightarrow> hm_get (js_disk s') sid = None
          | Some f \<Rightarrow>
              (case hm_get (js_disk s') sid of
                 None \<Rightarrow> sf_synced f = 0
               | Some f' \<Rightarrow> survives f f'))"

end
