(* ===== verification/Jsonl_Durable.thy ===== *)
theory Jsonl_Durable
  imports Jsonl_Store "HOL-Library.Sublist"
begin

text \<open>
  What the JSONL store has on disk: the log of a history, what recovery makes of it, and the
  invariant that relates the files and the open state of a session to its history and to the part of
  it that is durable.
\<close>

section \<open>The parameters\<close>

text \<open>What is relied on: JSON is written on one line and read back, and the hash is free of collisions
  and never the name of a temporary file.\<close>

definition port_ok :: "'j json_port \<Rightarrow> bool" where
  "port_ok J \<longleftrightarrow>
     inj (jp_sha256_hex J)
     \<and> (\<forall>bytes hash. jp_sha256_hex J bytes \<noteq> temp_name hash)
     \<and> (\<forall>r. jp_serialize J r \<noteq> Panic)
     \<and> (\<forall>r line. jp_serialize J r = Ok line \<longrightarrow>
          10 \<notin> set line
          \<and> (\<exists>json. jp_parse J line = Ok json \<and> jp_version J json = Some (tr_v r) \<and> jp_record J json = Ok r))"

lemma port_line:
  assumes "port_ok J" "jp_serialize J r = Ok line"
  obtains json where "10 \<notin> set line" "jp_parse J line = Ok json" "jp_version J json = Some (tr_v r)"
    "jp_record J json = Ok r"
  using assms unfolding port_ok_def by blast

section \<open>The log of a history\<close>

definition line_of :: "'j json_port \<Rightarrow> u64 \<Rightarrow> session_entry list \<Rightarrow> (u8 list, rstring) rres" where
  "line_of J revision es = jp_serialize J (fst (transaction_record_of (jp_sha256_hex J) revision es))"

fun log_lines :: "'j json_port \<Rightarrow> nat \<Rightarrow> session_entry list list \<Rightarrow> u8 list option" where
  "log_lines J n [] = Some []"
| "log_lines J n (es # h) =
     (case line_of J (of_nat (Suc n)) es of
        Ok line \<Rightarrow> map_option (\<lambda>rest. line @ 10 # rest) (log_lines J (Suc n) h)
      | _ \<Rightarrow> None)"

lemma log_lines_Cons:
  "log_lines J n (es # h) = Some bytes \<longleftrightarrow>
    (\<exists>line rest. line_of J (of_nat (Suc n)) es = Ok line \<and> log_lines J (Suc n) h = Some rest
      \<and> bytes = line @ 10 # rest)"
  by (auto split: rres.split)

lemma log_lines_append:
  "log_lines J n (h @ h') = Some bytes \<longleftrightarrow>
    (\<exists>b b'. log_lines J n h = Some b \<and> log_lines J (n + length h) h' = Some b' \<and> bytes = b @ b')"
proof (induction h arbitrary: n bytes)
  case (Cons es h)
  then show ?case
    unfolding append_Cons log_lines_Cons by (auto simp: log_lines_Cons)
qed auto

lemma record_of_fields:
  "tr_v (fst (transaction_record_of h r es)) = schema_version"
  "tr_revision (fst (transaction_record_of h r es)) = r"
  "tr_entries (fst (transaction_record_of h r es)) = fst (encode_list (encode_entry h) es [])"
  "snd (transaction_record_of h r es) = snd (encode_list (encode_entry h) es [])"
  by (simp_all add: transaction_record_of_def case_prod_beta)

section \<open>Recovering the log\<close>

text \<open>A loader that finds the images or fails.\<close>

definition may_load :: "(u8 list \<Rightarrow> rstring) \<Rightarrow> artifact_loader \<Rightarrow> u8 list list \<Rightarrow> bool" where
  "may_load h load images \<longleftrightarrow>
     (\<forall>bytes \<in> set images. load (h bytes) (of_nat (length bytes)) = Ok bytes
        \<or> (\<exists>e. load (h bytes) (of_nat (length bytes)) = Err e))"

lemma loads_may_load: "loads h load images \<Longrightarrow> may_load h load images"
  by (simp add: loads_def may_load_def)

lemma rmap_Ok_or_Err:
  assumes "\<And>x s. x \<in> set xs \<Longrightarrow> g (fst (f x s)) = Ok x \<or> (\<exists>e. g (fst (f x s)) = Err e)"
  shows "rmap g (fst (encode_list f xs s)) = Ok xs \<or> (\<exists>e. rmap g (fst (encode_list f xs s)) = Err e)"
  using assms
proof (induction xs arbitrary: s)
  case (Cons x xs)
  have "rmap g (fst (encode_list f xs (snd (f x s)))) = Ok xs
      \<or> (\<exists>e. rmap g (fst (encode_list f xs (snd (f x s)))) = Err e)"
    using Cons.IH Cons.prems by simp
  with Cons.prems [of x s] show ?case by (auto simp: case_prod_beta)
qed simp

lemma may_decode_part:
  "may_load h l (part_images part) \<Longrightarrow> decode_part l (fst (encode_part h part s)) = Ok part
    \<or> (\<exists>e. decode_part l (fst (encode_part h part s)) = Err e)"
  by (cases part) (auto simp: encode_part_def decode_part_def part_images_def may_load_def Let_def)

lemma may_decode_parts:
  "may_load h l (concat (map part_images parts)) \<Longrightarrow>
    rmap (decode_part l) (fst (encode_list (encode_part h) parts s)) = Ok parts
    \<or> (\<exists>e. rmap (decode_part l) (fst (encode_list (encode_part h) parts s)) = Err e)"
  by (rule rmap_Ok_or_Err) (rule may_decode_part, auto simp: may_load_def)

lemma may_decode_entry:
  assumes "may_load h l (kind_images (entry_kind e))"
  shows "decode_entry l (fst (encode_entry h e s)) = Ok e \<or> (\<exists>x. decode_entry l (fst (encode_entry h e s)) = Err x)"
proof (cases "entry_kind e")
  case (UserMessage ti parts)
  with assms may_decode_parts [of h l parts s] show ?thesis
    by (auto simp: decode_entry_def encode_entry_def encode_kind_def decode_kind_def kind_images_def
        from_persisted_def case_prod_beta)
qed (use decode_entry_encode [of h l e s] in \<open>simp_all add: loads_def kind_images_def\<close>)

lemma may_decode_entries:
  "may_load h l (entry_images es) \<Longrightarrow>
    rmap (decode_entry l) (fst (encode_list (encode_entry h) es s)) = Ok es
    \<or> (\<exists>x. rmap (decode_entry l) (fst (encode_list (encode_entry h) es s)) = Err x)"
  by (rule rmap_Ok_or_Err) (rule may_decode_entry, auto simp: may_load_def entry_images_def)

lemma recover_line_good:
  assumes "port_ok J" "line_of J n es = Ok line" "replay sp es = Ok sp'"
    and "may_load (jp_sha256_hex J) load (entry_images es)"
  obtains json names where "10 \<notin> set line" "jp_parse J line = Ok json"
    "recover_line J load n json sp = Ok (sp', names)
      \<or> (\<exists>e. recover_line J load n json sp = Err e) \<and> \<not> loads (jp_sha256_hex J) load (entry_images es)"
proof -
  let ?r = "fst (transaction_record_of (jp_sha256_hex J) n es)"
  obtain json where v: "10 \<notin> set line" "jp_parse J line = Ok json" "jp_version J json = Some (tr_v ?r)"
    "jp_record J json = Ok ?r"
    using port_line [OF assms(1)] assms(2) by (auto simp: line_of_def)
  have "rmap (decode_entry load) (tr_entries ?r) = Ok es
      \<or> (\<exists>e. rmap (decode_entry load) (tr_entries ?r) = Err e) \<and> \<not> loads (jp_sha256_hex J) load (entry_images es)"
    using may_decode_entries [OF assms(4)] decode_entries_encode [of "jp_sha256_hex J" load es]
    by (auto simp: record_of_fields)
  with v assms(3) that [OF v(1,2), of "record_artifacts ?r"] show thesis
    by (auto simp: recover_line_def record_of_fields)
qed

lemma position_newline:
  assumes "(10 :: u8) \<notin> set line"
  shows "position (\<lambda>byte. byte = 10) (line @ 10 # rest) = Some (length line)"
proof -
  have "takeWhile (\<lambda>byte. \<not> byte = (10 :: u8)) (line @ 10 # rest) = line"
    using assms by (induction line) auto
  then show ?thesis by (simp add: position_def)
qed

lemma recover_lines:
  assumes "port_ok J" "log_lines J n h = Some bytes" "rfold (\<lambda>es sp. replay sp es) h sp = Ok sp'"
    and "may_load (jp_sha256_hex J) load (entry_images (concat h))" "10 \<notin> set tail"
  shows "(\<exists>names. recover_loop J load (bytes @ tail) (of_nat n) off sp rs =
      Ok (sp', names, if tail = [] then None else Some (off + length bytes)))
    \<or> (\<exists>e. recover_loop J load (bytes @ tail) (of_nat n) off sp rs = Err e)
      \<and> \<not> loads (jp_sha256_hex J) load (entry_images (concat h))"
  using assms(2-4)
proof (induction h arbitrary: n bytes sp off rs)
  case Nil
  have "position (\<lambda>b. b = 10) tail = None" using assms(5) by (auto simp: position_None_iff)
  with Nil show ?case by (simp add: recover_loop.simps)
next
  case (Cons es h)
  obtain line rest where l: "line_of J (of_nat (Suc n)) es = Ok line" "log_lines J (Suc n) h = Some rest"
    "bytes = line @ 10 # rest"
    using Cons.prems(1) by (auto simp: log_lines_Cons simp del: log_lines.simps)
  obtain sp1 where sp1: "replay sp es = Ok sp1" "rfold (\<lambda>es sp. replay sp es) h sp1 = Ok sp'"
    using Cons.prems(2) by (auto simp: rres_simps)
  have images: "entry_images (concat (es # h)) = entry_images es @ entry_images (concat h)"
    by (simp add: entry_images_def)
  have may: "may_load (jp_sha256_hex J) load (entry_images es)"
    "may_load (jp_sha256_hex J) load (entry_images (concat h))"
    using Cons.prems(3) unfolding images by (auto simp: may_load_def)
  obtain json names where v: "10 \<notin> set line" "jp_parse J line = Ok json"
    "recover_line J load (of_nat (Suc n)) json sp = Ok (sp1, names)
      \<or> (\<exists>e. recover_line J load (of_nat (Suc n)) json sp = Err e)
        \<and> \<not> loads (jp_sha256_hex J) load (entry_images es)"
    by (rule recover_line_good [OF assms(1) l(1) sp1(1) may(1)])
  have step: "recover_loop J load (bytes @ tail) (of_nat n) off sp rs =
      (case recover_line J load (of_nat (Suc n)) json sp of
         Panic \<Rightarrow> Panic | Err e \<Rightarrow> Err e
       | Ok (sp1, names) \<Rightarrow> recover_loop J load (rest @ tail) (of_nat (Suc n)) (off + Suc (length line)) sp1 (rs @ names))"
  proof -
    have next_line: "(of_nat n + 1 :: u64) = of_nat (Suc n)" by simp
    show ?thesis
      using v(1,2) l(3) by (subst recover_loop.simps, unfold next_line) (simp add: position_newline del: of_nat_Suc)
  qed
  from v(3) show ?case
  proof
    assume "recover_line J load (of_nat (Suc n)) json sp = Ok (sp1, names)"
    with Cons.IH [OF l(2) sp1(2) may(2), of "off + Suc (length line)" "rs @ names"] step l(3) show ?thesis
      unfolding images by (auto simp: add.assoc)
  next
    assume "(\<exists>e. recover_line J load (of_nat (Suc n)) json sp = Err e)
        \<and> \<not> loads (jp_sha256_hex J) load (entry_images es)"
    with step show ?thesis unfolding images by auto
  qed
qed

end
