(* ===== verification/Jsonl_Invariant.thy ===== *)
theory Jsonl_Invariant
  imports Jsonl_Durable
begin

text \<open>
  The invariant of the JSONL store, session by session: the log on disk is the log of the history of
  the open projection, or, after a failed write, of that history and the transaction in flight; and a
  prefix of the history is durable. Every command keeps it.
\<close>

section \<open>The files of a history\<close>

definition artifacts_held :: "'j json_port \<Rightarrow> (rstring, u8 list) hashmap \<Rightarrow> session_entry list list \<Rightarrow> bool" where
  "artifacts_held J m h \<longleftrightarrow>
     (\<forall>bytes \<in> set (entry_images (concat h)). hm_get m (jp_sha256_hex J bytes) = Some bytes)"

text \<open>The log with at most a torn tail, and without one.\<close>

definition disk_holds :: "'j json_port \<Rightarrow> session_files \<Rightarrow> session_entry list list \<Rightarrow> bool" where
  "disk_holds J f h \<longleftrightarrow>
     (\<exists>bytes tail. log_lines J 0 h = Some bytes \<and> sf_log f = bytes @ tail \<and> 10 \<notin> set tail)
     \<and> artifacts_held J (sf_artifacts f) h \<and> artifacts_held J (sf_durable f) h"

definition disk_exact :: "'j json_port \<Rightarrow> session_files \<Rightarrow> session_entry list list \<Rightarrow> bool" where
  "disk_exact J f h \<longleftrightarrow>
     log_lines J 0 h = Some (sf_log f)
     \<and> artifacts_held J (sf_artifacts f) h \<and> artifacts_held J (sf_durable f) h"

definition durable :: "'j json_port \<Rightarrow> session_files \<Rightarrow> session_entry list list \<Rightarrow> bool" where
  "durable J f d \<longleftrightarrow> (\<exists>bytes. log_lines J 0 d = Some bytes \<and> length bytes \<le> sf_synced f)"

lemma disk_exact_holds: "disk_exact J f h \<Longrightarrow> disk_holds J f h"
  unfolding disk_exact_def disk_holds_def by force

text \<open>The title sidecar plays no part.\<close>

definition same_data :: "session_files \<Rightarrow> session_files \<Rightarrow> bool" where
  "same_data f f' \<longleftrightarrow>
     sf_log f' = sf_log f \<and> sf_synced f' = sf_synced f \<and> sf_artifacts f' = sf_artifacts f
     \<and> sf_durable f' = sf_durable f"

lemma same_data_holds:
  "same_data f f' \<Longrightarrow> disk_holds J f' h = disk_holds J f h"
  "same_data f f' \<Longrightarrow> disk_exact J f' h = disk_exact J f h"
  "same_data f f' \<Longrightarrow> durable J f' h = durable J f h"
  by (simp_all add: same_data_def disk_holds_def disk_exact_def durable_def)

lemma same_data_refl: "same_data f f"
  by (simp add: same_data_def)

lemma same_data_title: "same_data f (write_title_file plan t f)"
  by (simp add: same_data_def write_title_file_def)

lemma title_artifacts:
  "sf_artifacts (write_title_file plan t f) = sf_artifacts f" "sf_durable (write_title_file plan t f) = sf_durable f"
  by (simp_all add: write_title_file_def)

lemma same_data_sidecar: "same_data f (snd (sync_title_sidecar plan st f))"
  using same_data_title [of f plan] same_data_refl by (simp add: sync_title_sidecar_def Let_def)

lemma sidecar_state:
  "st_projection (fst (sync_title_sidecar plan st f)) = st_projection st"
  "st_poisoned (fst (sync_title_sidecar plan st f)) = st_poisoned st"
  by (simp_all add: sync_title_sidecar_def Let_def)

section \<open>Recovery\<close>

lemma held_may_load:
  "artifacts_held J m h \<Longrightarrow>
    may_load (jp_sha256_hex J) (load_artifact J unreadable m) (entry_images (concat h))"
  by (auto simp: artifacts_held_def may_load_def load_artifact_def Let_def split: option.split)

lemma held_loads:
  "artifacts_held J m h \<Longrightarrow>
    loads (jp_sha256_hex J) (load_artifact J (\<lambda>_. None) m) (entry_images (concat h))"
  by (auto simp: artifacts_held_def loads_def load_artifact_def Let_def)

lemma recover_log:
  assumes "port_ok J" "disk_holds J f h" "session_history sid h sp"
  obtains bytes tail where "log_lines J 0 h = Some bytes" "sf_log f = bytes @ tail" "10 \<notin> set tail"
    "(\<exists>names. recover_loop J (load_artifact J unreadable (sf_artifacts f)) (sf_log f) 0 0 projection_empty [] =
        Ok (sp, names, if tail = [] then None else Some (length bytes)))
     \<or> (\<exists>e. recover_loop J (load_artifact J unreadable (sf_artifacts f)) (sf_log f) 0 0 projection_empty [] = Err e)
       \<and> unreadable \<noteq> (\<lambda>_. None)"
proof -
  obtain bytes tail where log: "log_lines J 0 h = Some bytes" "sf_log f = bytes @ tail" "10 \<notin> set tail"
    and held: "artifacts_held J (sf_artifacts f) h"
    using assms(2) by (auto simp: disk_holds_def)
  have read: "loads (jp_sha256_hex J) (load_artifact J unreadable (sf_artifacts f)) (entry_images (concat h))"
    if "unreadable = (\<lambda>_. None)"
    using held_loads [OF held] that by simp
  from recover_lines [OF assms(1) log(1) history_replay [OF assms(3)] held_may_load [OF held, of unreadable] log(3),
      of 0 "[]"] read show thesis
    by (intro that [OF log]) (auto simp: log(2))
qed

lemma prefix_lines:
  assumes "prefix d h" "log_lines J 0 h = Some bytes"
  obtains b b' where "log_lines J 0 d = Some b" "bytes = b @ b'"
  using assms by (auto simp: prefix_def log_lines_append)

lemma truncate_tail_cases:
  assumes "truncate_tail plan (if tail = [] then None else Some (length bytes)) f = (r, f')"
    and "sf_log f = bytes @ tail" "n \<le> length bytes" "n \<le> sf_synced f"
  shows "r \<noteq> Panic" "sf_artifacts f' = sf_artifacts f" "sf_durable f' = sf_durable f" "n \<le> sf_synced f'"
    "sf_log f' = bytes \<or> sf_log f' = bytes @ tail" "is_Ok r \<longrightarrow> sf_log f' = bytes"
    "io_truncate plan = TruncateDone \<longrightarrow> is_Ok r"
  using assms by (auto simp: truncate_tail_def Let_def split: if_split_asm truncate_answer.split_asm)

text \<open>No I/O error.\<close>

definition io_fine :: "io_plan \<Rightarrow> bool" where
  "io_fine plan \<longleftrightarrow>
     io_lock plan = LockTaken \<and> io_read_log plan = None \<and> io_list_artifacts plan = None
     \<and> io_read_artifact plan = (\<lambda>_. None) \<and> io_truncate plan = TruncateDone \<and> io_open_log plan = None
     \<and> io_create_dir plan = None \<and> io_sync_dir plan = None \<and> io_sync_root plan = None
     \<and> io_artifact plan = (\<lambda>_. ArtifactDone) \<and> io_sync_artifacts plan = None
     \<and> io_append plan = AppendDone"

lemma small_results_not_panic [simp]:
  "acquire_lock plan path \<noteq> Panic" "read_log plan f \<noteq> Panic" "list_orphans plan rs f \<noteq> Panic"
  "open_log plan ctx \<noteq> Panic"
  by (simp_all add: acquire_lock_def read_log_def list_orphans_def open_log_def
      split: lock_answer.split option.split)

lemma io_fine_results:
  assumes "io_fine plan"
  shows "acquire_lock plan path = Ok ()" "read_log plan f = Ok (sf_log f)"
    "list_orphans plan rs f = Ok (orphans rs f)" "open_log plan ctx = Ok ()"
  using assms by (simp_all add: io_fine_def acquire_lock_def read_log_def list_orphans_def open_log_def)

lemma read_log_Ok: "read_log plan f = Ok bytes \<Longrightarrow> bytes = sf_log f"
  by (simp add: read_log_def split: option.split_asm)

lemma recover_locked_holds:
  assumes "port_ok J" "disk_holds J f h" "session_history sid h sp" "durable J f d" "prefix d h"
    and run: "recover_locked J plan path f = (r, f')"
  shows "r \<noteq> Panic \<and> disk_holds J f' h \<and> durable J f' d
    \<and> sf_artifacts f' = sf_artifacts f \<and> sf_durable f' = sf_durable f
    \<and> (\<forall>st. r = Ok st \<longrightarrow> st_projection st = sp \<and> st_poisoned st = None \<and> disk_exact J f' h)
    \<and> (io_fine plan \<longrightarrow> is_Ok r)"
proof -
  let ?loop = "recover_loop J (load_artifact J (io_read_artifact plan) (sf_artifacts f)) (sf_log f) 0 0 projection_empty []"
  obtain bytes tail where log: "log_lines J 0 h = Some bytes" "sf_log f = bytes @ tail" "10 \<notin> set tail"
    and loop: "(\<exists>names. ?loop = Ok (sp, names, if tail = [] then None else Some (length bytes)))
      \<or> (\<exists>e. ?loop = Err e) \<and> io_read_artifact plan \<noteq> (\<lambda>_. None)"
    by (rule recover_log [OF assms(1-3), of "io_read_artifact plan"])
  obtain bd where bd: "log_lines J 0 d = Some bd" "length bd \<le> length bytes"
    using prefix_lines [OF assms(5) log(1)] by force
  let ?opened = "rbind (acquire_lock plan path) (\<lambda>_. rbind (read_log plan f) (\<lambda>bytes.
      rbind (recover_loop J (load_artifact J (io_read_artifact plan) (sf_artifacts f)) bytes 0 0 projection_empty [])
        (\<lambda>(projection, referenced, truncate_at). rbind (list_orphans plan referenced f) (\<lambda>orphan_artifacts.
          Ok (projection, orphan_artifacts, truncate_at)))))"
  consider (refused) e where "?opened = Err e" "\<not> io_fine plan"
    | (opened) names where "?opened = Ok (sp, names, if tail = [] then None else Some (length bytes))"
  proof (cases "?opened")
    case (Err e)
    with that(1) io_fine_results loop show thesis by (fastforce simp: io_fine_def)
  next
    case (Ok x)
    with loop that(2) show thesis by (auto simp: rres_simps dest!: read_log_Ok)
  next
    case Panic
    with loop show thesis by (auto simp: rres_simps dest!: read_log_Ok)
  qed
  then show ?thesis
  proof cases
    case refused
    then show ?thesis using run assms(2,4) by (auto simp: recover_locked_def)
  next
    case opened
    obtain t f1 where t: "truncate_tail plan (if tail = [] then None else Some (length bytes)) f = (t, f1)"
      by fastforce
    have synced: "length bd \<le> sf_synced f" using assms(4) bd(1) by (simp add: durable_def)
    note f1 = truncate_tail_cases [OF t log(2) bd(2) synced]
    have holds: "disk_holds J f1 h" "durable J f1 d" "is_Ok t \<longrightarrow> disk_exact J f1 h"
      using assms(2) f1 log bd(1) by (auto simp: disk_holds_def disk_exact_def durable_def)
    have "io_fine plan \<longrightarrow> is_Ok t" using f1(7) by (simp add: io_fine_def)
    with run t f1(1-3) holds show ?thesis
      unfolding recover_locked_def opened
      by (auto simp: Let_def same_data_holds [OF same_data_title] io_fine_def open_log_def
          title_artifacts
          split: rres.split_asm option.split_asm if_split_asm)
  qed
qed

section \<open>Artifacts\<close>

text \<open>A file with the name of a hash has the content with that hash, and stays.\<close>

definition sound :: "'j json_port \<Rightarrow> (rstring, u8 list) hashmap \<Rightarrow> bool" where
  "sound J m \<longleftrightarrow> (\<forall>bytes x. hm_get m (jp_sha256_hex J bytes) = Some x \<longrightarrow> x = bytes)"

definition keeps :: "'j json_port \<Rightarrow> (rstring, u8 list) hashmap \<Rightarrow> (rstring, u8 list) hashmap \<Rightarrow> bool" where
  "keeps J m m' \<longleftrightarrow>
     (\<forall>bytes. hm_get m (jp_sha256_hex J bytes) \<noteq> None \<longrightarrow>
        hm_get m' (jp_sha256_hex J bytes) = hm_get m (jp_sha256_hex J bytes))"

lemma keeps_refl: "keeps J m m"
  by (simp add: keeps_def)

lemma keeps_trans: "keeps J m m1 \<Longrightarrow> keeps J m1 m2 \<Longrightarrow> keeps J m m2"
  by (simp add: keeps_def)

lemma keeps_held: "keeps J m m' \<Longrightarrow> artifacts_held J m h \<Longrightarrow> artifacts_held J m' h"
  by (simp add: keeps_def artifacts_held_def)

lemma sound_Nil [simp]: "sound J []"
  by (simp add: sound_def)

lemma store_artifact_spec:
  assumes "port_ok J" "sound J (sf_artifacts f)" "pa_hash a = jp_sha256_hex J (pa_bytes a)"
    and run: "store_artifact plan a f = (r, f')"
  shows "sound J (sf_artifacts f') \<and> keeps J (sf_artifacts f) (sf_artifacts f')
    \<and> sf_log f' = sf_log f \<and> sf_synced f' = sf_synced f \<and> sf_durable f' = sf_durable f
    \<and> (r = None \<longrightarrow> hm_get (sf_artifacts f') (pa_hash a) = Some (pa_bytes a))
    \<and> (io_artifact plan = (\<lambda>_. ArtifactDone) \<longrightarrow> r = None)"
proof -
  have inj: "jp_sha256_hex J b = jp_sha256_hex J b' \<longleftrightarrow> b = b'" for b b'
    using assms(1) by (auto simp: port_ok_def dest: injD)
  have temp: "jp_sha256_hex J b \<noteq> temp_name x" for b x
    using assms(1) by (simp add: port_ok_def)
  show ?thesis
  proof (cases "hm_get (sf_artifacts f) (pa_hash a) \<noteq> None")
    case True
    with run assms(2,3) show ?thesis by (auto simp: store_artifact_def Let_def keeps_refl sound_def)
  next
    case False
    show ?thesis
    proof (cases "io_artifact plan (pa_hash a)")
      case ArtifactDone
      with False run assms(2,3) show ?thesis
        by (auto simp: store_artifact_def Let_def sound_def keeps_def inj temp split: if_split_asm)
    next
      case (ArtifactFails written kind)
      with False run assms(2) show ?thesis
        by (auto simp: store_artifact_def Let_def sound_def keeps_def temp split: option.splits)
    qed
  qed
qed

lemma store_artifacts_spec:
  assumes "port_ok J" "sound J (sf_artifacts f)" "collected (jp_sha256_hex J) pending"
    and "store_artifacts plan pending f = (r, f')"
  shows "sound J (sf_artifacts f') \<and> keeps J (sf_artifacts f) (sf_artifacts f')
    \<and> sf_log f' = sf_log f \<and> sf_synced f' = sf_synced f \<and> sf_durable f' = sf_durable f
    \<and> (r = None \<longrightarrow> (\<forall>a \<in> set pending. hm_get (sf_artifacts f') (pa_hash a) = Some (pa_bytes a)))
    \<and> (io_artifact plan = (\<lambda>_. ArtifactDone) \<longrightarrow> r = None)"
  using assms(2-4)
proof (induction pending arbitrary: f)
  case (Cons a pending)
  obtain r1 f1 where one: "store_artifact plan a f = (r1, f1)" by fastforce
  have hash: "pa_hash a = jp_sha256_hex J (pa_bytes a)" "collected (jp_sha256_hex J) pending"
    using Cons.prems(2) by (simp_all add: collected_def)
  note first = store_artifact_spec [OF assms(1) Cons.prems(1) hash(1) one]
  show ?case
  proof (cases r1)
    case None
    with one Cons.prems(3) have "store_artifacts plan pending f1 = (r, f')" by simp
    from Cons.IH [OF _ hash(2) this] first None hash(1) show ?thesis
      by (auto intro: keeps_trans simp: keeps_def)
  next
    case (Some kind)
    with one Cons.prems(3) first show ?thesis by auto
  qed
qed (simp add: keeps_refl)

lemma write_artifacts_spec:
  assumes "port_ok J" "sound J (sf_artifacts f)" "sound J (sf_durable f)" "collected (jp_sha256_hex J) pending"
    and "artifacts_held J (sf_artifacts f) h" "artifacts_held J (sf_durable f) h"
    and "write_artifacts plan pending f = (r, f')"
  shows "sound J (sf_artifacts f') \<and> sound J (sf_durable f')
    \<and> artifacts_held J (sf_artifacts f') h \<and> artifacts_held J (sf_durable f') h
    \<and> sf_log f' = sf_log f \<and> sf_synced f' = sf_synced f
    \<and> (r = None \<longrightarrow> (\<forall>a \<in> set pending. hm_get (sf_artifacts f') (pa_hash a) = Some (pa_bytes a)
         \<and> hm_get (sf_durable f') (pa_hash a) = Some (pa_bytes a)))
    \<and> (io_fine plan \<longrightarrow> r = None)"
proof (cases "pending = []")
  case True
  with assms show ?thesis by (auto simp: write_artifacts_def)
next
  case False
  obtain r1 f1 where one: "store_artifacts plan pending f = (r1, f1)" by fastforce
  note spec = store_artifacts_spec [OF assms(1,2,4) one]
  have held: "artifacts_held J (sf_artifacts f1) h" using spec keeps_held assms(5) by blast
  with False one spec assms(3,6,7) show ?thesis
    by (auto simp: write_artifacts_def io_fine_def split: option.split_asm)
qed

text \<open>The images of a transaction are exactly what it stores.\<close>

lemma transaction_images:
  assumes "port_ok J"
  shows "collected (jp_sha256_hex J) (snd (transaction_record_of (jp_sha256_hex J) n es))"
    and "\<forall>a \<in> set (snd (transaction_record_of (jp_sha256_hex J) n es)).
        hm_get m (pa_hash a) = Some (pa_bytes a) \<Longrightarrow> artifacts_held J m h \<Longrightarrow> artifacts_held J m (h @ [es])"
proof -
  have inj: "inj (jp_sha256_hex J)" using assms by (simp add: port_ok_def)
  let ?pending = "snd (transaction_record_of (jp_sha256_hex J) n es)"
  have "collected (jp_sha256_hex J) ?pending \<and> pa_bytes ` set ?pending = set (entry_images es)"
    using collect_images [OF inj, of "[]"] by (simp add: record_of_fields snd_encode_entries collected_def)
  then have pending: "collected (jp_sha256_hex J) ?pending" "pa_bytes ` set ?pending = set (entry_images es)"
    by blast+
  show "collected (jp_sha256_hex J) ?pending" by (rule pending(1))
  assume a: "\<forall>a \<in> set ?pending. hm_get m (pa_hash a) = Some (pa_bytes a)" "artifacts_held J m h"
  have "hm_get m (jp_sha256_hex J b) = Some b" if "b \<in> set (entry_images es)" for b
  proof -
    from that have "b \<in> pa_bytes ` set ?pending" unfolding pending(2) .
    then obtain x where "x \<in> set ?pending" "pa_bytes x = b" by blast
    with a(1) pending(1) show ?thesis by (auto simp: collected_def)
  qed
  with a(2) show "artifacts_held J m (h @ [es])" by (auto simp: artifacts_held_def entry_images_def)
qed

end
