(* ===== verification/Jsonl_Contract.thy ===== *)
theory Jsonl_Contract
  imports Jsonl_Invariant
begin

text \<open>
  The commands of the JSONL store keep its invariant, and the store is an instance of the store
  contract of \<^verbatim>\<open>philo-session\<close>. Last, what a crash leaves is again a store with that invariant.
\<close>

section \<open>The invariant of a session\<close>

text \<open>The files and the open state of a session, its history and the durable part of it. Everything in
  the history satisfies \<open>P\<close>.\<close>

definition poisoned_disk ::
    "'j json_port \<Rightarrow> (session_entry list \<Rightarrow> bool) \<Rightarrow> rstring \<Rightarrow> session_files \<Rightarrow> session_entry list list \<Rightarrow> bool" where
  "poisoned_disk J P sid f h \<longleftrightarrow>
     disk_holds J f h
     \<or> (\<exists>es sp. P es \<and> session_history sid (h @ [es]) sp \<and> disk_holds J f (h @ [es]))"

definition session_ok ::
    "'j json_port \<Rightarrow> (session_entry list \<Rightarrow> bool) \<Rightarrow> rstring \<Rightarrow> session_files option \<Rightarrow> session_state option
      \<Rightarrow> session_entry list list \<Rightarrow> session_entry list list \<Rightarrow> bool" where
  "session_ok J P sid fo so h d \<longleftrightarrow>
     prefix d h \<and> list_all P h \<and> (\<exists>sp. session_history sid h sp)
     \<and> (case fo of
          None \<Rightarrow> so = None \<and> h = []
        | Some f \<Rightarrow>
            durable J f d \<and> sound J (sf_artifacts f) \<and> sound J (sf_durable f)
            \<and> (case so of
                 None \<Rightarrow> disk_holds J f h
               | Some st \<Rightarrow>
                   session_history sid h (st_projection st)
                   \<and> (if st_poisoned st = None then disk_exact J f h else poisoned_disk J P sid f h)))"

abbreviation session_at ::
    "'j json_port \<Rightarrow> (session_entry list \<Rightarrow> bool) \<Rightarrow> rstring \<Rightarrow> jsonl_store
      \<Rightarrow> session_entry list list \<Rightarrow> session_entry list list \<Rightarrow> bool" where
  "session_at J P sid s h d \<equiv> session_ok J P sid (hm_get (js_disk s) sid) (hm_get (js_sessions s) sid) h d"

lemma session_ok_new: "session_ok J P sid None None [] []"
  using session_history.history_start [of sid] by (auto simp: session_ok_def)

lemma history_unique: "session_history sid h sp \<Longrightarrow> session_history sid h sp' \<Longrightarrow> sp' = sp"
  using history_replay [of sid h sp] history_replay [of sid h sp'] by simp

text \<open>What a command on one session leaves alone.\<close>

definition only_session :: "rstring \<Rightarrow> jsonl_store \<Rightarrow> jsonl_store \<Rightarrow> bool" where
  "only_session sid s s' \<longleftrightarrow>
     js_io s' = js_io s \<and> js_tick s' = js_tick s
     \<and> (\<forall>sid'. sid' \<noteq> sid \<longrightarrow>
          hm_get (js_disk s') sid' = hm_get (js_disk s) sid'
          \<and> hm_get (js_sessions s') sid' = hm_get (js_sessions s) sid')"

lemma only_session_refl [simp]: "only_session sid s s"
  by (simp add: only_session_def)

lemma only_session_trans: "only_session sid s s1 \<Longrightarrow> only_session sid s1 s2 \<Longrightarrow> only_session sid s s2"
  by (simp add: only_session_def)

lemma only_session_set [simp]:
  "only_session sid s (set_files sid f s') \<longleftrightarrow> only_session sid s s'"
  "only_session sid s (set_state sid st s') \<longleftrightarrow> only_session sid s s'"
  by (auto simp: only_session_def set_files_def set_state_def)

lemma set_fields [simp]:
  "hm_get (js_disk (set_files sid f s)) sid = Some f"
  "hm_get (js_sessions (set_files sid f s)) sid' = hm_get (js_sessions s) sid'"
  "hm_get (js_disk (set_state sid st s)) sid' = hm_get (js_disk s) sid'"
  "hm_get (js_sessions (set_state sid st s)) sid = Some st"
  by (simp_all add: set_files_def set_state_def)

section \<open>Opening\<close>

lemma recover_existing_ok:
  assumes "port_ok J" "session_at J P sid s h d" "hm_get (js_sessions s) sid = None"
    and "hm_get (js_disk s) sid = Some f" and run: "recover_existing J plan sid s = (r, s')"
  shows "r \<noteq> Panic \<and> only_session sid s s' \<and> session_at J P sid s' h d
    \<and> (\<forall>st. r = Ok st \<longrightarrow> session_ok J P sid (hm_get (js_disk s') sid) (Some st) h d \<and> st_poisoned st = None)
    \<and> (io_fine plan \<longrightarrow> is_Ok r)"
proof -
  obtain sp where sp: "session_history sid h sp" using assms(2) by (auto simp: session_ok_def)
  have f: "disk_holds J f h" "durable J f d" "prefix d h"
    using assms(2-4) by (simp_all add: session_ok_def)
  obtain f' where rec: "recover_locked J plan (lock_path s sid) f = (r, f')" "s' = set_files sid f' s"
    using run assms(4) by (auto simp: recover_existing_def files_of_def split: prod.split_asm)
  note holds = recover_locked_holds [OF assms(1) f(1) sp f(2,3) rec(1)]
  have art: "sound J (sf_artifacts f')" "sound J (sf_durable f')" "list_all P h"
    using holds assms(2,4) by (simp_all add: session_ok_def)
  have closed: "session_ok J P sid (Some f') None h d"
    using holds art sp f(3) by (auto simp: session_ok_def)
  have opened: "session_ok J P sid (Some f') (Some st) h d \<and> st_poisoned st = None" if "r = Ok st" for st
    using holds art sp f(3) that by (auto simp: session_ok_def)
  show ?thesis
    using holds closed opened assms(3) by (simp add: rec(2))
qed

lemma create_session_ok:
  assumes "session_at J P sid s h d" "hm_get (js_disk s) sid = None"
    and run: "create_session plan sid s = (r, s')"
  shows "r \<noteq> Panic \<and> only_session sid s s' \<and> session_at J P sid s' h d
    \<and> (\<forall>st. r = Ok st \<longrightarrow> session_ok J P sid (hm_get (js_disk s') sid) (Some st) h d \<and> st_poisoned st = None)
    \<and> (io_fine plan \<longrightarrow> is_Ok r)"
proof -
  have h: "h = []" "d = []" "hm_get (js_sessions s) sid = None"
    using assms(1,2) by (auto simp: session_ok_def)
  have files: "session_ok J P sid (Some files_new) None h d"
    "session_ok J P sid (Some files_new) (Some \<lparr>st_projection = projection_empty, st_report = report_empty,
       st_sidecar_title = None, st_poisoned = None\<rparr>) h d"
    using session_history.history_start [of sid]
    by (auto simp: h session_ok_def files_new_def durable_def disk_holds_def disk_exact_def artifacts_held_def
        entry_images_def)
  show ?thesis
  proof (cases "io_create_dir plan")
    case (Some kind)
    with run assms(1) show ?thesis by (auto simp: create_session_def io_fine_def)
  next
    case None
    with run have s': "s' = set_files sid files_new s"
      and r: "r = Ok \<lparr>st_projection = projection_empty, st_report = report_empty, st_sidecar_title = None,
          st_poisoned = None\<rparr> \<or> (\<exists>e. r = Err e) \<and> \<not> io_fine plan"
      by (auto simp: create_session_def acquire_lock_def open_log_def io_fine_def
          split: lock_answer.splits option.splits)
    from r files show ?thesis by (auto simp: s' h)
  qed
qed

lemma touch_ok:
  assumes "port_ok J" "session_at J P sid s h d" and run: "touch J plan sid create s = (r, s')"
  shows "r \<noteq> Panic \<and> only_session sid s s' \<and> session_at J P sid s' h d
    \<and> (\<forall>st. r = Ok (Some st) \<longrightarrow> hm_get (js_sessions s') sid = Some st
         \<and> (hm_get (js_sessions s) sid = None \<longrightarrow> st_poisoned st = None)
         \<and> (hm_get (js_sessions s) sid \<noteq> None \<longrightarrow> s' = s))
    \<and> (r = Ok None \<longrightarrow> \<not> create \<and> h = [])
    \<and> (io_fine plan \<longrightarrow> is_Ok r)"
proof (cases "hm_get (js_sessions s) sid")
  case (Some st)
  with run assms(2) show ?thesis by (auto simp: touch_def)
next
  case loaded: None
  show ?thesis
  proof (cases "hm_get (js_disk s) sid")
    case (Some f)
    obtain r1 s1 where rec: "recover_existing J plan sid s = (r1, s1)" by fastforce
    from recover_existing_ok [OF assms(1,2) loaded Some rec] run loaded Some rec show ?thesis
      by (auto simp: touch_def split: rres.split_asm)
  next
    case None
    show ?thesis
    proof (cases create)
      case True
      obtain r1 s1 where new: "create_session plan sid s = (r1, s1)" by fastforce
      from create_session_ok [OF assms(2) None new] run loaded None new True show ?thesis
        by (auto simp: touch_def split: rres.split_asm)
    next
      case False
      with run loaded None assms(2) show ?thesis by (auto simp: touch_def session_ok_def)
    qed
  qed
qed

section \<open>Committing\<close>

lemma log_line_snoc:
  assumes "session_history sid h sp" "tx_session_id tx = sid" "apply_transaction sp tx = Ok a"
  shows "session_history sid (h @ [at_entries a]) (at_projection a)"
    and "revision_get (sp_revision (at_projection a)) = of_nat (Suc (length h))"
proof -
  show *: "session_history sid (h @ [at_entries a]) (at_projection a)"
    using assms by (rule session_history.history_commit)
  from history_facts(4) [OF *] show "revision_get (sp_revision (at_projection a)) = of_nat (Suc (length h))"
    by simp
qed

lemma log_lines_snoc:
  assumes "log_lines J 0 h = Some bytes" "line_of J (of_nat (Suc (length h))) es = Ok line"
  shows "log_lines J 0 (h @ [es]) = Some (bytes @ line @ [10])"
  using assms by (auto simp: log_lines_append)

text \<open>Appending a line to the exact log of a history: nothing, a torn line or the whole line is there.\<close>

lemma append_line_ok:
  assumes "log_lines J 0 h = Some (sf_log f)" "line_of J (of_nat (Suc (length h))) es = Ok line"
    and "10 \<notin> set line" "durable J f d" "prefix d h" and run: "append_line plan (line @ [10]) f = (r, f')"
  shows "sf_artifacts f' = sf_artifacts f \<and> sf_durable f' = sf_durable f \<and> durable J f' d
    \<and> (r = None \<longrightarrow> log_lines J 0 (h @ [es]) = Some (sf_log f') \<and> sf_synced f' = length (sf_log f'))
    \<and> ((\<exists>tail. sf_log f' = sf_log f @ tail \<and> 10 \<notin> set tail) \<or> log_lines J 0 (h @ [es]) = Some (sf_log f'))
    \<and> (io_append plan = AppendDone \<longrightarrow> r = None)"
proof -
  note snoc = log_lines_snoc [OF assms(1,2)]
  have short: "length bd \<le> length (sf_log f)" if "log_lines J 0 d = Some bd" for bd
    using prefix_lines [OF assms(5,1)] that by force
  show ?thesis
  proof (cases "io_append plan")
    case AppendDone
    with run assms(4) snoc short show ?thesis
      by (fastforce simp: append_line_def Let_def durable_def)
  next
    case (AppendFails n kind)
    show ?thesis
    proof (cases "n \<le> length line")
      case True
      then have "10 \<notin> set (take n line)" using assms(3) by (meson in_set_takeD)
      with AppendFails True run assms(4) show ?thesis
        by (auto simp: append_line_def Let_def durable_def)
    next
      case False
      with AppendFails run assms(4) snoc show ?thesis by (auto simp: append_line_def Let_def durable_def)
    qed
  next
    case (AppendSyncFails kind)
    with run assms(4) snoc show ?thesis by (auto simp: append_line_def Let_def durable_def)
  qed
qed

text \<open>JSON is always written.\<close>

definition port_total :: "'j json_port \<Rightarrow> bool" where
  "port_total J \<longleftrightarrow> (\<forall>r. is_Ok (jp_serialize J r))"

lemma write_transaction_ok:
  assumes "port_ok J" "session_at J P sid s h d" "hm_get (js_sessions s) sid = Some st"
    and "st_poisoned st = None" "tx_session_id tx = sid" "apply_transaction (st_projection st) tx = Ok a"
    and "P (at_entries a)" and run: "write_transaction J plan sid a st s = (r, s')"
  shows "r \<noteq> Panic \<and> only_session sid s s'
    \<and> (\<forall>c. r = Ok c \<longrightarrow> applied_commit a = Ok c
         \<and> session_at J P sid s' (h @ [at_entries a]) (h @ [at_entries a])
         \<and> (\<exists>st'. hm_get (js_sessions s') sid = Some st' \<and> st_projection st' = at_projection a
              \<and> st_poisoned st' = None))
    \<and> (\<forall>e. r = Err e \<longrightarrow> session_at J P sid s' h d
         \<and> (\<exists>st'. hm_get (js_sessions s') sid = Some st' \<and> st_projection st' = st_projection st))
    \<and> (io_fine plan \<and> port_total J \<longrightarrow> is_Ok r)"
proof -
  let ?h' = "h @ [at_entries a]"
  let ?rev = "revision_get (sp_revision (at_projection a))"
  let ?rec = "transaction_record_of (jp_sha256_hex J) ?rev (at_entries a)"
  obtain f where f: "hm_get (js_disk s) sid = Some f"
    using assms(2,3) by (cases "hm_get (js_disk s) sid") (auto simp: session_ok_def)
  have inv: "prefix d h" "list_all P h" "durable J f d" "sound J (sf_artifacts f)" "sound J (sf_durable f)"
    "session_history sid h (st_projection st)" "disk_exact J f h"
    using assms(2-4) f by (simp_all add: session_ok_def)
  have hist: "session_history sid ?h' (at_projection a)" and rev: "?rev = of_nat (Suc (length h))"
    using log_line_snoc [OF inv(6) assms(5,6)] by blast+
  have lines: "log_lines J 0 h = Some (sf_log f)" "artifacts_held J (sf_artifacts f) h"
    "artifacts_held J (sf_durable f) h"
    using inv(7) by (simp_all add: disk_exact_def)
  obtain c where c: "applied_commit a = Ok c" using applied_commit_Ok [OF assms(6)] by blast
  obtain r1 f1 where wa: "write_artifacts plan (snd ?rec) f = (r1, f1)" by fastforce
  note art = write_artifacts_spec [OF assms(1) inv(4,5) transaction_images(1) [OF assms(1)] lines(2,3) wa]
  have f1: "disk_exact J f1 h" "durable J f1 d" "log_lines J 0 h = Some (sf_log f1)"
    using art lines inv(3) by (simp_all add: disk_exact_def durable_def)
  have poisoned: "session_at J P sid (set_state sid (st\<lparr>st_poisoned := Some x\<rparr>) (set_files sid g s)) h d"
    if "durable J g d" "poisoned_disk J P sid g h" "sound J (sf_artifacts g)" "sound J (sf_durable g)" for x g
    using that inv by (auto simp: session_ok_def)
  have files: "files_of s sid = f" by (simp add: files_of_def f)
  show ?thesis
  proof (cases r1)
    case (Some reason)
    have "session_at J P sid s' h d" "r = Err (StoreUnavailable reason)"
      "s' = set_state sid (st\<lparr>st_poisoned := Some reason\<rparr>) (set_files sid f1 s)"
      using run Some wa poisoned [of f1 reason] art f1(1,2) disk_exact_holds [OF f1(1)]
      by (auto simp: write_transaction_def case_prod_beta files poison_def poisoned_disk_def)
    with Some art show ?thesis by simp
  next
    case None
    have held: "artifacts_held J (sf_artifacts f1) ?h'" "artifacts_held J (sf_durable f1) ?h'"
      using art None transaction_images(2) [OF assms(1)] by blast+
    show ?thesis
    proof (cases "jp_serialize J (fst ?rec)")
      case (Err error)
      have "session_at J P sid (set_files sid f1 s) h d"
        using inv f1 art assms(3,4) by (auto simp: session_ok_def)
      moreover have "\<not> port_total J"
        unfolding port_total_def using Err by (metis rres.disc(2))
      ultimately show ?thesis
        using run None wa Err assms(3) by (auto simp: write_transaction_def case_prod_beta files)
    next
      case Panic
      with assms(1) show ?thesis by (simp add: port_ok_def)
    next
      case (Ok line)
      have line: "line_of J (of_nat (Suc (length h))) (at_entries a) = Ok line"
        using Ok rev by (simp add: line_of_def)
      have plain: "10 \<notin> set line" using port_line [OF assms(1) Ok] by blast
      obtain r2 f2 where ap: "append_line plan (line @ [10]) f1 = (r2, f2)" by fastforce
      note app = append_line_ok [OF f1(3) line plain f1(2) inv(1) ap]
      show ?thesis
      proof (cases r2)
        case (Some reason)
        have "poisoned_disk J P sid f2 h"
        proof (cases "log_lines J 0 ?h' = Some (sf_log f2)")
          case True
          then have "disk_holds J f2 ?h'" using held app by (auto simp: disk_holds_def)
          with hist assms(7) show ?thesis by (auto simp: poisoned_disk_def)
        next
          case False
          then show ?thesis using app f1(1,3) by (auto simp: poisoned_disk_def disk_holds_def disk_exact_def)
        qed
        then have "session_at J P sid (set_state sid (st\<lparr>st_poisoned := Some reason\<rparr>) (set_files sid f2 s)) h d"
          using poisoned app art by simp
        with run None wa Ok ap Some app show ?thesis
          by (auto simp: write_transaction_def case_prod_beta files poison_def io_fine_def)
      next
        case none2: None
        obtain st1 f3 where side: "sync_title_sidecar plan (st\<lparr>st_projection := at_projection a\<rparr>) f2 = (st1, f3)"
          by fastforce
        have st1: "st_projection st1 = at_projection a" "st_poisoned st1 = None"
          using sidecar_state [of plan "st\<lparr>st_projection := at_projection a\<rparr>" f2] side assms(4) by simp_all
        have same: "same_data f2 f3"
          using same_data_sidecar [of f2 plan "st\<lparr>st_projection := at_projection a\<rparr>"] side by simp
        have "log_lines J 0 ?h' = Some (sf_log f3)" "sf_synced f3 = length (sf_log f3)"
          using app none2 same by (simp_all add: same_data_def)
        then have "disk_exact J f3 ?h'" "durable J f3 ?h'" "sound J (sf_artifacts f3)" "sound J (sf_durable f3)"
          using held app same art by (auto simp: disk_exact_def durable_def same_data_def)
        then have "session_at J P sid (set_state sid st1 (set_files sid f3 s)) ?h' ?h'"
          using hist inv(2) assms(7) st1 by (auto simp: session_ok_def)
        with run None wa Ok ap none2 side st1 show ?thesis
          by (auto simp: write_transaction_def case_prod_beta files c)
      qed
    qed
  qed
qed

lemma commit_loaded_ok:
  assumes "port_ok J" "session_at J P (tx_session_id tx) s h d"
    and "hm_get (js_sessions s) (tx_session_id tx) = Some st"
    and "\<And>a. apply_transaction (st_projection st) tx = Ok a \<Longrightarrow> P (at_entries a)"
    and run: "commit_loaded J plan tx st s = (r, s')"
  shows "r \<noteq> Panic \<and> only_session (tx_session_id tx) s s'
    \<and> (\<forall>c. r = Ok c \<longrightarrow> (\<exists>a. tx_expected_revision tx = sp_revision (st_projection st)
         \<and> apply_transaction (st_projection st) tx = Ok a \<and> applied_commit a = Ok c
         \<and> session_at J P (tx_session_id tx) s' (h @ [at_entries a]) (h @ [at_entries a])
         \<and> (\<exists>st'. hm_get (js_sessions s') (tx_session_id tx) = Some st' \<and> st_projection st' = at_projection a
              \<and> st_poisoned st' = None)))
    \<and> (\<forall>e. r = Err e \<longrightarrow> session_at J P (tx_session_id tx) s' h d
         \<and> (\<exists>st'. hm_get (js_sessions s') (tx_session_id tx) = Some st' \<and> st_projection st' = st_projection st))"
proof (cases "st_poisoned st")
  case (Some reason)
  with run assms(2,3) show ?thesis by (auto simp: commit_loaded_def)
next
  case None
  have "session_history (tx_session_id tx) h (st_projection st)"
    using assms(2,3) by (auto simp: session_ok_def split: option.split_asm)
  then have inv: "projection_inv (st_projection st)" by (rule history_inv)
  show ?thesis
  proof (cases "apply_transaction (st_projection st) tx")
    case (Ok a)
    show ?thesis
    proof (cases "tx_expected_revision tx = sp_revision (st_projection st)")
      case True
      with run None Ok have "write_transaction J plan (tx_session_id tx) a st s = (r, s')"
        by (simp add: commit_loaded_def)
      from write_transaction_ok [OF assms(1-3) None refl Ok assms(4) [OF Ok] this] True Ok show ?thesis by auto
    next
      case False
      with run None assms(2,3) show ?thesis by (auto simp: commit_loaded_def)
    qed
  next
    case (Err e)
    with run None assms(2,3) show ?thesis by (auto simp: commit_loaded_def split: if_split_asm)
  next
    case Panic
    with apply_transaction_not_panic [OF inv, of tx] show ?thesis by simp
  qed
qed

end
