(* ===== verification/Jsonl_Contents.thy ===== *)
theory Jsonl_Contents
  imports Jsonl_Contract
begin

text \<open>
  The contents of the JSONL store, the store as an instance of the contract of \<open>Session_Store\<close>, the
  commands that answer when no I/O fails, and crashes.
\<close>

section \<open>Contents\<close>

text \<open>The projection of a session: of its open state, else of what its log is recovered to.\<close>

definition jsonl_contents :: "'j json_port \<Rightarrow> jsonl_store \<Rightarrow> rstring \<Rightarrow> session_projection" where
  "jsonl_contents J s sid =
     (case hm_get (js_sessions s) sid of
        Some st \<Rightarrow> st_projection st
      | None \<Rightarrow>
          (case hm_get (js_disk s) sid of
             None \<Rightarrow> projection_empty
           | Some f \<Rightarrow>
               (case recover_loop J (load_artifact J (\<lambda>_. None) (sf_artifacts f)) (sf_log f) 0 0
                       projection_empty [] of
                  Ok (projection, _, _) \<Rightarrow> projection
                | _ \<Rightarrow> projection_empty)))"

definition jsonl_inv :: "'j json_port \<Rightarrow> jsonl_store \<Rightarrow> bool" where
  "jsonl_inv J s \<longleftrightarrow> port_ok J \<and> (\<forall>sid. \<exists>h d. session_at J (\<lambda>_. True) sid s h d)"

lemma jsonl_inv_new: "port_ok J \<Longrightarrow> jsonl_inv J (jsonl_new root io)"
  using session_ok_new [of J "\<lambda>_. True"] unfolding jsonl_inv_def jsonl_new_def by simp blast

lemma jsonl_inv_at:
  assumes "jsonl_inv J s"
  obtains h d where "session_at J (\<lambda>_. True) sid s h d" "port_ok J"
  using assms unfolding jsonl_inv_def by blast

lemma contents_history:
  assumes "port_ok J" "session_at J P sid s h d"
  shows "session_history sid h (jsonl_contents J s sid)"
proof (cases "hm_get (js_sessions s) sid")
  case (Some st)
  with assms(2) show ?thesis by (auto simp: jsonl_contents_def session_ok_def split: option.split_asm)
next
  case closed: None
  show ?thesis
  proof (cases "hm_get (js_disk s) sid")
    case None
    with closed assms(2) session_history.history_start [of sid] show ?thesis
      by (simp add: jsonl_contents_def session_ok_def)
  next
    case (Some f)
    obtain sp where sp: "session_history sid h sp" using assms(2) by (auto simp: session_ok_def)
    have f: "disk_holds J f h" using assms(2) closed Some by (simp add: session_ok_def)
    from recover_log [OF assms(1) f sp, of "\<lambda>_. None"]
    have "jsonl_contents J s sid = sp" using closed Some by (fastforce simp: jsonl_contents_def)
    with sp show ?thesis by simp
  qed
qed

lemma contents_unique:
  "port_ok J \<Longrightarrow> session_at J P sid s h d \<Longrightarrow> session_history sid h sp \<Longrightarrow> jsonl_contents J s sid = sp"
  using contents_history history_unique by blast

lemma contents_cong:
  "hm_get (js_disk s') sid = hm_get (js_disk s) sid \<Longrightarrow>
    hm_get (js_sessions s') sid = hm_get (js_sessions s) sid \<Longrightarrow>
    jsonl_contents J s' sid = jsonl_contents J s sid"
  unfolding jsonl_contents_def by (simp only:)

lemma contents_other:
  "only_session sid s s' \<Longrightarrow> sid' \<noteq> sid \<Longrightarrow> jsonl_contents J s' sid' = jsonl_contents J s sid'"
  by (intro contents_cong) (simp_all add: only_session_def)

lemma next_plan_fields:
  assumes "next_plan s = (plan, s0)"
  shows "js_disk s0 = js_disk s" "js_sessions s0 = js_sessions s" "js_io s0 = js_io s"
    "js_tick s0 = Suc (js_tick s)" "plan = js_io s (js_tick s)" "jsonl_contents J s0 = jsonl_contents J s"
  using assms by (auto simp: next_plan_def intro!: ext contents_cong)

section \<open>Commands\<close>

text \<open>A command on one session that keeps its history.\<close>

lemma commit_ok:
  assumes "port_ok J" "session_at J P (tx_session_id tx) s h d"
    and "\<forall>a. apply_transaction (jsonl_contents J s (tx_session_id tx)) tx = Ok a \<longrightarrow> P (at_entries a)"
    and run: "jsonl_commit J s tx = (r, s')"
  shows "r \<noteq> Panic \<and> only_session (tx_session_id tx) (snd (next_plan s)) s'
    \<and> (\<forall>c. r = Ok c \<longrightarrow> (\<exists>a. tx_expected_revision tx = sp_revision (jsonl_contents J s (tx_session_id tx))
         \<and> apply_transaction (jsonl_contents J s (tx_session_id tx)) tx = Ok a \<and> applied_commit a = Ok c
         \<and> session_at J P (tx_session_id tx) s' (h @ [at_entries a]) (h @ [at_entries a])))
    \<and> (\<forall>e. r = Err e \<longrightarrow> session_at J P (tx_session_id tx) s' h d)"
proof -
  let ?sid = "tx_session_id tx"
  obtain plan s0 where plan: "next_plan s = (plan, s0)" by fastforce
  note fields = next_plan_fields [OF plan]
  have at0: "session_at J P ?sid s0 h d" using assms(2) by (simp add: fields)
  obtain r1 s1 where touch: "touch J plan ?sid True s0 = (r1, s1)" by fastforce
  note t = touch_ok [OF assms(1) at0 touch]
  show ?thesis
  proof (cases "\<exists>st. r1 = Ok (Some st)")
    case True
    then obtain st where st: "r1 = Ok (Some st)" ..
    have loaded: "hm_get (js_sessions s1) ?sid = Some st" and at1: "session_at J P ?sid s1 h d"
      using t st by auto
    have "session_history ?sid h (st_projection st)"
      using at1 loaded by (auto simp: session_ok_def split: option.split_asm)
    then have st_contents: "st_projection st = jsonl_contents J s ?sid"
      using contents_unique [OF assms(1,2)] by simp
    have "commit_loaded J plan tx st s1 = (r, s')"
      using run plan touch st by (simp add: jsonl_commit_def)
    from commit_loaded_ok [OF assms(1) at1 loaded _ this] assms(3) t
    show ?thesis by (auto simp: st_contents plan intro: only_session_trans)
  next
    case False
    with run plan touch t show ?thesis
      by (auto simp: jsonl_commit_def split: rres.split_asm option.split_asm)
  qed
qed

lemma view_ok:
  assumes "port_ok J" "session_at J P sid s h d" and run: "jsonl_context_view J sid s = (r, s')"
  shows "only_session sid (snd (next_plan s)) s' \<and> session_at J P sid s' h d
    \<and> (r = context_view (jsonl_contents J s sid) sid \<or> (\<exists>e. r = Err (StoreUnavailable e)))
    \<and> (io_fine (js_io s (js_tick s)) \<longrightarrow> r = context_view (jsonl_contents J s sid) sid)"
proof -
  obtain plan s0 where plan: "next_plan s = (plan, s0)" by fastforce
  note fields = next_plan_fields [OF plan]
  have at0: "session_at J P sid s0 h d" using assms(2) by (simp add: fields)
  obtain r1 s1 where touch: "touch J plan sid False s0 = (r1, s1)" by fastforce
  note t = touch_ok [OF assms(1) at0 touch]
  show ?thesis
  proof (cases r1)
    case (Ok x)
    have "(case x of Some st \<Rightarrow> st_projection st | None \<Rightarrow> projection_empty) = jsonl_contents J s sid"
    proof (cases x)
      case None
      with t Ok have "h = []" by simp
      with contents_history [OF assms(1,2)] history_unique session_history.history_start None show ?thesis
        by fastforce
    next
      case (Some st)
      then have "session_history sid h (st_projection st)"
        using t Ok by (auto simp: session_ok_def split: option.split_asm)
      with contents_unique [OF assms(1,2)] Some show ?thesis by simp
    qed
    then have "r = context_view (jsonl_contents J s sid) sid" "s' = s1"
      using run plan touch Ok by (auto simp: jsonl_context_view_def split: option.split_asm)
    with t plan show ?thesis by simp
  next
    case (Err e)
    with run plan touch t fields(5) show ?thesis by (auto simp: jsonl_context_view_def)
  qed (use t in simp)
qed

definition jsonl_view :: "'j json_port \<Rightarrow> jsonl_store \<Rightarrow> rstring \<Rightarrow> (session_context_view, session_error) rres" where
  "jsonl_view J s sid = fst (jsonl_context_view J sid s)"

section \<open>The store contract\<close>

lemma commit_cases_any:
  assumes "jsonl_inv J s" "jsonl_commit J s tx = (r, s')"
  obtains h d where "session_at J (\<lambda>_. True) (tx_session_id tx) s h d" "port_ok J" "r \<noteq> Panic"
    "only_session (tx_session_id tx) (snd (next_plan s)) s'"
    "\<forall>c. r = Ok c \<longrightarrow> (\<exists>a. tx_expected_revision tx = sp_revision (jsonl_contents J s (tx_session_id tx))
       \<and> apply_transaction (jsonl_contents J s (tx_session_id tx)) tx = Ok a \<and> applied_commit a = Ok c
       \<and> session_at J (\<lambda>_. True) (tx_session_id tx) s' (h @ [at_entries a]) (h @ [at_entries a]))"
    "\<forall>e. r = Err e \<longrightarrow> session_at J (\<lambda>_. True) (tx_session_id tx) s' h d"
proof -
  obtain h d where at: "session_at J (\<lambda>_. True) (tx_session_id tx) s h d" and port: "port_ok J"
    by (rule jsonl_inv_at [OF assms(1)])
  from commit_ok [OF port at _ assms(2)] that [OF at port] show thesis by simp
qed

lemma contents_only:
  assumes "only_session sid (snd (next_plan s)) s'" "jsonl_contents J s' sid = sp"
  shows "jsonl_contents J s' = (jsonl_contents J s)(sid := sp)"
proof
  fix x
  show "jsonl_contents J s' x = ((jsonl_contents J s)(sid := sp)) x"
    using assms contents_other [OF assms(1), of x J] next_plan_fields(6) [of s _ "snd (next_plan s)" J]
    by (cases "x = sid") (simp_all add: prod_eq_iff)
qed

lemma session_at_other:
  assumes "only_session sid (snd (next_plan s)) s'" "sid' \<noteq> sid" "session_at J P sid' s h d"
  shows "session_at J P sid' s' h d"
  using assms by (simp add: only_session_def next_plan_def)

interpretation jsonl: session_store "jsonl_view J" "jsonl_commit J" "jsonl_inv J" "jsonl_contents J" for J
proof
  fix s sid assume inv: "jsonl_inv J s"
  obtain h d where "session_at J (\<lambda>_. True) sid s h d" "port_ok J" by (rule jsonl_inv_at [OF inv])
  with contents_history show "\<exists>h. session_history sid h (jsonl_contents J s sid)" by blast
next
  fix s and tx :: session_transaction
  assume inv: "jsonl_inv J s"
  obtain r s' where run: "jsonl_commit J s tx = (r, s')" by fastforce
  show "jsonl_inv J (snd (jsonl_commit J s tx))"
  proof (rule commit_cases_any [OF inv run])
    fix h d
    assume 1: "port_ok J" "r \<noteq> Panic" "only_session (tx_session_id tx) (snd (next_plan s)) s'"
      and 2: "\<forall>c. r = Ok c \<longrightarrow> (\<exists>a. tx_expected_revision tx = sp_revision (jsonl_contents J s (tx_session_id tx))
       \<and> apply_transaction (jsonl_contents J s (tx_session_id tx)) tx = Ok a \<and> applied_commit a = Ok c
       \<and> session_at J (\<lambda>_. True) (tx_session_id tx) s' (h @ [at_entries a]) (h @ [at_entries a]))"
      and 3: "\<forall>e. r = Err e \<longrightarrow> session_at J (\<lambda>_. True) (tx_session_id tx) s' h d"
    have "\<exists>h d. session_at J (\<lambda>_. True) sid s' h d" for sid
    proof (cases "sid = tx_session_id tx")
      case True
      with 1(2) 2 3 show ?thesis by (cases r) blast+
    next
      case False
      with inv session_at_other [OF 1(3)] show ?thesis unfolding jsonl_inv_def by blast
    qed
    with 1(1) run show ?thesis by (simp add: jsonl_inv_def)
  qed
next
  fix s c s' and tx :: session_transaction
  assume inv: "jsonl_inv J s" and run: "jsonl_commit J s tx = (Ok c, s')"
  from commit_cases_any [OF inv run] obtain h a where a: "port_ok J"
    "only_session (tx_session_id tx) (snd (next_plan s)) s'"
    "session_at J (\<lambda>_. True) (tx_session_id tx) s' (h @ [at_entries a]) (h @ [at_entries a])"
    "tx_expected_revision tx = sp_revision (jsonl_contents J s (tx_session_id tx))"
    "apply_transaction (jsonl_contents J s (tx_session_id tx)) tx = Ok a" "applied_commit a = Ok c"
    and at: "\<exists>d. session_at J (\<lambda>_. True) (tx_session_id tx) s h d"
    by (metis (no_types, lifting))
  have "session_history (tx_session_id tx) (h @ [at_entries a]) (at_projection a)"
    using session_history.history_commit [OF _ refl a(5)] contents_history [OF a(1)] at by blast
  with contents_unique [OF a(1,3)] contents_only [OF a(2)] a(4-6)
  show "tx_expected_revision tx = sp_revision (jsonl_contents J s (tx_session_id tx)) \<and>
      (\<exists>a. apply_transaction (jsonl_contents J s (tx_session_id tx)) tx = Ok a \<and> applied_commit a = Ok c
         \<and> jsonl_contents J s' = (jsonl_contents J s)(tx_session_id tx := at_projection a))"
    by blast
next
  fix s e s' and tx :: session_transaction
  assume inv: "jsonl_inv J s" and run: "jsonl_commit J s tx = (Err e, s')"
  show "jsonl_contents J s' = jsonl_contents J s"
  proof (rule commit_cases_any [OF inv run])
    fix h d
    assume 1: "session_at J (\<lambda>_. True) (tx_session_id tx) s h d" "port_ok J"
      "only_session (tx_session_id tx) (snd (next_plan s)) s'"
      and "\<forall>e'. (Err e :: (session_commit, session_error) rres) = Err e' \<longrightarrow>
        session_at J (\<lambda>_. True) (tx_session_id tx) s' h d"
    then have "session_at J (\<lambda>_. True) (tx_session_id tx) s' h d" by simp
    from contents_unique [OF 1(2) this contents_history [OF 1(2,1)]]
    have "jsonl_contents J s' (tx_session_id tx) = jsonl_contents J s (tx_session_id tx)" .
    from contents_only [OF 1(3) this] show ?thesis by simp
  qed
next
  fix s and tx :: session_transaction
  assume inv: "jsonl_inv J s"
  obtain r s' where run: "jsonl_commit J s tx = (r, s')" by fastforce
  from commit_cases_any [OF inv run] run show "fst (jsonl_commit J s tx) \<noteq> Panic" by auto
next
  fix s sid v assume inv: "jsonl_inv J s" and v: "jsonl_view J s sid = Ok v"
  obtain h d where at: "session_at J (\<lambda>_. True) sid s h d" "port_ok J" by (rule jsonl_inv_at [OF inv])
  from view_ok [OF at(2,1), of "fst (jsonl_context_view J sid s)" "snd (jsonl_context_view J sid s)"] v
  show "context_view (jsonl_contents J s sid) sid = Ok v" by (auto simp: jsonl_view_def)
next
  fix s sid assume inv: "jsonl_inv J s"
  obtain h d where at: "session_at J (\<lambda>_. True) sid s h d" "port_ok J" by (rule jsonl_inv_at [OF inv])
  have "projection_inv (jsonl_contents J s sid)"
    using contents_history [OF at(2,1)] by (rule history_inv)
  from context_view_Ok [OF this, of sid]
    view_ok [OF at(2,1), of "fst (jsonl_context_view J sid s)" "snd (jsonl_context_view J sid s)"]
  show "jsonl_view J s sid \<noteq> Panic" by (auto simp: jsonl_view_def)
qed

end
