(* ===== verification/Jsonl_Crash.thy ===== *)
theory Jsonl_Crash
  imports Jsonl_Contents
begin

text \<open>
  Crashes of the JSONL store: what any sequence of commands, restarts and losses of power leaves, and
  that without I/O failures the store answers as the in-memory store does.
\<close>

section \<open>A torn log\<close>

lemma log_lines_take:
  assumes "port_ok J" "log_lines J k h = Some bytes" "10 \<notin> set tail"
  shows "\<exists>h1 h2 b t. h = h1 @ h2 \<and> take n (bytes @ tail) = b @ t \<and> log_lines J k h1 = Some b \<and> 10 \<notin> set t"
  using assms(2)
proof (induction h arbitrary: k bytes n)
  case Nil
  have "10 \<notin> set (take n tail)" using assms(3) by (meson in_set_takeD)
  with Nil show ?case by simp
next
  case (Cons es h)
  obtain line rest where l: "line_of J (of_nat (Suc k)) es = Ok line" "log_lines J (Suc k) h = Some rest"
    "bytes = line @ 10 # rest"
    using Cons.prems by (auto simp: log_lines_Cons simp del: log_lines.simps)
  have plain: "10 \<notin> set line" using port_line [OF assms(1)] l(1) by (auto simp: line_of_def)
  show ?case
  proof (cases "n \<le> length line")
    case True
    then have "take n (bytes @ tail) = [] @ take n line" "10 \<notin> set (take n line)"
      using l(3) plain by (auto dest: in_set_takeD)
    then show ?thesis by (intro exI [of _ "[]"] exI [of _ "es # h"] exI [of _ "[]"] exI [of _ "take n line"]) simp
  next
    case False
    then obtain m where m: "n = Suc (length line + m)" by (metis add_Suc_right less_imp_Suc_add not_le)
    from Cons.IH [OF l(2), of m] obtain h1 h2 b t where ih: "h = h1 @ h2" "take m (rest @ tail) = b @ t"
      "log_lines J (Suc k) h1 = Some b" "10 \<notin> set t" by blast
    have "take n (bytes @ tail) = (line @ 10 # b) @ t" using l(3) m ih(2) by simp
    moreover have "log_lines J k (es # h1) = Some (line @ 10 # b)"
      unfolding log_lines_Cons using l(1) ih(3) by blast
    ultimately show ?thesis using ih(1,4) append_Cons by metis
  qed
qed

lemma durable_prefix:
  assumes "log_lines J 0 h = Some bytes" "prefix d h" "prefix h1 h"
    and "log_lines J 0 d = Some bd" "length bd \<le> n"
    and "log_lines J 0 h1 = Some b" "take n (bytes @ tail) = b @ t" "10 \<notin> set t"
  shows "prefix d h1"
proof (rule ccontr)
  assume not: "\<not> prefix d h1"
  then have "strict_prefix h1 d" using prefix_same_cases [OF assms(2,3)] by (auto simp: strict_prefix_def)
  then obtain es d' where d: "d = h1 @ es # d'" by (metis strict_prefixE')
  then have "log_lines J 0 (h1 @ es # d') = Some bd" using assms(4) by simp
  then obtain r where r: "log_lines J (length h1) (es # d') = Some r" "bd = b @ r"
    using assms(6) by (auto simp: log_lines_append simp del: log_lines.simps)
  have newline: "10 \<in> set r" using r(1) unfolding log_lines_Cons by auto
  obtain rest where "bytes = bd @ rest" using prefix_lines [OF assms(2,1)] assms(4) by auto
  then have "take n (bytes @ tail) = bd @ take (n - length bd) (rest @ tail)" using assms(5) by simp
  then have "t = r @ take (n - length bd) (rest @ tail)" using assms(7) r(2) by simp
  with newline assms(8) show False by simp
qed

lemma history_prefix: "session_history sid h sp \<Longrightarrow> prefix h1 h \<Longrightarrow> \<exists>sp1. session_history sid h1 sp1"
proof (induction arbitrary: rule: session_history.induct)
  case history_start
  then show ?case using session_history.history_start by auto
next
  case (history_commit h sp tx a)
  from history_commit.prems consider "h1 = h @ [at_entries a]" | "prefix h1 h" by auto
  then show ?case
    using session_history.history_commit [OF history_commit.hyps] history_commit.IH by cases blast+
qed

section \<open>What is left\<close>

text \<open>Whatever the state of a session, its log is that of a history which extends the durable part.\<close>

lemma session_on_disk:
  assumes "session_ok J P sid (Some f) so h d"
  obtains h0 where "disk_holds J f h0" "list_all P h0" "\<exists>sp. session_history sid h0 sp" "prefix d h0"
    "durable J f d" "sound J (sf_artifacts f)" "sound J (sf_durable f)"
proof -
  have base: "prefix d h" "list_all P h" "\<exists>sp. session_history sid h sp" "durable J f d"
    "sound J (sf_artifacts f)" "sound J (sf_durable f)"
    using assms by (auto simp: session_ok_def)
  show thesis
  proof (cases "disk_holds J f h")
    case True
    with base that show thesis by blast
  next
    case False
    then obtain es sp where "P es" "session_history sid (h @ [es]) sp" "disk_holds J f (h @ [es])"
      using assms by (auto simp: session_ok_def poisoned_disk_def dest: disk_exact_holds
          split: option.split_asm if_split_asm)
    with base that [of "h @ [es]"] show thesis by auto
  qed
qed

lemma survives_ok:
  assumes "port_ok J" "session_ok J P sid (Some f) so h d" "survives f f'"
  shows "\<exists>h'. session_ok J P sid (Some f') None h' d"
proof -
  obtain h0 where h0: "disk_holds J f h0" "list_all P h0" "\<exists>sp. session_history sid h0 sp" "prefix d h0"
    "durable J f d" "sound J (sf_artifacts f)" "sound J (sf_durable f)"
    by (rule session_on_disk [OF assms(2)])
  obtain bytes tail where log: "log_lines J 0 h0 = Some bytes" "sf_log f = bytes @ tail" "10 \<notin> set tail"
    and held: "artifacts_held J (sf_artifacts f) h0" "artifacts_held J (sf_durable f) h0"
    using h0(1) by (auto simp: disk_holds_def)
  obtain bd where bd: "log_lines J 0 d = Some bd" "length bd \<le> sf_synced f"
    using h0(5) by (auto simp: durable_def)
  obtain n where n: "sf_synced f \<le> n" "sf_log f' = take n (bytes @ tail)"
    using assms(3) log(2) by (auto simp: survives_def)
  from log_lines_take [OF assms(1) log(1,3), of n] obtain h1 h2 b t where cut: "h0 = h1 @ h2"
    "take n (bytes @ tail) = b @ t" "log_lines J 0 h1 = Some b" "10 \<notin> set t" by blast
  have pre: "prefix h1 h0" using cut(1) by simp
  have d1: "prefix d h1"
    by (rule durable_prefix [OF log(1) h0(4) pre bd(1) _ cut(3,2,4)]) (use bd(2) n(1) in simp)
  have names: "hm_get (sf_artifacts f') (jp_sha256_hex J x) \<in>
      {hm_get (sf_artifacts f) (jp_sha256_hex J x), hm_get (sf_durable f) (jp_sha256_hex J x)}" for x
    using assms(1,3) by (auto simp: survives_def port_ok_def)
  have same: "sf_durable f' = sf_artifacts f'" using assms(3) by (simp add: survives_def)
  have held1: "artifacts_held J (sf_artifacts f') h1"
    unfolding artifacts_held_def
  proof
    fix x assume "x \<in> set (entry_images (concat h1))"
    then have "x \<in> set (entry_images (concat h0))" by (simp add: cut(1) entry_images_def)
    with held names [of x] show "hm_get (sf_artifacts f') (jp_sha256_hex J x) = Some x"
      by (simp add: artifacts_held_def)
  qed
  have sound1: "sound J (sf_artifacts f')"
    using h0(6,7) names unfolding sound_def by (metis insertE singletonD)
  have "durable J f' d"
    using bd(1) prefix_lines [OF d1 cut(3)] n(2) cut(2) assms(3) by (fastforce simp: durable_def survives_def)
  moreover have "disk_holds J f' h1"
    using cut n(2) held1 same by (auto simp: disk_holds_def)
  moreover have "list_all P h1" using h0(2) cut(1) by simp
  ultimately have "session_ok J P sid (Some f') None h1 d"
    using history_prefix [OF _ pre] h0(3) sound1 same d1 by (auto simp: session_ok_def)
  then show ?thesis ..
qed

lemma power_loss_ok:
  assumes "port_ok J" "session_at J P sid s h d" "power_loss s s'"
  shows "\<exists>h'. session_at J P sid s' h' d"
proof -
  have closed: "js_sessions s' = []" using assms(3) by (simp add: power_loss_def)
  have left: "case hm_get (js_disk s) sid of
      None \<Rightarrow> hm_get (js_disk s') sid = None
    | Some f \<Rightarrow> (case hm_get (js_disk s') sid of None \<Rightarrow> sf_synced f = 0 | Some f' \<Rightarrow> survives f f')"
    using assms(3) by (simp add: power_loss_def)
  show ?thesis
  proof (cases "hm_get (js_disk s) sid")
    case None
    have "hm_get (js_disk s') sid = None"
      using left None by simp
    moreover have "d = []" using assms(2) None by (auto simp: session_ok_def)
    ultimately show ?thesis using closed session_ok_new [of J P sid] by (intro exI [of _ "[]"]) simp
  next
    case (Some f)
    note left = left [unfolded Some option.case]
    show ?thesis
    proof (cases "hm_get (js_disk s') sid")
      case None
      with left have "sf_synced f = 0" by simp
      then have "log_lines J 0 d = Some []" using assms(2) Some by (auto simp: session_ok_def durable_def)
      then have "d = []" by (cases d) (auto simp: log_lines_Cons simp del: log_lines.simps(2))
      with None closed session_ok_new [of J P sid] show ?thesis by (intro exI [of _ "[]"]) simp
    next
      case (Some f')
      with left have "survives f f'" by simp
      from survives_ok [OF assms(1) _ this] assms(2) \<open>hm_get (js_disk s) sid = Some f\<close> Some closed
      show ?thesis by simp
    qed
  qed
qed

lemma close_ok:
  assumes "session_ok J P sid (Some f) so h d" "same_data f f' \<or>
      (sf_log f' = sf_log f \<and> sf_artifacts f' = sf_artifacts f \<and> sf_durable f' = sf_durable f
       \<and> sf_synced f' = length (sf_log f))"
  shows "\<exists>h'. session_ok J P sid (Some f') None h' d"
proof -
  obtain h0 where h0: "disk_holds J f h0" "list_all P h0" "\<exists>sp. session_history sid h0 sp" "prefix d h0"
    "durable J f d" "sound J (sf_artifacts f)" "sound J (sf_durable f)"
    by (rule session_on_disk [OF assms(1)])
  obtain bytes tail where log: "log_lines J 0 h0 = Some bytes" "sf_log f = bytes @ tail"
    using h0(1) by (auto simp: disk_holds_def)
  obtain bd b' where "log_lines J 0 d = Some bd" "bytes = bd @ b'" by (rule prefix_lines [OF h0(4) log(1)])
  then have "durable J f' d" using h0(5) assms(2) log(2) by (auto simp: durable_def same_data_def)
  moreover have "disk_holds J f' h0" using h0(1) assms(2) by (auto simp: disk_holds_def same_data_def)
  ultimately show ?thesis using h0 assms(2) by (auto simp: session_ok_def same_data_def)
qed

lemma restart_ok:
  assumes "session_at J P sid s h d"
  shows "\<exists>h'. session_at J P sid (jsonl_restart s) h' d"
proof (cases "hm_get (js_disk s) sid")
  case None
  with assms show ?thesis by (auto simp: jsonl_restart_def session_ok_def)
next
  case (Some f)
  with assms close_ok [of J P sid f _ h d f] show ?thesis by (auto simp: jsonl_restart_def same_data_def)
qed

end
