(* ===== verification/Jsonl_Reach.thy ===== *)
theory Jsonl_Reach
  imports Jsonl_Crash
begin

text \<open>
  Everything that can happen to a JSONL store: its commands with any answers of the operating system,
  shutting down, restarts and losses of power; and its runs without I/O failures, which answer as the
  in-memory store does.
\<close>

section \<open>The remaining commands\<close>

lemma recover_session_ok:
  assumes "port_ok J" "session_at J P sid s h d" and run: "jsonl_recover_session J sid s = (r, s')"
  shows "only_session sid (snd (next_plan s)) s' \<and> session_at J P sid s' h d"
proof -
  obtain plan s0 where plan: "next_plan s = (plan, s0)" by fastforce
  note fields = next_plan_fields [OF plan]
  have at0: "session_at J P sid s0 h d" using assms(2) by (simp add: fields)
  show ?thesis
  proof (cases "hm_get (js_sessions s0) sid = None \<and> hm_get (js_disk s0) sid \<noteq> None")
    case True
    then obtain f where open0: "hm_get (js_sessions s0) sid = None" "hm_get (js_disk s0) sid = Some f" by blast
    obtain r1 s1 where rec: "recover_existing J plan sid s0 = (r1, s1)" by fastforce
    from recover_existing_ok [OF assms(1) at0 open0 rec] run plan open0 rec show ?thesis
      by (cases r1) (auto simp: jsonl_recover_session_def)
  next
    case False
    with run plan have "s' = s0" by (auto simp: jsonl_recover_session_def split: option.split_asm if_split_asm)
    with at0 plan show ?thesis by simp
  qed
qed

text \<open>Shutting down touches no byte: it may make durable what is there.\<close>

definition synced_more :: "session_files \<Rightarrow> session_files \<Rightarrow> bool" where
  "synced_more f f' \<longleftrightarrow> f' = f \<or> f' = f\<lparr>sf_synced := length (sf_log f)\<rparr>"

lemma synced_more_final: "synced_more f g \<Longrightarrow> synced_more f (final_sync plan sid g)"
  by (auto simp: synced_more_def final_sync_def)

lemma finish_disk:
  assumes "\<And>x. x \<in> set ks \<Longrightarrow> hm_get (js_disk s) x \<noteq> None"
  shows "rel_option synced_more (hm_get (js_disk s) sid)
    (hm_get (js_disk (fold (\<lambda>x s. set_files x (final_sync plan x (files_of s x)) s) ks s)) sid)"
  using assms
proof (induction ks rule: rev_induct)
  case Nil
  then show ?case by (cases "hm_get (js_disk s) sid") (simp_all add: synced_more_def)
next
  case (snoc k ks)
  let ?s1 = "fold (\<lambda>x s. set_files x (final_sync plan x (files_of s x)) s) ks s"
  have ih: "rel_option synced_more (hm_get (js_disk s) sid) (hm_get (js_disk ?s1) sid)"
    using snoc by simp
  show ?case
  proof (cases "sid = k")
    case True
    with snoc.prems obtain f where "hm_get (js_disk s) sid = Some f" by fastforce
    with ih True synced_more_final show ?thesis
      by (auto simp: option_rel_Some1 files_of_def)
  next
    case False
    with ih show ?thesis by (simp add: set_files_def)
  qed
qed

lemma finish_ok:
  assumes "\<And>x. hm_get (js_sessions s) x \<noteq> None \<Longrightarrow> hm_get (js_disk s) x \<noteq> None"
    and "session_at J P sid s h d"
  shows "\<exists>h'. session_at J P sid (jsonl_finish s) h' d"
proof -
  obtain plan s0 where plan: "next_plan s = (plan, s0)" by fastforce
  note fields = next_plan_fields [OF plan]
  let ?s1 = "fold (\<lambda>x s. set_files x (final_sync plan x (files_of s x)) s) (hm_keys (js_sessions s0)) s0"
  have fin: "jsonl_finish s = ?s1\<lparr>js_sessions := []\<rparr>" by (simp add: jsonl_finish_def plan)
  have rel: "rel_option synced_more (hm_get (js_disk s) sid) (hm_get (js_disk ?s1) sid)"
    using finish_disk [of "hm_keys (js_sessions s0)" s0 sid plan] assms(1) by (simp add: fields set_hm_keys)
  show ?thesis
  proof (cases "hm_get (js_disk s) sid")
    case None
    with rel assms(2) show ?thesis by (auto simp: fin session_ok_def)
  next
    case (Some f)
    then obtain f' where f': "hm_get (js_disk ?s1) sid = Some f'" "synced_more f f'"
      using rel by (auto simp: option_rel_Some1)
    have "same_data f f' \<or> (sf_log f' = sf_log f \<and> sf_artifacts f' = sf_artifacts f
        \<and> sf_durable f' = sf_durable f \<and> sf_synced f' = length (sf_log f))"
      using f'(2) by (auto simp: synced_more_def same_data_def)
    from close_ok [OF _ this] assms(2) Some f'(1) show ?thesis by (simp add: fin)
  qed
qed

lemma open_has_files:
  assumes "session_at J P sid s h d" "hm_get (js_sessions s) sid \<noteq> None"
  shows "hm_get (js_disk s) sid \<noteq> None"
  using assms by (auto simp: session_ok_def split: option.split_asm)

section \<open>Any run\<close>

text \<open>What clients were told: the entries of the commits that succeeded, in order.\<close>

definition acknowledge ::
    "session_transaction \<Rightarrow> (session_commit, session_error) rres
      \<Rightarrow> (rstring \<Rightarrow> session_entry list list) \<Rightarrow> (rstring \<Rightarrow> session_entry list list)" where
  "acknowledge tx r acked =
     (case r of
        Ok c \<Rightarrow> acked(tx_session_id tx := acked (tx_session_id tx) @ [commit_entries c])
      | _ \<Rightarrow> acked)"

inductive jsonl_reach ::
    "'j json_port \<Rightarrow> jsonl_store \<Rightarrow> (rstring \<Rightarrow> session_entry list list) \<Rightarrow> session_transaction list \<Rightarrow> bool"
  for J where
  reach_new: "jsonl_reach J (jsonl_new root io) (\<lambda>_. []) []"
| reach_commit: "jsonl_reach J s acked txs \<Longrightarrow> jsonl_commit J s tx = (r, s') \<Longrightarrow>
    jsonl_reach J s' (acknowledge tx r acked) (tx # txs)"
| reach_view: "jsonl_reach J s acked txs \<Longrightarrow> jsonl_context_view J sid s = (v, s') \<Longrightarrow> jsonl_reach J s' acked txs"
| reach_recover: "jsonl_reach J s acked txs \<Longrightarrow> jsonl_recover_session J sid s = (p, s') \<Longrightarrow>
    jsonl_reach J s' acked txs"
| reach_list: "jsonl_reach J s acked txs \<Longrightarrow> jsonl_list_sessions s = (l, s') \<Longrightarrow> jsonl_reach J s' acked txs"
| reach_summaries: "jsonl_reach J s acked txs \<Longrightarrow> jsonl_list_session_summaries s = (m, s') \<Longrightarrow>
    jsonl_reach J s' acked txs"
| reach_finish: "jsonl_reach J s acked txs \<Longrightarrow> jsonl_reach J (jsonl_finish s) acked txs"
| reach_restart: "jsonl_reach J s acked txs \<Longrightarrow> jsonl_reach J (jsonl_restart s) acked txs"
| reach_power_loss: "jsonl_reach J s acked txs \<Longrightarrow> power_loss s s' \<Longrightarrow> jsonl_reach J s' acked txs"

text \<open>The entries of a transaction that was submitted for the session.\<close>

definition submitted :: "session_transaction list \<Rightarrow> rstring \<Rightarrow> session_entry list \<Rightarrow> bool" where
  "submitted txs sid es \<longleftrightarrow>
     list_ex (\<lambda>tx. tx_session_id tx = sid \<and> map entry_kind es = map ne_kind (tx_entries tx)) txs"

lemma session_ok_mono:
  assumes "session_ok J P sid fo so h d" "\<And>es. P es \<Longrightarrow> Q es"
  shows "session_ok J Q sid fo so h d"
proof -
  have "poisoned_disk J P sid f h \<Longrightarrow> poisoned_disk J Q sid f h" for f
    using assms(2) by (auto simp: poisoned_disk_def)
  moreover have "list_all P h \<Longrightarrow> list_all Q h" using assms(2) by (simp add: list_all_iff)
  ultimately show ?thesis using assms(1) by (auto simp: session_ok_def split: option.splits)
qed

definition reach_inv ::
    "'j json_port \<Rightarrow> jsonl_store \<Rightarrow> (rstring \<Rightarrow> session_entry list list) \<Rightarrow> session_transaction list \<Rightarrow> bool" where
  "reach_inv J s acked txs \<longleftrightarrow>
     (\<forall>sid. \<exists>h d. session_at J (submitted txs sid) sid s h d \<and> subseq (acked sid) d)"

lemma reach_inv_at:
  assumes "reach_inv J s acked txs"
  obtains h d where "session_at J (submitted txs sid) sid s h d" "subseq (acked sid) d"
  using assms unfolding reach_inv_def by blast

lemma reach_inv_cong:
  assumes "reach_inv J s acked txs" "js_disk s' = js_disk s" "js_sessions s' = js_sessions s"
  shows "reach_inv J s' acked txs"
  using assms by (simp add: reach_inv_def)

text \<open>Commands on one session, and what happens to all of them.\<close>

lemma reach_inv_one:
  assumes "reach_inv J s acked txs" "only_session sid (snd (next_plan s)) s'"
    and "\<And>x es. submitted txs x es \<Longrightarrow> submitted txs' x es"
    and "\<And>x. x \<noteq> sid \<Longrightarrow> acked' x = acked x"
    and "\<exists>h d. session_at J (submitted txs' sid) sid s' h d \<and> subseq (acked' sid) d"
  shows "reach_inv J s' acked' txs'"
  unfolding reach_inv_def
proof
  fix x
  show "\<exists>h d. session_at J (submitted txs' x) x s' h d \<and> subseq (acked' x) d"
  proof (cases "x = sid")
    case False
    obtain h d where hd: "session_at J (submitted txs x) x s h d" "subseq (acked x) d"
      by (rule reach_inv_at [OF assms(1)])
    from session_ok_mono [OF session_at_other [OF assms(2) False hd(1)]] assms(3,4) False hd(2)
    show ?thesis by metis
  qed (use assms(5) in simp)
qed

lemma reach_inv_all:
  assumes "reach_inv J s acked txs"
    and "\<And>sid h d. session_at J (submitted txs sid) sid s h d \<Longrightarrow> \<exists>h'. session_at J (submitted txs sid) sid s' h' d"
  shows "reach_inv J s' acked txs"
  using assms unfolding reach_inv_def by meson

lemma applied_submitted:
  assumes "apply_transaction sp tx = Ok a"
  shows "submitted (tx # txs) (tx_session_id tx) (at_entries a)"
  using materialize_ids(2) [OF apply_transaction_Ok(1) [OF assms]] by (simp add: submitted_def)

lemma reach_invariant:
  assumes "port_ok J" "jsonl_reach J s acked txs"
  shows "reach_inv J s acked txs"
  using assms(2)
proof (induction rule: jsonl_reach.induct)
  case (reach_new root io)
  show ?case using session_ok_new by (fastforce simp: reach_inv_def jsonl_new_def)
next
  case (reach_commit s acked txs tx r s')
  let ?sid = "tx_session_id tx"
  obtain h d where hd: "session_at J (submitted txs ?sid) ?sid s h d" "subseq (acked ?sid) d"
    by (rule reach_inv_at [OF reach_commit.IH])
  have more: "submitted (tx # txs) x es" if "submitted txs x es" for x es
    using that by (simp add: submitted_def)
  have at: "session_at J (submitted (tx # txs) ?sid) ?sid s h d" by (rule session_ok_mono [OF hd(1) more])
  have "\<forall>a. apply_transaction (jsonl_contents J s ?sid) tx = Ok a \<longrightarrow> submitted (tx # txs) ?sid (at_entries a)"
    using applied_submitted by blast
  note ok = commit_ok [OF assms(1) at this reach_commit.hyps(2)]
  show ?case
  proof (rule reach_inv_one [OF reach_commit.IH _ more])
    show "only_session ?sid (snd (next_plan s)) s'" using ok by blast
    show "\<exists>h d. session_at J (submitted (tx # txs) ?sid) ?sid s' h d \<and> subseq (acknowledge tx r acked ?sid) d"
    proof (cases r)
      case (Ok c)
      with ok obtain a where a: "apply_transaction (jsonl_contents J s ?sid) tx = Ok a" "applied_commit a = Ok c"
        "session_at J (submitted (tx # txs) ?sid) ?sid s' (h @ [at_entries a]) (h @ [at_entries a])"
        by blast
      have "commit_entries c = at_entries a" using applied_commit_Ok [OF a(1)] a(2) by auto
      moreover have "subseq (acked ?sid) h"
        using hd(2) at by (auto simp: session_ok_def intro: subseq_order.trans prefix_imp_subseq)
      ultimately show ?thesis using a(3) Ok by (auto simp: acknowledge_def intro: list_emb_append_mono)
    next
      case (Err e)
      with ok hd(2) show ?thesis by (auto simp: acknowledge_def)
    qed (use ok in simp)
  qed (simp_all add: acknowledge_def split: rres.split)
next
  case (reach_view s acked txs sid v s')
  obtain h d where hd: "session_at J (submitted txs sid) sid s h d" "subseq (acked sid) d"
    by (rule reach_inv_at [OF reach_view.IH])
  from view_ok [OF assms(1) hd(1) reach_view.hyps(2)] hd(2) show ?case
    by (intro reach_inv_one [OF reach_view.IH]) blast+
next
  case (reach_recover s acked txs sid p s')
  obtain h d where hd: "session_at J (submitted txs sid) sid s h d" "subseq (acked sid) d"
    by (rule reach_inv_at [OF reach_recover.IH])
  from recover_session_ok [OF assms(1) hd(1) reach_recover.hyps(2)] hd(2) show ?case
    by (intro reach_inv_one [OF reach_recover.IH]) blast+
next
  case (reach_list s acked txs l s')
  then show ?case by (auto simp: jsonl_list_sessions_def next_plan_def intro: reach_inv_cong)
next
  case (reach_summaries s acked txs m s')
  then show ?case by (auto simp: jsonl_list_session_summaries_def next_plan_def intro: reach_inv_cong)
next
  case (reach_finish s acked txs)
  have "hm_get (js_disk s) x \<noteq> None" if "hm_get (js_sessions s) x \<noteq> None" for x
    using reach_inv_at [OF reach_finish.IH, of x] open_has_files that by metis
  from finish_ok [OF this] show ?case by (rule reach_inv_all [OF reach_finish.IH])
next
  case (reach_restart s acked txs)
  from restart_ok show ?case by (rule reach_inv_all [OF reach_restart.IH])
next
  case (reach_power_loss s acked txs s')
  from power_loss_ok [OF assms(1) _ reach_power_loss.hyps(2)] show ?case
    by (rule reach_inv_all [OF reach_power_loss.IH])
qed

end
