(* ===== verification/Jsonl_Equivalence.thy ===== *)
theory Jsonl_Equivalence
  imports Jsonl_Reach
begin

text \<open>
  Runs without I/O failures: the JSONL store answers every commit and view as the in-memory store
  does, across shutdowns and restarts.
\<close>

section \<open>Answers\<close>

datatype store_op = DoCommit session_transaction | DoView rstring | DoFinish | DoRestart

datatype store_answer =
    AnsCommit "(session_commit, session_error) rres"
  | AnsView "(session_context_view, session_error) rres"

fun jsonl_answers :: "'j json_port \<Rightarrow> store_op list \<Rightarrow> jsonl_store \<Rightarrow> store_answer list" where
  "jsonl_answers J [] s = []"
| "jsonl_answers J (DoCommit tx # ops) s =
     (case jsonl_commit J s tx of (r, s') \<Rightarrow> AnsCommit r # jsonl_answers J ops s')"
| "jsonl_answers J (DoView sid # ops) s =
     (case jsonl_context_view J sid s of (v, s') \<Rightarrow> AnsView v # jsonl_answers J ops s')"
| "jsonl_answers J (DoFinish # ops) s = jsonl_answers J ops (jsonl_finish s)"
| "jsonl_answers J (DoRestart # ops) s = jsonl_answers J ops (jsonl_restart s)"

fun memory_answers :: "store_op list \<Rightarrow> memory_session_store \<Rightarrow> store_answer list" where
  "memory_answers [] m = []"
| "memory_answers (DoCommit tx # ops) m =
     (case memory_commit m tx of (r, m') \<Rightarrow> AnsCommit r # memory_answers ops m')"
| "memory_answers (DoView sid # ops) m = AnsView (memory_context_view m sid) # memory_answers ops m"
| "memory_answers (DoFinish # ops) m = memory_answers ops m"
| "memory_answers (DoRestart # ops) m = memory_answers ops m"

section \<open>The result of a commit\<close>

definition commit_result ::
    "session_projection \<Rightarrow> session_transaction \<Rightarrow> (session_commit, session_error) rres" where
  "commit_result sp tx =
     (if tx_expected_revision tx \<noteq> sp_revision sp then
        Err (RevisionConflict (tx_expected_revision tx) (sp_revision sp))
      else rbind (apply_transaction sp tx) applied_commit)"

lemma memory_commit_result: "memory_inv m \<Longrightarrow> fst (memory_commit m tx) = commit_result (memory_projection m (tx_session_id tx)) tx"
  by (auto simp: memory_commit_def commit_result_def memory_inv_def Let_def split: rres.split)

definition unpoisoned :: "jsonl_store \<Rightarrow> bool" where
  "unpoisoned s \<longleftrightarrow> (\<forall>sid st. hm_get (js_sessions s) sid = Some st \<longrightarrow> st_poisoned st = None)"

lemma commit_loaded_fine:
  assumes "port_ok J" "port_total J" "session_at J (\<lambda>_. True) (tx_session_id tx) s h d"
    and "hm_get (js_sessions s) (tx_session_id tx) = Some st" "st_poisoned st = None" "io_fine plan"
  shows "fst (commit_loaded J plan tx st s) = commit_result (st_projection st) tx"
    and "\<exists>st'. hm_get (js_sessions (snd (commit_loaded J plan tx st s))) (tx_session_id tx) = Some st'
      \<and> st_poisoned st' = None"
proof -
  have "session_history (tx_session_id tx) h (st_projection st)"
    using assms(3,4) by (auto simp: session_ok_def split: option.split_asm)
  then have "projection_inv (st_projection st)" by (rule history_inv)
  note np = apply_transaction_not_panic [OF this, of tx]
  show "fst (commit_loaded J plan tx st s) = commit_result (st_projection st) tx"
    "\<exists>st'. hm_get (js_sessions (snd (commit_loaded J plan tx st s))) (tx_session_id tx) = Some st'
      \<and> st_poisoned st' = None"
  proof (atomize (full), cases "tx_expected_revision tx = sp_revision (st_projection st) \<and>
      is_Ok (apply_transaction (st_projection st) tx)")
    case True
    then obtain a where a: "apply_transaction (st_projection st) tx = Ok a"
      by (cases "apply_transaction (st_projection st) tx") simp_all
    obtain r s' where run: "write_transaction J plan (tx_session_id tx) a st s = (r, s')" by fastforce
    note w = write_transaction_ok [OF assms(1,3,4,5) refl a TrueI run]
    with assms(2,6) obtain c where "r = Ok c" by (cases r) auto
    with w run a assms(5) True show "fst (commit_loaded J plan tx st s) = commit_result (st_projection st) tx \<and>
      (\<exists>st'. hm_get (js_sessions (snd (commit_loaded J plan tx st s))) (tx_session_id tx) = Some st'
        \<and> st_poisoned st' = None)"
      by (auto simp: commit_loaded_def commit_result_def)
  next
    case False
    with np assms(4,5) show "fst (commit_loaded J plan tx st s) = commit_result (st_projection st) tx \<and>
      (\<exists>st'. hm_get (js_sessions (snd (commit_loaded J plan tx st s))) (tx_session_id tx) = Some st'
        \<and> st_poisoned st' = None)"
      by (cases "apply_transaction (st_projection st) tx") (auto simp: commit_loaded_def commit_result_def)
  qed
qed

text \<open>Opening a session without failures: it is open, and nothing is poisoned that was not.\<close>

lemma touch_fine:
  assumes "port_ok J" "session_at J P sid s h d" "unpoisoned s" "io_fine plan"
    and "touch J plan sid create s = (r, s')"
  shows "is_Ok r \<and> unpoisoned s' \<and> session_at J P sid s' h d
    \<and> (create \<longrightarrow> (\<exists>st. r = Ok (Some st) \<and> hm_get (js_sessions s') sid = Some st))"
proof -
  note t = touch_ok [OF assms(1,2,5)]
  have ok: "is_Ok r" using t assms(4) by blast
  have "unpoisoned s'"
    unfolding unpoisoned_def
  proof (intro allI impI)
    fix x st assume x: "hm_get (js_sessions s') x = Some st"
    show "st_poisoned st = None"
    proof (cases "x = sid \<and> hm_get (js_sessions s) sid = None")
      case True
      with x ok t assms(5) show ?thesis
        by (cases r) (auto simp: touch_def Let_def split: option.split_asm rres.split_asm prod.split_asm if_split_asm)
    next
      case False
      then have "hm_get (js_sessions s') x = hm_get (js_sessions s) x"
        using t assms(5) by (cases "x = sid") (auto simp: only_session_def touch_def split: option.split_asm)
      with x assms(3) show ?thesis by (simp add: unpoisoned_def)
    qed
  qed
  with ok t show ?thesis by (cases r) auto
qed

definition all_fine :: "jsonl_store \<Rightarrow> bool" where
  "all_fine s \<longleftrightarrow> (\<forall>n. io_fine (js_io s n))"

lemma commit_fine:
  assumes "port_ok J" "port_total J" "session_at J (\<lambda>_. True) (tx_session_id tx) s h d" "unpoisoned s"
    and "all_fine s" and run: "jsonl_commit J s tx = (r, s')"
  shows "r = commit_result (jsonl_contents J s (tx_session_id tx)) tx \<and> unpoisoned s' \<and> all_fine s'"
proof -
  let ?sid = "tx_session_id tx"
  obtain plan s0 where plan: "next_plan s = (plan, s0)" by fastforce
  note fields = next_plan_fields [OF plan]
  have at0: "session_at J (\<lambda>_. True) ?sid s0 h d" and un0: "unpoisoned s0" and fine: "io_fine plan"
    using assms(3-5) by (simp_all add: fields unpoisoned_def all_fine_def)
  obtain r1 s1 where touch: "touch J plan ?sid True s0 = (r1, s1)" by fastforce
  from touch_fine [OF assms(1) at0 un0 fine touch] obtain st where st: "r1 = Ok (Some st)"
    "hm_get (js_sessions s1) ?sid = Some st" "session_at J (\<lambda>_. True) ?sid s1 h d" "unpoisoned s1" by auto
  have poison: "st_poisoned st = None" using st(2,4) by (simp add: unpoisoned_def)
  have "session_history ?sid h (st_projection st)"
    using st(2,3) by (auto simp: session_ok_def split: option.split_asm)
  then have st_contents: "st_projection st = jsonl_contents J s ?sid"
    using contents_unique [OF assms(1,3)] by simp
  have run1: "commit_loaded J plan tx st s1 = (r, s')" using run plan touch st(1) by (simp add: jsonl_commit_def)
  note ok = commit_loaded_ok [OF assms(1) st(3,2) TrueI run1]
  note fine1 = commit_loaded_fine [OF assms(1,2) st(3,2) poison fine, unfolded run1]
  have "unpoisoned s'"
    unfolding unpoisoned_def
  proof (intro allI impI)
    fix x st' assume x: "hm_get (js_sessions s') x = Some st'"
    show "st_poisoned st' = None"
    proof (cases "x = ?sid")
      case True
      with x fine1(2) show ?thesis by simp
    next
      case False
      with x ok st(4) show ?thesis by (auto simp: only_session_def unpoisoned_def)
    qed
  qed
  moreover have "js_io s' = js_io s"
    using ok touch_ok [OF assms(1) at0 touch] by (simp add: only_session_def fields)
  ultimately show ?thesis using fine1(1) assms(5) by (simp add: st_contents all_fine_def)
qed

lemma view_fine:
  assumes "port_ok J" "session_at J (\<lambda>_. True) sid s h d" "unpoisoned s" "all_fine s"
    and run: "jsonl_context_view J sid s = (r, s')"
  shows "r = context_view (jsonl_contents J s sid) sid \<and> unpoisoned s' \<and> all_fine s'"
proof -
  obtain plan s0 where plan: "next_plan s = (plan, s0)" by fastforce
  note fields = next_plan_fields [OF plan]
  have at0: "session_at J (\<lambda>_. True) sid s0 h d" and un0: "unpoisoned s0" and fine: "io_fine plan"
    using assms(2-4) by (simp_all add: fields unpoisoned_def all_fine_def)
  obtain r1 s1 where touch: "touch J plan sid False s0 = (r1, s1)" by fastforce
  have "s' = s1"
    using run plan touch by (auto simp: jsonl_context_view_def split: rres.split_asm option.split_asm)
  moreover have "js_io s1 = js_io s"
    using touch_ok [OF assms(1) at0 touch] by (simp add: only_session_def fields)
  ultimately show ?thesis
    using touch_fine [OF assms(1) at0 un0 fine touch] view_ok [OF assms(1,2) run] assms(4)
    by (simp add: all_fine_def)
qed

section \<open>Closing\<close>

lemma closed_same:
  assumes "port_ok J" "jsonl_inv J s" "unpoisoned s" "js_sessions s' = []"
    and "rel_option synced_more (hm_get (js_disk s) sid) (hm_get (js_disk s') sid)"
  shows "jsonl_contents J s' sid = jsonl_contents J s sid \<and> (\<exists>h d. session_at J (\<lambda>_. True) sid s' h d)"
proof -
  obtain h d where hd: "session_at J (\<lambda>_. True) sid s h d" by (rule jsonl_inv_at [OF assms(2)])
  have "session_at J (\<lambda>_. True) sid s' h d"
  proof (cases "hm_get (js_disk s) sid")
    case None
    with hd assms(4,5) show ?thesis by (auto simp: session_ok_def)
  next
    case (Some f)
    then obtain f' where f': "hm_get (js_disk s') sid = Some f'" "synced_more f f'"
      using assms(5) by (auto simp: option_rel_Some1)
    have data: "disk_holds J f h" "durable J f d" "prefix d h"
      using hd Some assms(3) by (auto simp: session_ok_def unpoisoned_def dest: disk_exact_holds
          split: option.split_asm)
    obtain bytes tail where log: "log_lines J 0 h = Some bytes" "sf_log f = bytes @ tail"
      using data(1) by (auto simp: disk_holds_def)
    obtain bd b' where "log_lines J 0 d = Some bd" "bytes = bd @ b'" by (rule prefix_lines [OF data(3) log(1)])
    then have "disk_holds J f' h" "durable J f' d"
      using f'(2) data(1,2) log(2) by (auto simp: synced_more_def disk_holds_def durable_def)
    with hd Some f' assms(4) show ?thesis by (auto simp: session_ok_def synced_more_def)
  qed
  then show ?thesis
    using contents_unique [OF assms(1) _ contents_history [OF assms(1) hd]] by blast
qed

lemma closed_all:
  assumes "jsonl_inv J s" "unpoisoned s" "js_sessions s' = []"
    and "\<And>sid. rel_option synced_more (hm_get (js_disk s) sid) (hm_get (js_disk s') sid)"
  shows "jsonl_inv J s' \<and> unpoisoned s' \<and> jsonl_contents J s' = jsonl_contents J s"
proof -
  have port: "port_ok J" using assms(1) by (simp add: jsonl_inv_def)
  note same = closed_same [OF port assms(1-3) assms(4)]
  then show ?thesis using port assms(3) unfolding jsonl_inv_def unpoisoned_def by auto
qed

lemma finish_closes:
  assumes "jsonl_inv J s"
  shows "js_sessions (jsonl_finish s) = [] \<and> js_io (jsonl_finish s) = js_io s
    \<and> (\<forall>sid. rel_option synced_more (hm_get (js_disk s) sid) (hm_get (js_disk (jsonl_finish s)) sid))"
proof -
  obtain plan s0 where plan: "next_plan s = (plan, s0)" by fastforce
  note fields = next_plan_fields [OF plan]
  have "hm_get (js_disk s0) x \<noteq> None" if "x \<in> set (hm_keys (js_sessions s0))" for x
  proof -
    obtain h d where "session_at J (\<lambda>_. True) x s h d" by (rule jsonl_inv_at [OF assms])
    from open_has_files [OF this] that show ?thesis by (simp add: fields set_hm_keys)
  qed
  from finish_disk [OF this] fields have "rel_option synced_more (hm_get (js_disk s) sid)
      (hm_get (js_disk (jsonl_finish s)) sid)" for sid
    by (simp add: jsonl_finish_def plan)
  moreover have "js_io (fold (\<lambda>x s. set_files x (final_sync plan x (files_of s x)) s) ks v) = js_io v" for ks v
    by (induction ks arbitrary: v) (simp_all add: set_files_def)
  ultimately show ?thesis by (simp add: jsonl_finish_def plan fields)
qed

section \<open>The simulation\<close>

definition same_store :: "'j json_port \<Rightarrow> jsonl_store \<Rightarrow> memory_session_store \<Rightarrow> bool" where
  "same_store J s m \<longleftrightarrow>
     jsonl_inv J s \<and> unpoisoned s \<and> all_fine s \<and> memory_inv m \<and> jsonl_contents J s = memory_projection m"

lemma same_commit:
  assumes "port_total J" "same_store J s m" "jsonl_commit J s tx = (r, s')" "memory_commit m tx = (r', m')"
  shows "r' = r \<and> same_store J s' m'"
proof -
  have same: "jsonl_inv J s" "unpoisoned s" "all_fine s" "memory_inv m" "jsonl_contents J s = memory_projection m"
    using assms(2) by (simp_all add: same_store_def)
  obtain h d where hd: "session_at J (\<lambda>_. True) (tx_session_id tx) s h d" "port_ok J"
    by (rule jsonl_inv_at [OF same(1)])
  note fine = commit_fine [OF hd(2) assms(1) hd(1) same(2,3) assms(3)]
  have r: "r' = r" using memory_commit_result [OF same(4), of tx] fine same(5) assms(4) by simp
  have inv: "jsonl_inv J s'" "memory_inv m'"
    using jsonl.commit_inv [OF same(1), of tx] memory.commit_inv [OF same(4), of tx] assms(3,4) by simp_all
  have "jsonl_contents J s' = memory_projection m'"
  proof (cases r)
    case (Ok c)
    with r assms(3,4) jsonl.commit_ok [OF same(1)] memory.commit_ok [OF same(4)] same(5) show ?thesis
      by (metis rres.inject(1))
  next
    case (Err e)
    with r assms(3,4) jsonl.commit_err [OF same(1)] memory.commit_err [OF same(4)] same(5) show ?thesis by metis
  next
    case Panic
    with jsonl.commit_no_panic [OF same(1), of tx] assms(3) show ?thesis by simp
  qed
  with r inv fine show ?thesis by (simp add: same_store_def)
qed

lemma same_view:
  assumes "same_store J s m" "jsonl_context_view J sid s = (v, s')"
  shows "memory_context_view m sid = v \<and> same_store J s' m"
proof -
  have same: "jsonl_inv J s" "unpoisoned s" "all_fine s" "memory_inv m" "jsonl_contents J s = memory_projection m"
    using assms(1) by (simp_all add: same_store_def)
  obtain h d where hd: "session_at J (\<lambda>_. True) sid s h d" "port_ok J" by (rule jsonl_inv_at [OF same(1)])
  note fine = view_fine [OF hd(2,1) same(2,3) assms(2)]
  note ok = view_ok [OF hd(2,1) assms(2)]
  have "jsonl_contents J s' sid = jsonl_contents J s sid"
    using ok contents_unique [OF hd(2) _ contents_history [OF hd(2,1)]] by blast
  with contents_only ok have contents: "jsonl_contents J s' = jsonl_contents J s" by (metis fun_upd_triv)
  have "\<exists>h d. session_at J (\<lambda>_. True) x s' h d" for x
  proof (cases "x = sid")
    case True
    with ok show ?thesis by blast
  next
    case False
    obtain h d where "session_at J (\<lambda>_. True) x s h d" by (rule jsonl_inv_at [OF same(1)])
    from session_at_other [OF _ False this] ok show ?thesis by blast
  qed
  then have "jsonl_inv J s'" using hd(2) by (simp add: jsonl_inv_def)
  with fine same(4,5) contents memory.view_available [OF same(4)] show ?thesis by (simp add: same_store_def)
qed

lemma same_answers:
  "port_total J \<Longrightarrow> same_store J s m \<Longrightarrow> jsonl_answers J ops s = memory_answers ops m"
proof (induction ops arbitrary: s m)
  case (Cons op ops)
  show ?case
  proof (cases op)
    case (DoCommit tx)
    obtain r s' where c: "jsonl_commit J s tx = (r, s')" by fastforce
    obtain r' m' where c': "memory_commit m tx = (r', m')" by fastforce
    from same_commit [OF Cons.prems c c'] Cons.IH [OF Cons.prems(1)] c c' DoCommit show ?thesis by simp
  next
    case (DoView sid)
    obtain v s' where c: "jsonl_context_view J sid s = (v, s')" by fastforce
    from same_view [OF Cons.prems(2) c] Cons.IH [OF Cons.prems(1)] c DoView show ?thesis by simp
  next
    case DoFinish
    have same: "jsonl_inv J s" "unpoisoned s" "all_fine s" using Cons.prems(2) by (simp_all add: same_store_def)
    note closes = finish_closes [OF same(1)]
    have "same_store J (jsonl_finish s) m"
      using closed_all [OF same(1,2), of "jsonl_finish s"] closes Cons.prems(2)
      by (auto simp: same_store_def all_fine_def)
    from Cons.IH [OF Cons.prems(1) this] DoFinish show ?thesis by simp
  next
    case DoRestart
    have same: "jsonl_inv J s" "unpoisoned s" "all_fine s" using Cons.prems(2) by (simp_all add: same_store_def)
    have "rel_option synced_more (hm_get (js_disk s) sid) (hm_get (js_disk (jsonl_restart s)) sid)" for sid
      by (cases "hm_get (js_disk s) sid") (simp_all add: jsonl_restart_def synced_more_def)
    then have "same_store J (jsonl_restart s) m"
      using closed_all [OF same(1,2), of "jsonl_restart s"] Cons.prems(2)
      by (auto simp: same_store_def all_fine_def jsonl_restart_def)
    from Cons.IH [OF Cons.prems(1) this] DoRestart show ?thesis by simp
  qed
qed simp

end
