(* ===== verification/Jsonl_Demo.thy ===== *)
theory Jsonl_Demo
  imports Jsonl_Equivalence Session_Demo
begin

text \<open>
  A concrete JSON library and hash for the witnesses: a record is written as a list of numbers, each
  as so many ones and a zero, and read back; the hash of a file is its bytes, shifted.
\<close>

section \<open>Numbers\<close>

definition put_number :: "nat \<Rightarrow> u8 list" where
  "put_number n = replicate n 1 @ [0]"

fun get_numbers :: "nat \<Rightarrow> u8 list \<Rightarrow> nat list" where
  "get_numbers n [] = []"
| "get_numbers n (b # bs) = (if b = 0 then n # get_numbers 0 bs else get_numbers (Suc n) bs)"

lemma get_put_number: "get_numbers m (put_number n @ bs) = (m + n) # get_numbers 0 bs"
  by (induction n arbitrary: m) (simp_all add: put_number_def)

lemma get_put_numbers: "get_numbers 0 (concat (map put_number ns)) = ns"
  by (induction ns) (simp_all add: get_put_number)

lemma put_number_plain: "10 \<notin> set (concat (map put_number ns))"
  by (auto simp: put_number_def)

section \<open>Readers\<close>

type_synonym 'a reader = "nat list \<Rightarrow> 'a \<times> nat list"

definition reads :: "'a reader \<Rightarrow> ('a \<Rightarrow> nat list) \<Rightarrow> bool" where
  "reads g p \<longleftrightarrow> (\<forall>x rest. g (p x @ rest) = (x, rest))"

definition gbind :: "'a reader \<Rightarrow> ('a \<Rightarrow> 'b reader) \<Rightarrow> 'b reader" where
  "gbind g f ns = (case g ns of (x, ns1) \<Rightarrow> f x ns1)"

definition greturn :: "'a \<Rightarrow> 'a reader" where
  "greturn x ns = (x, ns)"

definition get_nat :: "nat reader" where
  "get_nat ns = (hd ns, tl ns)"

lemma readsD: "reads g p \<Longrightarrow> g (p x @ rest) = (x, rest)"
  by (simp add: reads_def)

lemmas reader_simps = gbind_def greturn_def get_nat_def

fun get_many :: "'a reader \<Rightarrow> nat \<Rightarrow> 'a list reader" where
  "get_many g 0 ns = ([], ns)"
| "get_many g (Suc n) ns = gbind g (\<lambda>x. gbind (get_many g n) (\<lambda>xs. greturn (x # xs))) ns"

definition get_list :: "'a reader \<Rightarrow> 'a list reader" where
  "get_list g = gbind get_nat (get_many g)"

definition put_list :: "('a \<Rightarrow> nat list) \<Rightarrow> 'a list \<Rightarrow> nat list" where
  "put_list p xs = length xs # concat (map p xs)"

lemma reads_list: "reads g p \<Longrightarrow> reads (get_list g) (put_list p)"
proof -
  assume g: "reads g p"
  have "get_many g (length xs) (concat (map p xs) @ rest) = (xs, rest)" for xs rest
    by (induction xs) (simp_all add: reader_simps readsD [OF g])
  then show ?thesis by (simp add: reads_def get_list_def put_list_def reader_simps)
qed

definition get_option :: "'a reader \<Rightarrow> 'a option reader" where
  "get_option g = gbind get_nat (\<lambda>n. if n = 0 then greturn None else gbind g (\<lambda>x. greturn (Some x)))"

definition put_option :: "('a \<Rightarrow> nat list) \<Rightarrow> 'a option \<Rightarrow> nat list" where
  "put_option p x = (case x of None \<Rightarrow> [0] | Some y \<Rightarrow> 1 # p y)"

lemma reads_option: "reads g p \<Longrightarrow> reads (get_option g) (put_option p)"
  by (auto simp: reads_def get_option_def put_option_def reader_simps split: option.split)

definition put_nat :: "nat \<Rightarrow> nat list" where
  "put_nat n = [n]"

lemma reads_nat: "reads get_nat put_nat"
  by (simp add: reads_def get_nat_def put_nat_def)

abbreviation "put_str \<equiv> put_list put_nat"
abbreviation "get_str \<equiv> get_list get_nat"

lemmas reads_str = reads_list [OF reads_nat]

definition put_u64 :: "u64 \<Rightarrow> nat list" where
  "put_u64 w = [unat w]"

definition get_u64 :: "u64 reader" where
  "get_u64 = gbind get_nat (\<lambda>n. greturn (of_nat n))"

lemma reads_u64: "reads get_u64 put_u64"
  by (simp add: reads_def get_u64_def put_u64_def reader_simps)

section \<open>The records\<close>

definition put_outcome :: "tool_outcome_record \<Rightarrow> nat list" where
  "put_outcome r =
     (case r of
        OutSuccess a \<Rightarrow> 0 # put_str a
      | OutError a b \<Rightarrow> 1 # put_str a @ put_str b
      | OutCancelled \<Rightarrow> [2]
      | OutInterrupted \<Rightarrow> [3])"

definition get_outcome :: "tool_outcome_record reader" where
  "get_outcome = gbind get_nat (\<lambda>t.
     if t = 0 then gbind get_str (\<lambda>a. greturn (OutSuccess a))
     else if t = 1 then gbind get_str (\<lambda>a. gbind get_str (\<lambda>b. greturn (OutError a b)))
     else if t = 2 then greturn OutCancelled
     else greturn OutInterrupted)"

lemma reads_outcome: "reads get_outcome put_outcome"
  by (auto simp: reads_def get_outcome_def put_outcome_def reader_simps readsD [OF reads_str]
      split: tool_outcome_record.split)

definition put_block :: "assistant_block_record \<Rightarrow> nat list" where
  "put_block b =
     (case b of
        BlkText a \<Rightarrow> 0 # put_str a
      | BlkToolCall a b c \<Rightarrow> 1 # put_str a @ put_str b @ put_str c)"

definition get_block :: "assistant_block_record reader" where
  "get_block = gbind get_nat (\<lambda>t.
     if t = 0 then gbind get_str (\<lambda>a. greturn (BlkText a))
     else gbind get_str (\<lambda>a. gbind get_str (\<lambda>b. gbind get_str (\<lambda>c. greturn (BlkToolCall a b c)))))"

lemma reads_block: "reads get_block put_block"
  by (auto simp: reads_def get_block_def put_block_def reader_simps readsD [OF reads_str]
      split: assistant_block_record.split)

definition put_part :: "user_part_record \<Rightarrow> nat list" where
  "put_part p =
     (case p of
        PrtText a \<Rightarrow> 0 # put_str a
      | PrtImage a b n \<Rightarrow> 1 # put_str a @ put_str b @ put_u64 n)"

definition get_part :: "user_part_record reader" where
  "get_part = gbind get_nat (\<lambda>t.
     if t = 0 then gbind get_str (\<lambda>a. greturn (PrtText a))
     else gbind get_str (\<lambda>a. gbind get_str (\<lambda>b. gbind get_u64 (\<lambda>n. greturn (PrtImage a b n)))))"

lemma reads_part: "reads get_part put_part"
  by (auto simp: reads_def get_part_def put_part_def reader_simps readsD [OF reads_str] readsD [OF reads_u64]
      split: user_part_record.split)

text \<open>Enumerations by their position.\<close>

definition put_enum :: "'a list \<Rightarrow> 'a \<Rightarrow> nat list" where
  "put_enum xs x = [length (takeWhile (\<lambda>y. y \<noteq> x) xs)]"

definition get_enum :: "'a list \<Rightarrow> 'a reader" where
  "get_enum xs = gbind get_nat (\<lambda>n. greturn (xs ! n))"

lemma nth_position: "x \<in> set xs \<Longrightarrow> xs ! length (takeWhile (\<lambda>y. y \<noteq> x) xs) = x"
  by (induction xs) auto

lemma reads_enum: "(\<And>x. x \<in> set xs) \<Longrightarrow> reads (get_enum xs) (put_enum xs)"
  by (simp add: reads_def get_enum_def put_enum_def reader_simps nth_position)

abbreviation "all_outcomes \<equiv> [RecSucceeded, RecFailed, RecCancelled]"
abbreviation "all_reasons \<equiv> [RecUser, RecTimeout, RecAbandoned]"
abbreviation "all_failures \<equiv> [RecModelCall, RecInvalidModelOutput, RecPersistence, RecRuntimeDriver, RecToolExecution]"

lemma reads_enums:
  "reads (get_enum all_outcomes) (put_enum all_outcomes)"
  "reads (get_enum all_reasons) (put_enum all_reasons)"
  "reads (get_enum all_failures) (put_enum all_failures)"
  by (rule reads_enum, case_tac x, simp_all)+

definition put_usage :: "token_usage_record \<Rightarrow> nat list" where
  "put_usage u =
     put_option put_u64 (ur_input_tokens u) @ put_option put_u64 (ur_output_tokens u)
     @ put_option put_u64 (ur_cache_read_tokens u) @ put_option put_u64 (ur_cache_write_tokens u)
     @ put_option put_u64 (ur_reasoning_tokens u)"

definition get_usage :: "token_usage_record reader" where
  "get_usage = gbind (get_option get_u64) (\<lambda>a. gbind (get_option get_u64) (\<lambda>b. gbind (get_option get_u64) (\<lambda>c.
     gbind (get_option get_u64) (\<lambda>d. gbind (get_option get_u64) (\<lambda>e.
       greturn \<lparr>ur_input_tokens = a, ur_output_tokens = b, ur_cache_read_tokens = c,
                ur_cache_write_tokens = d, ur_reasoning_tokens = e\<rparr>)))))"

lemma reads_usage: "reads get_usage put_usage"
  by (simp add: reads_def get_usage_def put_usage_def reader_simps readsD [OF reads_option [OF reads_u64]])

definition put_choice :: "generation_choice_record \<Rightarrow> nat list" where
  "put_choice c =
     put_option put_str (gr_provider c) @ put_str (gr_model_id c) @ put_option put_str (gr_reasoning_effort c)"

definition get_choice :: "generation_choice_record reader" where
  "get_choice = gbind (get_option get_str) (\<lambda>a. gbind get_str (\<lambda>b. gbind (get_option get_str) (\<lambda>c.
     greturn \<lparr>gr_provider = a, gr_model_id = b, gr_reasoning_effort = c\<rparr>)))"

lemma reads_choice: "reads get_choice put_choice"
  by (simp add: reads_def get_choice_def put_choice_def reader_simps readsD [OF reads_str]
      readsD [OF reads_option [OF reads_str]])

definition put_kind :: "kind_record \<Rightarrow> nat list" where
  "put_kind k =
     (case k of
        KrOperationStarted a \<Rightarrow> 0 # put_str a
      | KrTurnStarted a b \<Rightarrow> 1 # put_str a @ put_str b
      | KrUserMessage m \<Rightarrow> 2 # put_str (umr_turn_id m) @ put_list put_part (umr_parts m)
      | KrAssistantToolCallBatch m \<Rightarrow>
          3 # put_str (abr_turn_id m) @ put_str (abr_model_call_id m) @ put_str (abr_tool_batch_id m)
            @ put_list put_block (abr_blocks m)
      | KrToolResult a b r \<Rightarrow> 4 # put_str a @ put_str b @ put_str (trr_call_id r) @ put_outcome (trr_outcome r)
      | KrAssistantMessage m \<Rightarrow> 5 # put_str (amr_turn_id m) @ put_list put_block (amr_blocks m)
      | KrTurnFailure a f \<Rightarrow> 6 # put_str a @ put_enum all_failures (fr_kind f) @ put_str (fr_message f)
      | KrTurnTerminated a oc r \<Rightarrow>
          7 # put_str a @ put_enum all_outcomes oc @ put_option (put_enum all_reasons) r
      | KrOperationSettled a oc r u g \<Rightarrow>
          8 # put_str a @ put_enum all_outcomes oc @ put_option (put_enum all_reasons) r
            @ put_option put_usage u @ put_option put_choice g
      | KrCompaction a b \<Rightarrow> 9 # put_str a @ put_str b
      | KrTitleSet a \<Rightarrow> 10 # put_str a)"

definition get_kind :: "kind_record reader" where
  "get_kind = gbind get_nat (\<lambda>t.
     if t = 0 then gbind get_str (\<lambda>a. greturn (KrOperationStarted a))
     else if t = 1 then gbind get_str (\<lambda>a. gbind get_str (\<lambda>b. greturn (KrTurnStarted a b)))
     else if t = 2 then gbind get_str (\<lambda>a. gbind (get_list get_part) (\<lambda>ps.
       greturn (KrUserMessage \<lparr>umr_turn_id = a, umr_parts = ps\<rparr>)))
     else if t = 3 then gbind get_str (\<lambda>a. gbind get_str (\<lambda>b. gbind get_str (\<lambda>c. gbind (get_list get_block) (\<lambda>bs.
       greturn (KrAssistantToolCallBatch
         \<lparr>abr_turn_id = a, abr_model_call_id = b, abr_tool_batch_id = c, abr_blocks = bs\<rparr>)))))
     else if t = 4 then gbind get_str (\<lambda>a. gbind get_str (\<lambda>b. gbind get_str (\<lambda>c. gbind get_outcome (\<lambda>r.
       greturn (KrToolResult a b \<lparr>trr_call_id = c, trr_outcome = r\<rparr>)))))
     else if t = 5 then gbind get_str (\<lambda>a. gbind (get_list get_block) (\<lambda>bs.
       greturn (KrAssistantMessage \<lparr>amr_turn_id = a, amr_blocks = bs\<rparr>)))
     else if t = 6 then gbind get_str (\<lambda>a. gbind (get_enum all_failures) (\<lambda>k. gbind get_str (\<lambda>m.
       greturn (KrTurnFailure a \<lparr>fr_kind = k, fr_message = m\<rparr>))))
     else if t = 7 then gbind get_str (\<lambda>a. gbind (get_enum all_outcomes) (\<lambda>oc.
       gbind (get_option (get_enum all_reasons)) (\<lambda>r. greturn (KrTurnTerminated a oc r))))
     else if t = 8 then gbind get_str (\<lambda>a. gbind (get_enum all_outcomes) (\<lambda>oc.
       gbind (get_option (get_enum all_reasons)) (\<lambda>r. gbind (get_option get_usage) (\<lambda>u.
       gbind (get_option get_choice) (\<lambda>g. greturn (KrOperationSettled a oc r u g))))))
     else if t = 9 then gbind get_str (\<lambda>a. gbind get_str (\<lambda>b. greturn (KrCompaction a b)))
     else gbind get_str (\<lambda>a. greturn (KrTitleSet a)))"

lemmas kind_readers =
  readsD [OF reads_str] readsD [OF reads_list [OF reads_part]] readsD [OF reads_list [OF reads_block]]
  readsD [OF reads_outcome] readsD [OF reads_enums(1)] readsD [OF reads_enums(3)]
  readsD [OF reads_option [OF reads_enums(2)]] readsD [OF reads_option [OF reads_usage]]
  readsD [OF reads_option [OF reads_choice]]

lemma reads_kind: "reads get_kind put_kind"
  unfolding reads_def
proof (intro allI)
  fix k :: kind_record and rest
  show "get_kind (put_kind k @ rest) = (k, rest)"
    by (cases k) (simp_all add: get_kind_def put_kind_def reader_simps kind_readers)
qed

definition put_entry :: "entry_record \<Rightarrow> nat list" where
  "put_entry e = put_str (er_id e) @ put_option put_str (er_parent e) @ put_kind (er_kind e)"

definition get_entry :: "entry_record reader" where
  "get_entry = gbind get_str (\<lambda>a. gbind (get_option get_str) (\<lambda>b. gbind get_kind (\<lambda>c.
     greturn \<lparr>er_id = a, er_parent = b, er_kind = c\<rparr>)))"

lemma reads_entry: "reads get_entry put_entry"
  by (simp add: reads_def get_entry_def put_entry_def reader_simps readsD [OF reads_str]
      readsD [OF reads_option [OF reads_str]] readsD [OF reads_kind])

definition put_transaction :: "transaction_record \<Rightarrow> nat list" where
  "put_transaction r = put_u64 (tr_v r) @ put_u64 (tr_revision r) @ put_list put_entry (tr_entries r)"

definition get_transaction :: "transaction_record reader" where
  "get_transaction = gbind get_u64 (\<lambda>a. gbind get_u64 (\<lambda>b. gbind (get_list get_entry) (\<lambda>c.
     greturn \<lparr>tr_v = a, tr_revision = b, tr_entries = c\<rparr>)))"

lemma reads_transaction: "reads get_transaction put_transaction"
  by (simp add: reads_def get_transaction_def put_transaction_def reader_simps readsD [OF reads_u64]
      readsD [OF reads_list [OF reads_entry]])

section \<open>The port\<close>

definition demo_port :: "transaction_record json_port" where
  "demo_port =
     \<lparr>jp_serialize = (\<lambda>r. Ok (concat (map put_number (put_transaction r)))),
      jp_parse = (\<lambda>line. Ok (fst (get_transaction (get_numbers 0 line)))),
      jp_version = (\<lambda>r. Some (tr_v r)), jp_record = Ok,
      jp_sha256_hex = map (\<lambda>b. 200 + unat b), jp_debug = (\<lambda>_. [])\<rparr>"

lemma demo_port_ok: "port_ok demo_port"
proof -
  have "inj (map (\<lambda>b :: u8. 200 + unat b))" by (rule inj_mapI) (simp add: inj_def word_unat_eq_iff)
  moreover have "map (\<lambda>b :: u8. 200 + unat b) bytes \<noteq> temp_name hash" for bytes hash
  proof
    assume "map (\<lambda>b. 200 + unat b) bytes = temp_name hash"
    then have "112 \<in> set (map (\<lambda>b. 200 + unat b) bytes)" by (simp add: temp_name_def lit_def)
    then show False by auto
  qed
  moreover have "fst (get_transaction (put_transaction r)) = r" for r
    using readsD [OF reads_transaction, of r "[]"] by simp
  ultimately show ?thesis
    using put_number_plain by (simp add: port_ok_def demo_port_def get_put_numbers)
qed

lemma demo_port_total: "port_total demo_port"
  by (simp add: port_total_def demo_port_def)

definition fine_plan :: io_plan where
  "fine_plan =
     \<lparr>io_lock = LockTaken, io_read_log = None, io_list_artifacts = None, io_read_artifact = (\<lambda>_. None),
      io_truncate = TruncateDone, io_open_log = None, io_title_readable = True, io_title_written = True,
      io_create_dir = None, io_sync_dir = None, io_sync_root = None, io_artifact = (\<lambda>_. ArtifactDone),
      io_sync_artifacts = None, io_append = AppendDone, io_list_root = None, io_modified = (\<lambda>_. None),
      io_final_sync = (\<lambda>_. True)\<rparr>"

lemma fine_plan_fine: "io_fine fine_plan"
  by (simp add: io_fine_def fine_plan_def)

end
