(* ===== verification/Store_Properties.thy ===== *)
theory Store_Properties
  imports Stream_Transient Jsonl_Demo
begin

text \<open>
  The properties of what is shown and what is stored: the transient store of a driver, the session
  directories and the JSONL session store.
\<close>

section \<open>The transient store\<close>

text \<open>C37. Nothing streamed is lost or reordered below the limits: if what a driver publishes between
  two drains is at most 4,096 bytes of text and of reasoning, and it seals the stream at most 8
  times, then no step panics and the text drained is the text published, in order.\<close>

theorem transient_text_in_order:
  assumes "utf8_bytes (published text_of_event ops) \<le> delta_merge_chunk_max"
    and "utf8_bytes (published reasoning_of_event ops) \<le> delta_merge_chunk_max"
    and "seals ops \<le> sealed_pending_gen_max"
  shows "\<exists>ds. rfold transient_step ops slots_new = Ok ds
    \<and> drained_text (fst (drain_model_stream ds)) = published text_of_event ops"
  using run_holds [OF holds_stream_new, of ops] assms drained_held by auto

theorem transient_text_in_order_witness:
  "\<exists>ds. rfold transient_step [TopPublish (EvTextDelta (lit ''ab'')), TopSeal,
        TopPublish (EvReasoningDelta (lit ''m'') (lit ''why'')), TopPublish (EvTextDelta (lit ''c''))] slots_new = Ok ds
    \<and> drained_text (fst (drain_model_stream ds)) = lit ''abc''"
proof -
  let ?ops = "[TopPublish (EvTextDelta (lit ''ab'')), TopSeal,
        TopPublish (EvReasoningDelta (lit ''m'') (lit ''why'')), TopPublish (EvTextDelta (lit ''c''))]"
  have shown: "published text_of_event ?ops = lit ''abc''" by code_simp
  have "utf8_bytes (published text_of_event ?ops) \<le> delta_merge_chunk_max"
    "utf8_bytes (published reasoning_of_event ?ops) \<le> delta_merge_chunk_max"
    "seals ?ops \<le> sealed_pending_gen_max"
    by code_simp+
  from transient_text_in_order [OF this] show ?thesis unfolding shown .
qed

lemma publish_text_panics_iff:
  "publish_agent (EvTextDelta delta) ds = Panic \<longleftrightarrow>
    delta_merge_chunk_max < utf8_bytes (slot_text (ds_open ds) @ delta)
    \<and> take_bytes delta_merge_chunk_max (slot_text (ds_open ds) @ delta) = None"
  by (auto simp: publish_agent_def merge_text_def push_capped_def slot_text_def Let_def rres_simps
      split: option.splits if_split_asm)

text \<open>C38. Publishing a text delta panics exactly when the merged text is over 4,096 bytes and the
  4,096th byte ends no character; a long delta of three-byte characters is enough.\<close>

theorem transient_cut_panics:
  "(publish_agent (EvTextDelta delta) ds = Panic \<longleftrightarrow>
     4096 < utf8_bytes (slot_text (ds_open ds) @ delta)
     \<and> (\<nexists>t u. slot_text (ds_open ds) @ delta = t @ u \<and> utf8_bytes t = 4096))
   \<and> publish_agent (EvTextDelta (replicate 1366 20013)) slots_new = Panic"
proof
  show iff: "publish_agent (EvTextDelta delta) ds = Panic \<longleftrightarrow>
     4096 < utf8_bytes (slot_text (ds_open ds) @ delta)
     \<and> (\<nexists>t u. slot_text (ds_open ds) @ delta = t @ u \<and> utf8_bytes t = 4096)" for delta ds
    unfolding publish_text_panics_iff take_bytes_None_iff delta_merge_chunk_max_def by blast
  have three: "utf8_len 20013 = 3" by (simp add: utf8_len_def)
  have bytes: "utf8_bytes (replicate n 20013) = 3 * n" for n
    by (induction n) (simp_all add: three)
  have "utf8_bytes t \<noteq> 4096" if "replicate 1366 20013 = t @ u" for t u
  proof -
    have "t = replicate (length t) 20013" using that
      by (metis append_eq_conv_conj take_replicate length_take min_def length_replicate length_append le_add1)
    then have "utf8_bytes t = 3 * length t" using bytes by metis
    then show ?thesis by presburger
  qed
  then show "publish_agent (EvTextDelta (replicate 1366 20013)) slots_new = Panic"
    unfolding iff by (auto simp: bytes slots_new_def ms_default_def slot_text_def)
qed

section \<open>Session directories\<close>

text \<open>C36. The directory of a session: its name decodes to the session id, no other name does, and it
  consists of letters, digits, \<^verbatim>\<open>-\<close>, \<^verbatim>\<open>_\<close> and \<^verbatim>\<open>%\<close> only, so an id cannot escape the store root.\<close>

theorem session_dir_roundtrip:
  assumes "list_all is_scalar sid"
  shows "decode_session_dir_name (session_dir_name sid) = Some sid
    \<and> (\<nexists>name. name \<noteq> session_dir_name sid \<and> decode_session_dir_name name = Some sid)
    \<and> list_all safe_name_char (session_dir_name sid)"
proof (intro conjI)
  show "decode_session_dir_name (session_dir_name sid) = Some sid" by (rule dir_name_decodes [OF assms])
  show "\<nexists>name. name \<noteq> session_dir_name sid \<and> decode_session_dir_name name = Some sid"
    using decoded_name_canonical by metis
  show "list_all safe_name_char (session_dir_name sid)"
    using dir_name_safe [OF assms] by (simp add: list_all_iff)
qed

theorem session_dir_roundtrip_witness:
  "decode_session_dir_name (session_dir_name (lit ''../A'')) = Some (lit ''../A'')
    \<and> (\<nexists>name. name \<noteq> session_dir_name (lit ''../A'') \<and> decode_session_dir_name name = Some (lit ''../A''))
    \<and> list_all safe_name_char (session_dir_name (lit ''../A''))"
proof (rule session_dir_roundtrip)
  show "list_all is_scalar (lit ''../A'')" by (simp add: lit_def is_scalar_def)
qed

section \<open>The JSONL session store\<close>












end
