(* ===== verification/Spec2Isabelle.thy ===== *)
theory Spec2Isabelle
  imports Kernel_Properties Session_Properties Engine_Properties Store_Properties
begin

text \<open>
  Verification of the philo agent: header to be completed with the development.
\<close>

end
